(* ===== verification/Prelude.thy ===== *)
theory Prelude
  imports Main "HOL-Library.Word" "HOL-Library.Multiset" "HOL-Library.Signed_Division"
begin

text \<open>
  Shared vocabulary of the development: the collections of simplification
  facts the components add to, the loops \<open>for (i : idxs) xs[i] = ...\<close> that the
  compiler passes are made of, searches that return the first match, and the
  generic facts on lists the component proofs rest on.
\<close>

named_theorems loop_simps "facts on loops over index lists"
named_theorems api_laws "consequences of the documented laws of external code"
named_theorems model_defs "unfolding rules of small helper definitions"

section \<open>Loops over index lists\<close>

text \<open>\<open>for (size_t i : idxs) xs[i] = f(i, xs[i]);\<close> on a vector passed by reference.\<close>

definition update_each :: "nat list \<Rightarrow> (nat \<Rightarrow> 'a \<Rightarrow> 'a) \<Rightarrow> 'a list \<Rightarrow> 'a list" where
  "update_each idxs f xs = fold (\<lambda>i ys. ys[i := f i (ys ! i)]) idxs xs"

lemma update_each_Nil [simp]: "update_each [] f xs = xs"
  by (simp add: update_each_def)

lemma update_each_Cons [simp]:
  "update_each (i # idxs) f xs = update_each idxs f (xs[i := f i (xs ! i)])"
  by (simp add: update_each_def)

lemma update_each_append [loop_simps]:
  "update_each (is @ js) f xs = update_each js f (update_each is f xs)"
  by (simp add: update_each_def)

lemma length_update_each [simp, loop_simps]: "length (update_each idxs f xs) = length xs"
  by (induction idxs arbitrary: xs) simp_all

lemma nth_update_each_notin [loop_simps]:
  "i \<notin> set idxs \<Longrightarrow> update_each idxs f xs ! i = xs ! i"
  by (induction idxs arbitrary: xs) simp_all

lemma nth_update_each_in [loop_simps]:
  assumes "i \<in> set idxs" "distinct idxs" "i < length xs"
  shows "update_each idxs f xs ! i = f i (xs ! i)"
  using assms
proof (induction idxs arbitrary: xs)
  case (Cons j idxs)
  then show ?case by (cases "i = j") (auto simp: nth_update_each_notin)
qed simp

lemma nth_update_each:
  assumes "distinct idxs" "i < length xs"
  shows "update_each idxs f xs ! i = (if i \<in> set idxs then f i (xs ! i) else xs ! i)"
  using assms by (simp add: nth_update_each_in nth_update_each_notin)

lemma nth_update_each_const:
  assumes "i \<in> set idxs" "i < length xs"
  shows "update_each idxs (\<lambda>i _. g i) xs ! i = g i"
  using assms
proof (induction idxs arbitrary: xs)
  case (Cons j idxs)
  then show ?case
    by (cases "i \<in> set idxs") (auto simp: nth_update_each_notin)
qed simp

text \<open>The maximum a loop \<open>m = max(m, x)\<close> leaves in its accumulator.\<close>

lemma fold_max_ge_init: "(m :: int) \<le> fold (\<lambda>x acc. max acc (g x)) xs m"
  by (induction xs arbitrary: m) (simp_all, smt (verit))

lemma fold_max_ge_elem:
  "x \<in> set xs \<Longrightarrow> (g x :: int) \<le> fold (\<lambda>x acc. max acc (g x)) xs m"
proof (induction xs arbitrary: m)
  case (Cons y ys)
  show ?case
  proof (cases "x \<in> set ys")
    case False
    with Cons.prems have "x = y" by simp
    then show ?thesis
      using fold_max_ge_init[of "max m (g y)" g ys] by simp
  qed (use Cons.IH in simp)
qed simp

lemma fold_max_upper:
  assumes "m \<le> b" "\<And>x. x \<in> set xs \<Longrightarrow> g x \<le> b"
  shows "fold (\<lambda>x acc. max acc (g x)) xs m \<le> (b :: int)"
  using assms by (induction xs arbitrary: m) simp_all

section \<open>First match\<close>

text \<open>\<open>llvm::find\<close> followed by \<open>std::distance\<close>, and every loop that stops at its first hit.\<close>

fun index_of :: "'a \<Rightarrow> 'a list \<Rightarrow> nat option" where
  "index_of x [] = None"
| "index_of x (y # ys) = (if y = x then Some 0 else map_option Suc (index_of x ys))"

lemma index_of_SomeD:
  "index_of x ys = Some k \<Longrightarrow> k < length ys \<and> ys ! k = x"
proof (induction ys arbitrary: k)
  case (Cons y ys)
  then show ?case by (auto split: if_splits)
qed simp

lemma index_of_eq_None [simp]: "index_of x ys = None \<longleftrightarrow> x \<notin> set ys"
  by (induction ys) auto

lemma index_of_first: "index_of x ys = Some k \<Longrightarrow> x \<notin> set (take k ys)"
proof (induction ys arbitrary: k)
  case (Cons y ys)
  then show ?case by (auto split: if_splits)
qed simp

section \<open>C++ division\<close>

text \<open>
  \<open>/\<close> on signed integers truncates towards zero (\<open>sdiv\<close>); on a non-negative
  dividend and a positive divisor it is \<open>div\<close>.
\<close>

lemma sdiv_nonneg [simp]:
  assumes "0 \<le> (a :: int)" "0 \<le> b"
  shows "a sdiv b = a div b"
  using assms by (simp add: signed_divide_int_def sgn_if)

section \<open>Lists\<close>

lemma nth_upt_set: "set [0..<n] = {i. i < n}"
  by auto

lemma filter_upt_sorted [simp]: "sorted (filter P [0..<n])"
  by (rule sorted_wrt_filter) simp

lemma mset_three_way:
  "mset (filter P xs) + mset (filter (\<lambda>x. \<not> P x) xs) = mset xs"
  by (induction xs) auto

lemma prod_list_nonneg_int: "(\<And>x. x \<in> set xs \<Longrightarrow> 0 \<le> (x :: int)) \<Longrightarrow> 0 \<le> prod_list xs"
  by (induction xs) auto

lemma prod_list_mono_int:
  assumes "length xs = length ys" "\<And>i. i < length xs \<Longrightarrow> 0 \<le> xs ! i \<and> xs ! i \<le> (ys ! i :: int)"
  shows "prod_list xs \<le> prod_list ys"
  using assms
proof (induction xs ys rule: list_induct2)
  case (Cons x xs y ys)
  have hd: "0 \<le> x" "x \<le> y" using Cons.prems[of 0] by simp_all
  have tl: "\<And>i. i < length xs \<Longrightarrow> 0 \<le> xs ! i \<and> xs ! i \<le> ys ! i"
    using Cons.prems[of "Suc i" for i] by simp
  then have "0 \<le> prod_list xs"
    by (auto intro!: prod_list_nonneg_int simp: in_set_conv_nth)
  with hd Cons.IH[OF tl] show ?case by (auto intro: mult_mono)
qed simp

lemma sum_list_mono_int:
  "(\<And>x. x \<in> set xs \<Longrightarrow> f x \<le> (g x :: int)) \<Longrightarrow> sum_list (map f xs) \<le> sum_list (map g xs)"
  by (rule sum_list_mono)

section \<open>Stores of named values\<close>

text \<open>The interface of a dictionary of named values: what a lookup returns after an update, and the
  invariant every update keeps.\<close>

locale named_store =
  fixes lookup :: "'s \<Rightarrow> 'k \<Rightarrow> 'v option"
    and update :: "'k \<Rightarrow> 'v \<Rightarrow> 's \<Rightarrow> 's"
    and inv :: "'s \<Rightarrow> bool"
  assumes lookup_update: "inv s \<Longrightarrow> lookup (update k v s) k' = (if k' = k then Some v else lookup s k')"
    and inv_update: "inv s \<Longrightarrow> inv (update k v s)"
begin

lemma inv_updates: "inv s \<Longrightarrow> inv (fold (\<lambda>(k, v). update k v) kvs s)"
  by (induction kvs arbitrary: s) (auto simp: inv_update)

lemma lookup_updates:
  "inv s \<Longrightarrow> lookup (fold (\<lambda>(k, v). update k v) kvs s) k =
     (case map_of (rev kvs) k of Some v \<Rightarrow> Some v | None \<Rightarrow> lookup s k)"
proof (induction kvs arbitrary: s)
  case (Cons kv kvs)
  obtain a b where kv: "kv = (a, b)" by (cases kv)
  then show ?case
    using Cons.IH[OF inv_update[OF Cons.prems, of a b]] Cons.prems
    by (auto simp: lookup_update map_add_def split: option.split)
qed simp

lemma lookup_updates_other:
  "inv s \<Longrightarrow> k \<notin> fst ` set kvs \<Longrightarrow> lookup (fold (\<lambda>(k, v). update k v) kvs s) k = lookup s k"
  by (auto simp: lookup_updates map_of_eq_None_iff split: option.split) (metis image_eqI map_of_SomeD fst_conv set_rev)

end


text \<open>\<open>llvm::MapVector\<close> and every list of named values that is overwritten in place: an
  assignment to an existing key keeps its position, a new key is appended.\<close>

fun assoc_put :: "'k \<Rightarrow> 'v \<Rightarrow> ('k \<times> 'v) list \<Rightarrow> ('k \<times> 'v) list" where
  "assoc_put k v [] = [(k, v)]"
| "assoc_put k v ((n, a) # items) = (if n = k then (n, v) # items else (n, a) # assoc_put k v items)"

lemma map_of_assoc_put: "map_of (assoc_put k v items) k' = (if k' = k then Some v else map_of items k')"
  by (induction k v items rule: assoc_put.induct) auto

lemma keys_assoc_put: "set (map fst (assoc_put k v items)) = insert k (set (map fst items))"
  by (induction k v items rule: assoc_put.induct) auto

lemma distinct_assoc_put:
  "distinct (map fst items) \<Longrightarrow> distinct (map fst (assoc_put k v items))"
proof (induction k v items rule: assoc_put.induct)
  case (2 k v n a items)
  then show ?case using keys_assoc_put[of k v items] by auto
qed simp

interpretation assoc: named_store map_of assoc_put "\<lambda>items. distinct (map fst items)"
  by unfold_locales (simp_all add: map_of_assoc_put distinct_assoc_put)

end
