(* ===== verification/MlirTypes.thy ===== *)
theory MlirTypes
  imports Prelude
begin

text \<open>
  The IR data the compiler passes read, as the accessors the source calls
  return it: element and value types, affine maps, the operands of linalg,
  pack and unpack operations, iterator types, lowering configurations and
  the executable target attribute.
\<close>

section \<open>Types and affine maps\<close>

text \<open>\<open>FloatT w\<close> is the IEEE type of \<open>w\<close> bits, \<open>BF16T\<close> is \<open>bf16\<close>.\<close>

datatype elem_type = IntT nat | FloatT nat | BF16T | IndexT | OtherElemT string

text \<open>A shaped type other than a ranked tensor carries its shape when it has a rank.\<close>

datatype mlir_type =
    RankedTensorT "int list" elem_type
  | OtherShapedT "int list option" elem_type
  | ScalarT elem_type
  | OpaqueT string

text \<open>\<open>dyn_cast<ShapedType>\<close> followed by \<open>getElementType()\<close>.\<close>

fun shaped_elem :: "mlir_type \<Rightarrow> elem_type option" where
  "shaped_elem (RankedTensorT _ e) = Some e"
| "shaped_elem (OtherShapedT _ e) = Some e"
| "shaped_elem (ScalarT _) = None"
| "shaped_elem (OpaqueT _) = None"

fun isIntOrFloat :: "elem_type \<Rightarrow> bool" where
  "isIntOrFloat (IntT _) = True"
| "isIntOrFloat (FloatT _) = True"
| "isIntOrFloat BF16T = True"
| "isIntOrFloat _ = False"

datatype affine_expr =
    AffDim nat
  | AffSym nat
  | AffConst int
  | AffAdd affine_expr affine_expr
  | AffMul affine_expr affine_expr
  | AffMod affine_expr affine_expr
  | AffFloorDiv affine_expr affine_expr
  | AffCeilDiv affine_expr affine_expr

text \<open>\<open>dyn_cast<AffineDimExpr>(expr)\<close> followed by \<open>getPosition()\<close>.\<close>

fun dim_position :: "affine_expr \<Rightarrow> nat option" where
  "dim_position (AffDim d) = Some d"
| "dim_position _ = None"

fun uses_dim :: "nat \<Rightarrow> affine_expr \<Rightarrow> bool" where
  "uses_dim d (AffDim k) = (k = d)"
| "uses_dim d (AffSym _) = False"
| "uses_dim d (AffConst _) = False"
| "uses_dim d (AffAdd a b) = (uses_dim d a \<or> uses_dim d b)"
| "uses_dim d (AffMul a b) = (uses_dim d a \<or> uses_dim d b)"
| "uses_dim d (AffMod a b) = (uses_dim d a \<or> uses_dim d b)"
| "uses_dim d (AffFloorDiv a b) = (uses_dim d a \<or> uses_dim d b)"
| "uses_dim d (AffCeilDiv a b) = (uses_dim d a \<or> uses_dim d b)"

type_synonym affine_map = "affine_expr list"

section \<open>Operations\<close>

datatype iterator_type = Parallel | Reduction | OtherIterator

text \<open>An operand: the SSA value it reads, its type, and its indexing map
  (\<open>getMatchingIndexingMap\<close>, read for linalg operations only).\<close>

record operand =
  opd_value :: nat
  opd_type :: mlir_type
  opd_map :: affine_map

text \<open>\<open>lin_tiling_iters\<close> is the result of \<open>dyn_cast<TilingInterface>\<close> on the linalg
  operation followed by \<open>getLoopIteratorTypes()\<close>.\<close>

record linalg_op =
  lin_inputs :: "operand list"
  lin_inits :: "operand list"
  lin_tiling_iters :: "iterator_type list option"
  lin_static_ranges :: "int list"

text \<open>\<open>linalg::PackOp\<close> and \<open>linalg::UnPackOp\<close>; a mixed tile is its constant value, if it has one.\<close>

record pack_op =
  pk_source :: nat
  pk_dest :: nat
  pk_outer_dims_perm :: "nat list"
  pk_inner_dims_pos :: "nat list"
  pk_mixed_tiles :: "int option list"

datatype lhs_def = DefConstant | DefConstantIndex | DefDim | DefSubI | DefOther

datatype body_op = IndexOpB | SubIOpB lhs_def | OtherBodyOp

datatype op_class =
    MatmulOp | BatchMatmulOp | Mmt4DOp | BatchMmt4DOp | Conv2DNhwcHwcfOp
  | GenericOp "body_op list"
  | OtherOpClass

datatype op_iface =
    LinalgIface linalg_op
  | PackIface pack_op
  | UnPackIface pack_op
  | PlainIface

record tiling_op =
  til_class :: op_class
  til_iface :: op_iface
  til_iters :: "iterator_type list"
  til_domain :: "int option list"
  til_operands :: "operand list"
  til_results :: "mlir_type list"

text \<open>A compute operation; \<open>None\<close> is one without the \<open>TilingInterface\<close>.\<close>

type_synonym operation = "tiling_op option"

section \<open>Configurations and functions\<close>

datatype tiling_level =
    DistributionTiles | CacheParallelTiles | CacheReductionTiles
  | VectorCommonParallelTiles | VectorReductionTiles | VectorInnerParallelTiles

datatype attribute = TilingLevelAttr "int list" "bool list" | OtherAttr string

type_synonym config_item = "string \<times> attribute"

datatype lowering_config = CpuLoweringConfig "config_item list" | OtherLoweringConfig

datatype pipeline = CPUDoubleTilingExpert | CPUDefault | OtherPipeline string

record compilation_info =
  ci_lowering :: lowering_config
  ci_pipeline :: pipeline

record target_config =
  cfg_cpu_features :: "string option"

record target_attr =
  tgt_backend :: string
  tgt_config :: "target_config option"

text \<open>A function: the target attribute found from it, its compute operations
  (\<open>getComputeOps\<close>) and the compilation info attached to each of them.\<close>

record func_op =
  fn_target :: "target_attr option"
  fn_ops :: "operation list"
  fn_info :: "nat \<Rightarrow> compilation_info option"

text \<open>Outcome of a pass: the function it leaves, a \<open>signalPassFailure()\<close> with its
  diagnostic, or a failed assertion or arithmetic trap.\<close>

datatype 'a pass_result = PassOk 'a | PassFailure string | PassTrap

end
