(* ===== verification/LlvmSupport.thy ===== *)
theory LlvmSupport
  imports MlirTypes
begin

text \<open>
  Code outside the repository that the passes call (LLVM support routines,
  MLIR and IREE queries) is a parameter of the model: three records of
  functions. \<open>llvm_ok\<close>, \<open>mlir_ok\<close> and \<open>iree_ok\<close> state the documented
  behaviour of those functions that the theorems rely on, and \<open>llvm_ref\<close>,
  \<open>mlir_ref\<close> and \<open>iree_ref\<close> are concrete functions with that behaviour.
\<close>

section \<open>LLVM support\<close>

text \<open>\<open>getAsInteger10\<close> is \<open>StringRef::getAsInteger(10, result)\<close>: \<open>None\<close> is its error
  return; \<open>getAsUnsigned10\<close> is the same for an \<open>unsigned\<close> result; \<open>sr_find\<close> is
  \<open>StringRef::find(StringRef)\<close>, \<open>None\<close> for \<open>npos\<close>.\<close>

record llvm_api =
  alignDown :: "int \<Rightarrow> int \<Rightarrow> int"
  divideCeil :: "int \<Rightarrow> int \<Rightarrow> int"
  sr_find :: "string \<Rightarrow> string \<Rightarrow> nat option"
  getAsInteger10 :: "string \<Rightarrow> int option"
  getAsUnsigned10 :: "string \<Rightarrow> nat option"
  sr_starts_with :: "string \<Rightarrow> string \<Rightarrow> bool"

text \<open>The position of the first occurrence of a substring.\<close>

fun find_sub :: "string \<Rightarrow> string \<Rightarrow> nat option" where
  "find_sub [] p = (if p = [] then Some 0 else None)"
| "find_sub (c # s) p =
     (if take (length p) (c # s) = p then Some 0 else map_option Suc (find_sub s p))"

definition digit_val :: "char \<Rightarrow> int" where
  "digit_val c = of_char c - 48"

definition is_digit :: "char \<Rightarrow> bool" where
  "is_digit c \<longleftrightarrow> 0 \<le> digit_val c \<and> digit_val c \<le> 9"

fun dec_value :: "int \<Rightarrow> string \<Rightarrow> int" where
  "dec_value acc [] = acc"
| "dec_value acc (c # cs) = dec_value (10 * acc + digit_val c) cs"

definition llvm_ok :: "llvm_api \<Rightarrow> bool" where
  "llvm_ok L \<longleftrightarrow>
     (\<forall>v a. 0 \<le> v \<longrightarrow> 0 < a \<longrightarrow> alignDown L v a = a * (v div a)) \<and>
     (\<forall>v a. 0 \<le> v \<longrightarrow> 0 < a \<longrightarrow> divideCeil L v a = (v + a - 1) div a) \<and>
     (\<forall>s p. sr_find L s p = find_sub s p) \<and>
     (\<forall>s. s \<noteq> [] \<longrightarrow> list_all is_digit s \<longrightarrow> dec_value 0 s < 2 ^ 63 \<longrightarrow>
        getAsInteger10 L s = Some (dec_value 0 s)) \<and>
     (\<forall>s. (\<exists>c \<in> set s. \<not> is_digit c \<and> c \<noteq> CHR ''-'') \<longrightarrow> getAsInteger10 L s = None) \<and>
     (\<forall>s. s \<noteq> [] \<longrightarrow> list_all is_digit s \<longrightarrow> dec_value 0 s < 2 ^ 32 \<longrightarrow>
        getAsUnsigned10 L s = Some (nat (dec_value 0 s))) \<and>
     (\<forall>s. (\<exists>c \<in> set s. \<not> is_digit c) \<longrightarrow> getAsUnsigned10 L s = None) \<and>
     (\<forall>s p. sr_starts_with L s p \<longleftrightarrow> take (length p) s = p)"

lemma alignDown_law [api_laws]:
  "llvm_ok L \<Longrightarrow> 0 \<le> v \<Longrightarrow> 0 < a \<Longrightarrow> alignDown L v a = a * (v div a)"
  by (simp add: llvm_ok_def)

lemma divideCeil_law [api_laws]:
  "llvm_ok L \<Longrightarrow> 0 \<le> v \<Longrightarrow> 0 < a \<Longrightarrow> divideCeil L v a = (v + a - 1) div a"
  by (simp add: llvm_ok_def)

lemma alignDown_bounds:
  assumes "llvm_ok L" "0 < a" "a \<le> v"
  shows "a \<le> alignDown L v a" "alignDown L v a \<le> v" "a dvd alignDown L v a"
proof -
  have eq: "alignDown L v a = a * (v div a)" using assms by (simp add: alignDown_law)
  have "1 \<le> v div a" using assms zdiv_mono1[of a v a] by simp
  then show "a \<le> alignDown L v a" using eq assms(2) by simp
  show "alignDown L v a \<le> v"
    using eq assms(2) by (metis minus_mod_eq_mult_div pos_mod_sign diff_le_eq le_add_same_cancel1)
  show "a dvd alignDown L v a" using eq by simp
qed

definition parse_dec :: "string \<Rightarrow> int option" where
  "parse_dec s =
     (if s = [] then None
      else if list_all is_digit s then
        (if dec_value 0 s < 2 ^ 63 then Some (dec_value 0 s) else None)
      else if hd s = CHR ''-'' \<and> tl s \<noteq> [] \<and> list_all is_digit (tl s) then
        (if dec_value 0 (tl s) \<le> 2 ^ 63 then Some (- dec_value 0 (tl s)) else None)
      else None)"

text \<open>Reference functions with the documented behaviour.\<close>

definition llvm_ref :: llvm_api where
  "llvm_ref = \<lparr>alignDown = \<lambda>v a. a * (v div a), divideCeil = \<lambda>v a. (v + a - 1) div a,
               sr_find = find_sub, getAsInteger10 = parse_dec,
               getAsUnsigned10 = (\<lambda>s. if s \<noteq> [] \<and> list_all is_digit s \<and> dec_value 0 s < 2 ^ 32
                                      then Some (nat (dec_value 0 s)) else None),
               sr_starts_with = (\<lambda>s p. take (length p) s = p)\<rparr>"

lemma parse_dec_bad: "c \<in> set s \<Longrightarrow> \<not> is_digit c \<Longrightarrow> c \<noteq> CHR ''-'' \<Longrightarrow> parse_dec s = None"
  by (cases s) (auto simp: parse_dec_def list_all_iff)

lemma llvm_ref_ok [simp]: "llvm_ok llvm_ref"
proof -
  have "\<exists>c\<in>set s. \<not> is_digit c \<and> c \<noteq> CHR ''-'' \<Longrightarrow> parse_dec s = None" for s
    using parse_dec_bad by blast
  moreover have "s \<noteq> [] \<Longrightarrow> list_all is_digit s \<Longrightarrow> dec_value 0 s < 2 ^ 63 \<Longrightarrow>
      parse_dec s = Some (dec_value 0 s)" for s
    by (simp add: parse_dec_def)
  ultimately show ?thesis by (auto simp: llvm_ok_def llvm_ref_def list_all_iff)
qed

lemma string_ref_laws [api_laws]:
  assumes "llvm_ok L"
  shows "sr_find L s p = find_sub s p"
    "s \<noteq> [] \<Longrightarrow> list_all is_digit s \<Longrightarrow> dec_value 0 s < 2 ^ 63 \<Longrightarrow>
       getAsInteger10 L s = Some (dec_value 0 s)"
    "c \<in> set s \<Longrightarrow> \<not> is_digit c \<Longrightarrow> c \<noteq> CHR ''-'' \<Longrightarrow> getAsInteger10 L s = None"
    "s \<noteq> [] \<Longrightarrow> list_all is_digit s \<Longrightarrow> dec_value 0 s < 2 ^ 32 \<Longrightarrow>
       getAsUnsigned10 L s = Some (nat (dec_value 0 s))"
    "c \<in> set s \<Longrightarrow> \<not> is_digit c \<Longrightarrow> getAsUnsigned10 L s = None"
    "sr_starts_with L s p \<longleftrightarrow> take (length p) s = p"
  using assms by (auto simp: llvm_ok_def)

lemma find_sub_prefix:
  assumes "find_sub (pre @ p @ post) p = Some (length pre)"
  shows "drop (length pre + length p) (pre @ p @ post) = post"
  by simp

lemma find_sub_char:
  assumes "c \<notin> set xs"
  shows "find_sub (xs @ c # ys) [c] = Some (length xs)"
  using assms by (induction xs) auto

section \<open>MLIR queries\<close>

text \<open>\<open>getRootOperation\<close> returns the position of the root among the compute
  operations: \<open>None\<close> is \<open>failure()\<close>, \<open>Some None\<close> the null operation.\<close>

record mlir_api =
  kDynamic :: int
  getIntOrFloatBitWidth :: "elem_type \<Rightarrow> nat"
  isFunctionOfDim :: "affine_map \<Rightarrow> nat \<Rightarrow> bool"
  getBoundForAffineExpr ::
    "affine_expr \<Rightarrow> nat \<Rightarrow> nat \<Rightarrow> int option list \<Rightarrow> int option list \<Rightarrow> bool \<Rightarrow> int option"
  getRootOperation :: "operation list \<Rightarrow> nat option option"

definition mlir_ok :: "mlir_api \<Rightarrow> bool" where
  "mlir_ok M \<longleftrightarrow>
     kDynamic M < 0 \<and>
     (\<forall>w. getIntOrFloatBitWidth M (IntT w) = w) \<and>
     (\<forall>w. getIntOrFloatBitWidth M (FloatT w) = w) \<and>
     getIntOrFloatBitWidth M BF16T = 16 \<and>
     (\<forall>m d. isFunctionOfDim M m d \<longleftrightarrow> list_ex (uses_dim d) m) \<and>
     (\<forall>d n s lbs ubs up. d < n \<longrightarrow>
        getBoundForAffineExpr M (AffDim d) n s lbs ubs up = (if up then ubs ! d else lbs ! d)) \<and>
     (\<forall>ops i. getRootOperation M ops = Some (Some i) \<longrightarrow> i < length ops)"

lemma mlir_laws [api_laws]:
  assumes "mlir_ok M"
  shows "kDynamic M < 0"
    "getIntOrFloatBitWidth M (IntT w) = w"
    "getIntOrFloatBitWidth M (FloatT w) = w"
    "getIntOrFloatBitWidth M BF16T = 16"
    "isFunctionOfDim M m d \<longleftrightarrow> list_ex (uses_dim d) m"
    "d < n \<Longrightarrow> getBoundForAffineExpr M (AffDim d) n s lbs ubs up = (if up then ubs ! d else lbs ! d)"
    "getRootOperation M ops = Some (Some i) \<Longrightarrow> i < length ops"
  using assms by (simp_all add: mlir_ok_def)

fun bits_ref :: "elem_type \<Rightarrow> nat" where
  "bits_ref (IntT w) = w"
| "bits_ref (FloatT w) = w"
| "bits_ref BF16T = 16"
| "bits_ref _ = 0"

fun bound_ref :: "affine_expr \<Rightarrow> nat \<Rightarrow> int option list \<Rightarrow> int option list \<Rightarrow> bool \<Rightarrow> int option" where
  "bound_ref (AffDim d) n lbs ubs up = (if d < n then (if up then ubs ! d else lbs ! d) else None)"
| "bound_ref (AffConst c) n lbs ubs up = Some c"
| "bound_ref (AffAdd a b) n lbs ubs up =
     (case (bound_ref a n lbs ubs up, bound_ref b n lbs ubs up) of
        (Some x, Some y) \<Rightarrow> Some (x + y) | _ \<Rightarrow> None)"
| "bound_ref (AffMul a (AffConst c)) n lbs ubs up =
     map_option (\<lambda>x. x * c) (bound_ref a n lbs ubs (if 0 \<le> c then up else \<not> up))"
| "bound_ref _ n lbs ubs up = None"

definition mlir_ref :: mlir_api where
  "mlir_ref = \<lparr>kDynamic = - (2 ^ 63), getIntOrFloatBitWidth = bits_ref,
               isFunctionOfDim = \<lambda>m d. list_ex (uses_dim d) m,
               getBoundForAffineExpr = \<lambda>e n s lbs ubs up. bound_ref e n lbs ubs up,
               getRootOperation = \<lambda>ops. if ops = [] then Some None else Some (Some (length ops - 1))\<rparr>"

lemma mlir_ref_ok [simp]: "mlir_ok mlir_ref"
  by (auto simp: mlir_ok_def mlir_ref_def split: if_splits)

section \<open>IREE queries\<close>

text \<open>\<open>dictGet\<close> is \<open>LoweringConfigAttr::get(context, items)\<close> read back as the
  named attributes of its dictionary.\<close>

record iree_api =
  hasFeature :: "target_config option \<Rightarrow> string \<Rightarrow> bool"
  levelName :: "tiling_level \<Rightarrow> string"
  dictGet :: "config_item list \<Rightarrow> config_item list"
  hasTilingLevel :: "config_item list \<Rightarrow> tiling_level \<Rightarrow> bool"
  staticLevelSizes :: "config_item list \<Rightarrow> tiling_level \<Rightarrow> int list"
  getLevelAttr :: "config_item list \<Rightarrow> tiling_level \<Rightarrow> attribute"

fun attr_sizes :: "attribute \<Rightarrow> int list" where
  "attr_sizes (TilingLevelAttr sizes _) = sizes"
| "attr_sizes (OtherAttr _) = []"

definition iree_ok :: "iree_api \<Rightarrow> bool" where
  "iree_ok I \<longleftrightarrow>
     inj (levelName I) \<and>
     (\<forall>items. distinct (map fst items) \<longrightarrow>
        distinct (map fst (dictGet I items)) \<and> map_of (dictGet I items) = map_of items) \<and>
     (\<forall>d l. hasTilingLevel I d l \<longleftrightarrow> map_of d (levelName I l) \<noteq> None) \<and>
     (\<forall>d l a. map_of d (levelName I l) = Some a \<longrightarrow>
        staticLevelSizes I d l = attr_sizes a \<and> getLevelAttr I d l = a)"

lemma iree_laws [api_laws]:
  assumes "iree_ok I"
  shows "levelName I l = levelName I l' \<longleftrightarrow> l = l'"
    "distinct (map fst items) \<Longrightarrow> distinct (map fst (dictGet I items))"
    "distinct (map fst items) \<Longrightarrow> map_of (dictGet I items) = map_of items"
    "hasTilingLevel I d l \<longleftrightarrow> map_of d (levelName I l) \<noteq> None"
    "map_of d (levelName I l) = Some a \<Longrightarrow> staticLevelSizes I d l = attr_sizes a"
    "map_of d (levelName I l) = Some a \<Longrightarrow> getLevelAttr I d l = a"
  using assms by (auto simp: iree_ok_def inj_def)

fun level_name_ref :: "tiling_level \<Rightarrow> string" where
  "level_name_ref DistributionTiles = ''distribution''"
| "level_name_ref CacheParallelTiles = ''cache_parallel''"
| "level_name_ref CacheReductionTiles = ''cache_reduction''"
| "level_name_ref VectorCommonParallelTiles = ''vector_common_parallel''"
| "level_name_ref VectorReductionTiles = ''vector_reduction''"
| "level_name_ref VectorInnerParallelTiles = ''vector_inner_parallel''"

definition level_attr_ref :: "config_item list \<Rightarrow> tiling_level \<Rightarrow> attribute" where
  "level_attr_ref d l =
     (case map_of d (level_name_ref l) of Some a \<Rightarrow> a | None \<Rightarrow> TilingLevelAttr [] [])"

definition iree_ref :: iree_api where
  "iree_ref = \<lparr>hasFeature = \<lambda>c f. (case c of None \<Rightarrow> False
                 | Some c \<Rightarrow> (case cfg_cpu_features c of None \<Rightarrow> False
                    | Some s \<Rightarrow> find_sub s f \<noteq> None)),
               levelName = level_name_ref, dictGet = \<lambda>items. items,
               hasTilingLevel = \<lambda>d l. map_of d (level_name_ref l) \<noteq> None,
               staticLevelSizes = \<lambda>d l. attr_sizes (level_attr_ref d l),
               getLevelAttr = level_attr_ref\<rparr>"

lemma level_name_ref_inj: "inj level_name_ref"
proof (rule injI)
  fix a b assume "level_name_ref a = level_name_ref b"
  then show "a = b" by (cases a; cases b; simp)
qed

lemma iree_ref_ok [simp]: "iree_ok iree_ref"
  by (auto simp: iree_ok_def iree_ref_def level_name_ref_inj level_attr_ref_def)

end
