(* ===== verification/TileClassify.thy ===== *)
theory TileClassify
  imports LlvmSupport
begin

text \<open>
  Loop classification of \<open>CoralNPUTileSizeSelection.cpp\<close> (lines 93-229): the loops
  of the root operation are split into vector, unroll, batch and reduction
  loops; the lemmas show that the split is a partition and say which loops go
  where.
\<close>

section \<open>Model\<close>

definition getTilingLevelAttr :: "int list \<Rightarrow> attribute" where
  "getTilingLevelAttr sizes = TilingLevelAttr sizes (replicate (length sizes) False)"

definition isSupportedMatrixContraction :: "tiling_op \<Rightarrow> bool" where
  "isSupportedMatrixContraction op =
     (case til_class op of MatmulOp \<Rightarrow> True | BatchMatmulOp \<Rightarrow> True
        | Mmt4DOp \<Rightarrow> True | BatchMmt4DOp \<Rightarrow> True | _ \<Rightarrow> False)"

record loop_classification =
  vectorLoops :: "nat list"
  unrollLoops :: "nat list"
  reductionLoops :: "nat list"
  batchLoops :: "nat list"

text \<open>The counting loop of \<open>isDepthwiseConvLike\<close>; \<open>None\<close> is its early \<open>return false\<close>.\<close>

fun count_iters :: "iterator_type list \<Rightarrow> nat \<Rightarrow> nat \<Rightarrow> (nat \<times> nat) option" where
  "count_iters [] p r = Some (p, r)"
| "count_iters (Parallel # ts) p r = count_iters ts (p + 1) r"
| "count_iters (Reduction # ts) p r = count_iters ts p (r + 1)"
| "count_iters (OtherIterator # ts) p r = None"

text \<open>The loop over the results of the filter map: each is the channel or a reduction dimension.\<close>

definition rhs_dims_ok :: "iterator_type list \<Rightarrow> nat \<Rightarrow> affine_map \<Rightarrow> bool" where
  "rhs_dims_ok iters channelDim m =
     list_all (\<lambda>e. case dim_position e of
        None \<Rightarrow> False
      | Some d \<Rightarrow> \<not> (d \<noteq> channelDim \<and> iters ! d \<noteq> Reduction)) m"

definition isDepthwiseConvLike :: "mlir_api \<Rightarrow> linalg_op \<Rightarrow> bool" where
  "isDepthwiseConvLike M op =
    (if length (lin_inputs op) \<noteq> 2 \<or> length (lin_inits op) \<noteq> 1 then False
     else case lin_tiling_iters op of
       None \<Rightarrow> False
     | Some iters \<Rightarrow>
       (case count_iters iters 0 0 of
          None \<Rightarrow> False
        | Some (numParallel, numReduction) \<Rightarrow>
          (if numParallel < 3 \<or> numReduction < 2 then False
           else let lhsMap = opd_map (lin_inputs op ! 0);
                    rhsMap = opd_map (lin_inputs op ! 1);
                    outMap = opd_map (lin_inits op ! 0);
                    channelDim = numParallel - 1
                in if iters ! channelDim \<noteq> Parallel then False
                   else if \<not> isFunctionOfDim M lhsMap channelDim \<or>
                           \<not> isFunctionOfDim M rhsMap channelDim \<or>
                           \<not> isFunctionOfDim M outMap channelDim then False
                   else rhs_dims_ok iters channelDim rhsMap)))"

text \<open>One iteration of the loop of \<open>refineLinalgOpLoops\<close>.\<close>

definition refine_step ::
  "mlir_api \<Rightarrow> affine_map \<Rightarrow> affine_map \<Rightarrow> bool \<Rightarrow> nat \<Rightarrow> loop_classification \<Rightarrow> loop_classification"
where
  "refine_step M lhsMap rhsMap isDepthwiseConv parallelLoop c =
    (let inLHS = isFunctionOfDim M lhsMap parallelLoop;
         inRHS = isFunctionOfDim M rhsMap parallelLoop
     in if inLHS \<and> inRHS then
          (if isDepthwiseConv then c\<lparr>vectorLoops := vectorLoops c @ [parallelLoop]\<rparr>
           else c\<lparr>batchLoops := batchLoops c @ [parallelLoop]\<rparr>)
        else if inLHS then c\<lparr>vectorLoops := vectorLoops c @ [parallelLoop]\<rparr>
        else if inRHS then c\<lparr>unrollLoops := unrollLoops c @ [parallelLoop]\<rparr>
        else c\<lparr>vectorLoops := vectorLoops c @ [parallelLoop]\<rparr>)"

definition refineLinalgOpLoops ::
  "mlir_api \<Rightarrow> linalg_op \<Rightarrow> loop_classification \<Rightarrow> loop_classification" where
  "refineLinalgOpLoops M op c =
    (if length (lin_inputs op) < 2 then c
     else let isDepthwiseConv = isDepthwiseConvLike M op;
              lhsMap = opd_map (lin_inputs op ! 0);
              rhsMap = opd_map (lin_inputs op ! 1);
              parallelLoops = vectorLoops c
          in fold (refine_step M lhsMap rhsMap isDepthwiseConv) parallelLoops
                  (c\<lparr>vectorLoops := []\<rparr>))"

text \<open>The enumerating loop of \<open>classifyLoops\<close>, starting at \<open>index\<close>.\<close>

fun classify_iters ::
  "nat \<Rightarrow> iterator_type list \<Rightarrow> loop_classification \<Rightarrow> loop_classification" where
  "classify_iters index [] c = c"
| "classify_iters index (t # ts) c =
     (if t = Reduction
      then classify_iters (index + 1) ts (c\<lparr>reductionLoops := reductionLoops c @ [index]\<rparr>)
      else classify_iters (index + 1) ts (c\<lparr>vectorLoops := vectorLoops c @ [index]\<rparr>))"

definition no_loops :: loop_classification where
  "no_loops = \<lparr>vectorLoops = [], unrollLoops = [], reductionLoops = [], batchLoops = []\<rparr>"

definition classifyLoops :: "mlir_api \<Rightarrow> tiling_op \<Rightarrow> loop_classification" where
  "classifyLoops M op =
    (let c = classify_iters 0 (til_iters op) no_loops
     in case til_iface op of
          LinalgIface l \<Rightarrow> refineLinalgOpLoops M l c
        | _ \<Rightarrow> c)"

definition getStaticLoopRanges :: "mlir_api \<Rightarrow> tiling_op \<Rightarrow> int list" where
  "getStaticLoopRanges M op =
     map (\<lambda>s. case s of Some v \<Rightarrow> v | None \<Rightarrow> kDynamic M) (til_domain op)"

section \<open>Lemmas\<close>

abbreviation all_loops :: "loop_classification \<Rightarrow> nat list" where
  "all_loops c \<equiv> vectorLoops c @ unrollLoops c @ batchLoops c @ reductionLoops c"

lemma classify_iters_fields:
  "vectorLoops (classify_iters i ts c) =
     vectorLoops c @ map (\<lambda>k. k + i) (filter (\<lambda>k. ts ! k \<noteq> Reduction) [0..<length ts])"
  "reductionLoops (classify_iters i ts c) =
     reductionLoops c @ map (\<lambda>k. k + i) (filter (\<lambda>k. ts ! k = Reduction) [0..<length ts])"
  "unrollLoops (classify_iters i ts c) = unrollLoops c"
  "batchLoops (classify_iters i ts c) = batchLoops c"
proof (induction i ts c rule: classify_iters.induct)
  case (2 i t ts c)
  have upt: "[0..<length (t # ts)] = 0 # map Suc [0..<length ts]"
    by (simp add: map_Suc_upt upt_conv_Cons del: upt_Suc)
  { case 1 show ?case using 2 unfolding upt by (simp add: filter_map comp_def) }
  { case 2 show ?case using "2.IH" unfolding upt by (simp add: filter_map comp_def) }
  { case 3 show ?case using "2.IH" by simp }
  { case 4 show ?case using "2.IH" by simp }
qed simp_all

lemma classify_iters_no_loops [simp]:
  "vectorLoops (classify_iters 0 ts no_loops) = filter (\<lambda>k. ts ! k \<noteq> Reduction) [0..<length ts]"
  "reductionLoops (classify_iters 0 ts no_loops) = filter (\<lambda>k. ts ! k = Reduction) [0..<length ts]"
  "unrollLoops (classify_iters 0 ts no_loops) = []"
  "batchLoops (classify_iters 0 ts no_loops) = []"
  by (simp_all add: classify_iters_fields no_loops_def)

lemma refine_fold_fields:
  fixes M :: mlir_api
  shows "vectorLoops (fold (refine_step M l r dw) ps c) = vectorLoops c @
     filter (\<lambda>p. \<not> (isFunctionOfDim M r p \<and> (isFunctionOfDim M l p \<longrightarrow> \<not> dw))) ps"
  "unrollLoops (fold (refine_step M l r dw) ps c) = unrollLoops c @
     filter (\<lambda>p. isFunctionOfDim M r p \<and> \<not> isFunctionOfDim M l p) ps"
  "batchLoops (fold (refine_step M l r dw) ps c) = batchLoops c @
     filter (\<lambda>p. isFunctionOfDim M l p \<and> isFunctionOfDim M r p \<and> \<not> dw) ps"
  "reductionLoops (fold (refine_step M l r dw) ps c) = reductionLoops c"
  by (induction ps arbitrary: c) (auto simp: refine_step_def Let_def)

lemma refineLinalgOpLoops_fields:
  fixes M :: mlir_api
  assumes "2 \<le> length (lin_inputs op)" "unrollLoops c = []" "batchLoops c = []"
  defines "l \<equiv> opd_map (lin_inputs op ! 0)" and "r \<equiv> opd_map (lin_inputs op ! 1)"
    and "dw \<equiv> isDepthwiseConvLike M op"
  shows "vectorLoops (refineLinalgOpLoops M op c) =
      filter (\<lambda>p. \<not> (isFunctionOfDim M r p \<and> (isFunctionOfDim M l p \<longrightarrow> \<not> dw))) (vectorLoops c)"
    "unrollLoops (refineLinalgOpLoops M op c) =
      filter (\<lambda>p. isFunctionOfDim M r p \<and> \<not> isFunctionOfDim M l p) (vectorLoops c)"
    "batchLoops (refineLinalgOpLoops M op c) =
      filter (\<lambda>p. isFunctionOfDim M l p \<and> isFunctionOfDim M r p \<and> \<not> dw) (vectorLoops c)"
    "reductionLoops (refineLinalgOpLoops M op c) = reductionLoops c"
  using assms by (simp_all add: refineLinalgOpLoops_def Let_def refine_fold_fields)

lemma refineLinalgOpLoops_mset:
  assumes "unrollLoops c = []" "batchLoops c = []"
  shows "mset (all_loops (refineLinalgOpLoops M op c)) = mset (all_loops c)"
proof (cases "length (lin_inputs op) < 2")
  case False
  let ?l = "opd_map (lin_inputs op ! 0)" and ?r = "opd_map (lin_inputs op ! 1)"
  have split: "mset (filter (\<lambda>p. \<not> (R p \<and> (L p \<longrightarrow> \<not> d))) ps) + mset (filter (\<lambda>p. R p \<and> \<not> L p) ps)
      + mset (filter (\<lambda>p. L p \<and> R p \<and> \<not> d) ps) = mset ps"
    for R L d and ps :: "nat list"
    by (induction ps) auto
  show ?thesis
    using False assms split[of "isFunctionOfDim M ?r" "isFunctionOfDim M ?l" "isDepthwiseConvLike M op"
        "vectorLoops c"]
    by (simp add: refineLinalgOpLoops_fields add.assoc)
qed (simp add: refineLinalgOpLoops_def)

lemma classifyLoops_mset: "mset (all_loops (classifyLoops M op)) = mset [0..<length (til_iters op)]"
proof -
  let ?c = "classify_iters 0 (til_iters op) no_loops"
  have base: "mset (all_loops ?c) = mset [0..<length (til_iters op)]"
    using mset_three_way[of "\<lambda>k. til_iters op ! k \<noteq> Reduction" "[0..<length (til_iters op)]"]
    by (simp del: mset_upt)
  have refined: "mset (all_loops (refineLinalgOpLoops M l ?c)) = mset [0..<length (til_iters op)]" for l
    using base by (subst refineLinalgOpLoops_mset) (simp_all del: mset_append mset_upt)
  show ?thesis
    unfolding classifyLoops_def Let_def using base refined
    by (cases "til_iface op") (simp_all only: op_iface.case)
qed

lemma classifyLoops_distinct: "distinct (all_loops (classifyLoops M op))"
  using mset_eq_imp_distinct_iff[OF classifyLoops_mset] distinct_upt by (rule iffD2)

lemma classifyLoops_set: "set (all_loops (classifyLoops M op)) = {i. i < length (til_iters op)}"
proof -
  have "set (all_loops (classifyLoops M op)) = set [0..<length (til_iters op)]"
    by (rule mset_eq_setD[OF classifyLoops_mset])
  then show ?thesis by (simp only: nth_upt_set)
qed

lemma classifyLoops_reduction:
  "reductionLoops (classifyLoops M op) =
     filter (\<lambda>k. til_iters op ! k = Reduction) [0..<length (til_iters op)]"
proof -
  have "reductionLoops (refineLinalgOpLoops M l c) = reductionLoops c" for l c
    by (simp add: refineLinalgOpLoops_def Let_def refine_fold_fields)
  then show ?thesis by (simp add: classifyLoops_def Let_def split: op_iface.splits)
qed

text \<open>The facts every pass uses about a classification over \<open>n\<close> loops.\<close>

definition loops_wf :: "nat \<Rightarrow> loop_classification \<Rightarrow> bool" where
  "loops_wf n c \<longleftrightarrow> distinct (all_loops c) \<and> set (all_loops c) = {i. i < n}"

lemma classifyLoops_wf: "loops_wf (length (til_iters op)) (classifyLoops M op)"
  unfolding loops_wf_def using classifyLoops_distinct classifyLoops_set by blast

lemma loops_wfD:
  assumes "loops_wf n c"
  shows "distinct (vectorLoops c)" "distinct (unrollLoops c)" "distinct (batchLoops c)"
    "distinct (reductionLoops c)"
    "\<And>i. i \<in> set (vectorLoops c) \<Longrightarrow> i < n" "\<And>i. i \<in> set (unrollLoops c) \<Longrightarrow> i < n"
    "\<And>i. i \<in> set (batchLoops c) \<Longrightarrow> i < n" "\<And>i. i \<in> set (reductionLoops c) \<Longrightarrow> i < n"
  using assms unfolding loops_wf_def by auto

lemma loops_wf_disjoint:
  assumes "loops_wf n c"
  shows "i \<in> set (vectorLoops c) \<Longrightarrow> i \<notin> set (unrollLoops c) \<and> i \<notin> set (batchLoops c) \<and> i \<notin> set (reductionLoops c)"
    "i \<in> set (unrollLoops c) \<Longrightarrow> i \<notin> set (vectorLoops c) \<and> i \<notin> set (batchLoops c) \<and> i \<notin> set (reductionLoops c)"
    "i \<in> set (batchLoops c) \<Longrightarrow> i \<notin> set (vectorLoops c) \<and> i \<notin> set (unrollLoops c) \<and> i \<notin> set (reductionLoops c)"
    "i \<in> set (reductionLoops c) \<Longrightarrow> i \<notin> set (vectorLoops c) \<and> i \<notin> set (unrollLoops c) \<and> i \<notin> set (batchLoops c)"
  using assms unfolding loops_wf_def by auto

lemma loops_wf_cases:
  assumes "loops_wf n c" "i < n"
  obtains "i \<in> set (vectorLoops c)" | "i \<in> set (unrollLoops c)"
    | "i \<in> set (batchLoops c)" | "i \<in> set (reductionLoops c)"
  using assms unfolding loops_wf_def by auto

section \<open>Properties\<close>

text \<open>
  C7. Classification is a partition: whatever the operation, every loop index
  occurs in exactly one of the four lists, exactly once, and the reduction
  list holds exactly the loops whose iterator type is reduction.
\<close>

theorem classifyLoops_partition:
  "mset (all_loops (classifyLoops M op)) = mset [0..<length (til_iters op)] \<and>
   set (reductionLoops (classifyLoops M op)) =
     {i. i < length (til_iters op) \<and> til_iters op ! i = Reduction}"
proof (intro conjI)
  show "mset (all_loops (classifyLoops M op)) = mset [0..<length (til_iters op)]"
    by (rule classifyLoops_mset)
  show "set (reductionLoops (classifyLoops M op)) =
     {i. i < length (til_iters op) \<and> til_iters op ! i = Reduction}"
    by (auto simp: classifyLoops_reduction)
qed

text \<open>
  Which loop is which. For a linalg operation with two or more inputs and
  first two indexing maps \<open>lhs\<close> and \<open>rhs\<close>, a parallel loop is an unroll loop
  iff only \<open>rhs\<close> uses it, a batch loop iff both use it and the operation is
  not a depthwise convolution, and a vector loop otherwise.
\<close>

theorem classifyLoops_contraction:
  assumes "mlir_ok M" "til_iface op = LinalgIface l" "2 \<le> length (lin_inputs l)"
  shows "set (unrollLoops (classifyLoops M op)) =
      {i. i < length (til_iters op) \<and> til_iters op ! i \<noteq> Reduction \<and>
          list_ex (uses_dim i) (opd_map (lin_inputs l ! 1)) \<and>
          \<not> list_ex (uses_dim i) (opd_map (lin_inputs l ! 0))} \<and>
    set (batchLoops (classifyLoops M op)) =
      {i. i < length (til_iters op) \<and> til_iters op ! i \<noteq> Reduction \<and>
          list_ex (uses_dim i) (opd_map (lin_inputs l ! 0)) \<and>
          list_ex (uses_dim i) (opd_map (lin_inputs l ! 1)) \<and> \<not> isDepthwiseConvLike M l} \<and>
    set (vectorLoops (classifyLoops M op)) =
      {i. i < length (til_iters op) \<and> til_iters op ! i \<noteq> Reduction \<and>
          \<not> (list_ex (uses_dim i) (opd_map (lin_inputs l ! 1)) \<and>
             (\<not> list_ex (uses_dim i) (opd_map (lin_inputs l ! 0)) \<or> \<not> isDepthwiseConvLike M l))}"
  using assms by (auto simp: classifyLoops_def Let_def refineLinalgOpLoops_fields mlir_laws)

text \<open>A batch matmul \<open>(b, m, n, k)\<close>.\<close>

definition batch_matmul_example :: tiling_op where
  "batch_matmul_example =
    (let l = \<lparr>lin_inputs =
                [\<lparr>opd_value = 0, opd_type = RankedTensorT [2, 8, 16] (FloatT 32),
                  opd_map = [AffDim 0, AffDim 1, AffDim 3]\<rparr>,
                 \<lparr>opd_value = 1, opd_type = RankedTensorT [2, 16, 12] (FloatT 32),
                  opd_map = [AffDim 0, AffDim 3, AffDim 2]\<rparr>],
              lin_inits = [\<lparr>opd_value = 2, opd_type = RankedTensorT [2, 8, 12] (FloatT 32),
                  opd_map = [AffDim 0, AffDim 1, AffDim 2]\<rparr>],
              lin_tiling_iters = Some [Parallel, Parallel, Parallel, Reduction],
              lin_static_ranges = [2, 8, 12, 16]\<rparr>
     in \<lparr>til_class = BatchMatmulOp, til_iface = LinalgIface l,
         til_iters = [Parallel, Parallel, Parallel, Reduction],
         til_domain = [Some 2, Some 8, Some 12, Some 16],
         til_operands = lin_inputs l @ lin_inits l,
         til_results = [RankedTensorT [2, 8, 12] (FloatT 32)]\<rparr>)"

lemma classifyLoops_contraction_witness:
  "0 \<in> set (batchLoops (classifyLoops mlir_ref batch_matmul_example)) \<and>
   1 \<in> set (vectorLoops (classifyLoops mlir_ref batch_matmul_example)) \<and>
   2 \<in> set (unrollLoops (classifyLoops mlir_ref batch_matmul_example))"
proof -
  obtain l where l: "til_iface batch_matmul_example = LinalgIface l"
    by (simp add: batch_matmul_example_def Let_def)
  have i: "2 \<le> length (lin_inputs l)" "\<not> isDepthwiseConvLike mlir_ref l"
    "opd_map (lin_inputs l ! 0) = [AffDim 0, AffDim 1, AffDim 3]"
    "opd_map (lin_inputs l ! 1) = [AffDim 0, AffDim 3, AffDim 2]"
    using l by (auto simp: batch_matmul_example_def Let_def isDepthwiseConvLike_def)
  have t: "til_iters batch_matmul_example = [Parallel, Parallel, Parallel, Reduction]"
    by (simp add: batch_matmul_example_def Let_def)
  show ?thesis
    using classifyLoops_contraction[OF mlir_ref_ok l i(1)] i by (simp add: t)
qed

end
