(* ===== verification/TileRegister.thy ===== *)
theory TileRegister
  imports TileClassify
begin

text \<open>
  Tiling analysis and register-level tile sizes of
  \<open>CoralNPUTileSizeSelection.cpp\<close>: \<open>getVlenFromTargetFeatures\<close> (479-502),
  \<open>resolveAlignments\<close> (512-567), \<open>CoralNPUTilingAnalysis\<close> (588-657),
  \<open>isReverseOp\<close> (659-683) and the register pass (685-830).
\<close>

section \<open>Vector length and alignments\<close>

definition getVlenFromTargetFeatures :: "llvm_api \<Rightarrow> func_op \<Rightarrow> int option" where
  "getVlenFromTargetFeatures L f =
    (case fn_target f of None \<Rightarrow> None
     | Some targetAttr \<Rightarrow>
       (case tgt_config targetAttr of None \<Rightarrow> None
        | Some config \<Rightarrow>
          (case cfg_cpu_features config of None \<Rightarrow> None
           | Some cpuFeatures \<Rightarrow>
             (case sr_find L cpuFeatures ''+zvl'' of None \<Rightarrow> None
              | Some pos \<Rightarrow>
                (let suffix = drop (pos + 4) cpuFeatures
                 in case sr_find L suffix ''b'' of None \<Rightarrow> None
                    | Some endPos \<Rightarrow> getAsInteger10 L (take endPos suffix))))))"

record alignments =
  vectorAlign :: int
  unrollAlign :: int
  reductionAlign :: int

text \<open>The loop over the unroll loops; \<open>None\<close> is the failed \<open>assert(unrollLoopSize > 0)\<close>.\<close>

fun max_full_unroll :: "llvm_api \<Rightarrow> int \<Rightarrow> int list \<Rightarrow> nat list \<Rightarrow> int \<Rightarrow> int option" where
  "max_full_unroll L vectorWidth ranges [] m = Some m"
| "max_full_unroll L vectorWidth ranges (u # us) m =
     (let unrollLoopSize = ranges ! u
      in if \<not> 0 < unrollLoopSize then None
         else max_full_unroll L vectorWidth ranges us (max m (divideCeil L unrollLoopSize vectorWidth)))"

definition resolveAlignments ::
  "llvm_api \<Rightarrow> int \<Rightarrow> int \<Rightarrow> loop_classification \<Rightarrow> int list \<Rightarrow> int \<Rightarrow> alignments \<Rightarrow> alignments option"
where
  "resolveAlignments L vectorWidth numRegisters loops ranges parallelAlignmentOpt al0 =
    (if unrollLoops loops = [] then
       (let al = al0\<lparr>unrollAlign := 0\<rparr>
        in if parallelAlignmentOpt \<noteq> 0 then Some (al\<lparr>vectorAlign := parallelAlignmentOpt\<rparr>)
           else if vectorAlign al \<noteq> 0 then Some al
           else Some (al\<lparr>vectorAlign := vectorWidth\<rparr>))
     else
       (let al = (if vectorAlign al0 = 0 then al0\<lparr>vectorAlign := min vectorWidth 8\<rparr> else al0)
        in if unrollAlign al \<noteq> 0 then Some al
           else (let uLimit = max 1 ((numRegisters - 1) sdiv (1 + vectorAlign al))
                 in case max_full_unroll L vectorWidth ranges (unrollLoops loops) 0 of
                      None \<Rightarrow> None
                    | Some maxFullUnroll \<Rightarrow>
                      (if \<not> 0 < maxFullUnroll then None
                       else let uOpt = min uLimit maxFullUnroll
                            in Some (al\<lparr>unrollAlign := vectorWidth * uOpt\<rparr>)))))"

section \<open>Tiling analysis\<close>

text \<open>\<open>an_root\<close> is the position of the root operation and \<open>an_op\<close> its tiling interface;
  \<open>an_ok\<close> is \<open>status\<close>.\<close>

record tiling_analysis =
  an_root :: nat
  an_op :: "tiling_op option"
  an_classification :: loop_classification
  an_ranges :: "int list"
  an_elemSizeBytes :: int
  an_hasComputeOps :: bool
  an_ok :: bool

definition an_init :: tiling_analysis where
  "an_init = \<lparr>an_root = 0, an_op = None, an_classification = no_loops, an_ranges = [],
              an_elemSizeBytes = 0, an_hasComputeOps = False, an_ok = False\<rparr>"

text \<open>The element size block of the constructor: \<open>None\<close> is one of its early returns.\<close>

definition elem_size_bytes :: "mlir_api \<Rightarrow> tiling_op \<Rightarrow> int option" where
  "elem_size_bytes M op =
    (if til_results op = [] then Some 0
     else case shaped_elem (til_results op ! 0) of
       None \<Rightarrow> Some 0
     | Some elemType \<Rightarrow>
       (if \<not> isIntOrFloat elemType then None
        else let elemBitWidth = getIntOrFloatBitWidth M elemType
             in if elemBitWidth < 8 then (if elemType = IntT 1 then Some 1 else None)
                else Some (int (elemBitWidth div 8))))"

definition tilingAnalysis :: "mlir_api \<Rightarrow> func_op \<Rightarrow> tiling_analysis" where
  "tilingAnalysis M f =
    (if fn_ops f = [] then an_init\<lparr>an_ok := True\<rparr>
     else let a1 = an_init\<lparr>an_hasComputeOps := True\<rparr>
          in case getRootOperation M (fn_ops f) of
               None \<Rightarrow> a1
             | Some None \<Rightarrow> a1
             | Some (Some r) \<Rightarrow>
               (case fn_ops f ! r of
                  None \<Rightarrow> a1
                | Some op \<Rightarrow>
                  (let a2 = a1\<lparr>an_root := r, an_op := Some op\<rparr>
                   in case elem_size_bytes M op of
                        None \<Rightarrow> a2
                      | Some sz \<Rightarrow>
                        (let a3 = a2\<lparr>an_elemSizeBytes := sz, an_ranges := getStaticLoopRanges M op\<rparr>
                         in if kDynamic M \<in> set (an_ranges a3) then a3
                            else a3\<lparr>an_classification := classifyLoops M op, an_ok := True\<rparr>))))"

definition isReverseOp :: "tiling_op \<Rightarrow> bool" where
  "isReverseOp op =
    (case til_class op of
       GenericOp body \<Rightarrow>
         (let hasIndex = list_ex (\<lambda>b. b = IndexOpB) body;
              hasSubi = list_ex (\<lambda>b. case b of SubIOpB d \<Rightarrow> d \<noteq> DefOther | _ \<Rightarrow> False) body
          in hasIndex \<and> hasSubi)
     | _ \<Rightarrow> False)"

section \<open>Register pass\<close>

record register_options =
  numVectorRegisters :: int
  vectorRegisterWidthBits :: int
  vectorAlignment :: int
  unrollAlignment :: int
  reductionAlignment :: int
  parallelAlignment :: int

definition register_defaults :: register_options where
  "register_defaults = \<lparr>numVectorRegisters = 32, vectorRegisterWidthBits = 0, vectorAlignment = 0,
     unrollAlignment = 0, reductionAlignment = 1, parallelAlignment = 0\<rparr>"

text \<open>Lines 749-787: the parallel part of the register tile.\<close>

definition register_parallel_sizes ::
  "loop_classification \<Rightarrow> int list \<Rightarrow> int \<Rightarrow> bool \<Rightarrow> alignments \<Rightarrow> int list" where
  "register_parallel_sizes c ranges vectorWidth hasMatrix al =
    (let zeros = replicate (length ranges) 0
     in if unrollLoops c = [] then
          (let vectorLoopIdxToAlign =
                 (if vectorLoops c \<noteq> [] then Some (last (vectorLoops c)) else None);
               s1 = update_each (vectorLoops c)
                      (\<lambda>i _. if Some i = vectorLoopIdxToAlign then min (ranges ! i) vectorWidth else 1) zeros
           in update_each (batchLoops c) (\<lambda>i _. 1) s1)
        else
          (let s1 = update_each (vectorLoops c) (\<lambda>i _. min (ranges ! i) (vectorAlign al)) zeros;
               s2 = update_each (unrollLoops c)
                      (\<lambda>i _. let v = min (ranges ! i) (unrollAlign al) in if v = 2 then 1 else v) s1;
               batchAlign = (if \<not> hasMatrix then vectorAlign al else 1)
           in update_each (batchLoops c) (\<lambda>i _. min (ranges ! i) batchAlign) s2))"

text \<open>Lines 789-793: the reduction part.\<close>

definition register_reduction_sizes ::
  "loop_classification \<Rightarrow> int list \<Rightarrow> alignments \<Rightarrow> int list" where
  "register_reduction_sizes c ranges al =
     update_each (reductionLoops c) (\<lambda>i _. min (ranges ! i) (reductionAlign al))
       (replicate (length ranges) 0)"

text \<open>Lines 724-742.\<close>

definition register_alignments ::
  "llvm_api \<Rightarrow> register_options \<Rightarrow> bool \<Rightarrow> int \<Rightarrow> tiling_analysis \<Rightarrow> alignments option" where
  "register_alignments L opts hasMatrix vectorWidth an =
    (let al = \<lparr>vectorAlign = vectorAlignment opts, unrollAlign = unrollAlignment opts,
               reductionAlign = reductionAlignment opts\<rparr>
     in if hasMatrix then Some \<lparr>vectorAlign = 4, unrollAlign = 4, reductionAlign = 1\<rparr>
        else resolveAlignments L vectorWidth (numVectorRegisters opts) (an_classification an)
               (an_ranges an) (parallelAlignment opts) al)"

text \<open>\<open>setCompilationInfo\<close> on the root operation.\<close>

definition setCompilationInfo :: "nat \<Rightarrow> compilation_info \<Rightarrow> func_op \<Rightarrow> func_op" where
  "setCompilationInfo r ci f = f\<lparr>fn_info := (fn_info f)(r := Some ci)\<rparr>"

definition register_vlen :: "llvm_api \<Rightarrow> register_options \<Rightarrow> func_op \<Rightarrow> int" where
  "register_vlen L opts f =
    (let vlenBits = vectorRegisterWidthBits opts
     in if vlenBits = 0
        then (case getVlenFromTargetFeatures L f of Some v \<Rightarrow> v | None \<Rightarrow> 128)
        else vlenBits)"

definition has_matrix :: "iree_api \<Rightarrow> target_attr \<Rightarrow> tiling_op \<Rightarrow> bool" where
  "has_matrix I t op \<longleftrightarrow> hasFeature I (tgt_config t) ''+zvtbase'' \<and> isSupportedMatrixContraction op"

text \<open>Lines 796-823.\<close>

definition register_info :: "iree_api \<Rightarrow> tiling_op \<Rightarrow> int list \<Rightarrow> int list \<Rightarrow> compilation_info" where
  "register_info I op vp vr =
    (let configItems =
           [(levelName I VectorCommonParallelTiles, getTilingLevelAttr vp),
            (levelName I VectorReductionTiles, getTilingLevelAttr vr)];
         pipeline = (if isReverseOp op then CPUDefault else CPUDoubleTilingExpert)
     in \<lparr>ci_lowering = CpuLoweringConfig (dictGet I configItems), ci_pipeline = pipeline\<rparr>)"

definition runRegisterPass ::
  "llvm_api \<Rightarrow> mlir_api \<Rightarrow> iree_api \<Rightarrow> register_options \<Rightarrow> func_op \<Rightarrow> func_op pass_result" where
  "runRegisterPass L M I opts f =
    (case fn_target f of
       None \<Rightarrow> PassOk f
     | Some targetAttr \<Rightarrow>
       (if tgt_backend targetAttr \<noteq> ''coralnpu'' then PassOk f
        else let an = tilingAnalysis M f
             in if \<not> an_ok an then PassFailure ''tiling analysis failed''
                else if \<not> an_hasComputeOps an then PassOk f
                else case an_op an of
                  None \<Rightarrow> PassTrap
                | Some op \<Rightarrow>
                  (if an_elemSizeBytes an = 0 then PassTrap
                   else let vectorWidth = (register_vlen L opts f sdiv 8) sdiv an_elemSizeBytes an;
                            hasMatrix = has_matrix I targetAttr op
                        in if \<not> 0 < vectorWidth then PassTrap
                           else case register_alignments L opts hasMatrix vectorWidth an of
                             None \<Rightarrow> PassTrap
                           | Some al \<Rightarrow>
                             (let vp = register_parallel_sizes (an_classification an) (an_ranges an)
                                         vectorWidth hasMatrix al;
                                  vr = register_reduction_sizes (an_classification an) (an_ranges an) al
                              in PassOk (setCompilationInfo (an_root an) (register_info I op vp vr) f)))))"

text \<open>The sizes a compilation info gives a tiling level.\<close>

definition info_sizes :: "iree_api \<Rightarrow> compilation_info \<Rightarrow> tiling_level \<Rightarrow> int list option" where
  "info_sizes I ci l =
    (case ci_lowering ci of
       CpuLoweringConfig d \<Rightarrow> if hasTilingLevel I d l then Some (staticLevelSizes I d l) else None
     | OtherLoweringConfig \<Rightarrow> None)"

section \<open>Lemmas\<close>

lemma max_full_unroll_ok:
  assumes "llvm_ok L" "0 < vw" "\<forall>u \<in> set us. 0 < ranges ! u" "0 \<le> m"
  shows "max_full_unroll L vw ranges us m =
    Some (fold (\<lambda>u acc. max acc ((ranges ! u + vw - 1) div vw)) us m)"
  using assms
proof (induction us arbitrary: m)
  case (Cons u us)
  then show ?case by (simp add: Let_def divideCeil_law)
qed simp

lemma resolveAlignments_unroll:
  assumes "llvm_ok L" "0 < vw" "unrollLoops c \<noteq> []" "\<forall>u \<in> set (unrollLoops c). 0 < ranges ! u"
    "unrollAlign al0 = 0" "0 \<le> vectorAlign al0"
  shows "\<exists>va U. resolveAlignments L vw nr c ranges p al0 =
      Some (al0\<lparr>vectorAlign := va, unrollAlign := vw * U\<rparr>) \<and>
      va = (if vectorAlign al0 = 0 then min vw 8 else vectorAlign al0) \<and> 1 \<le> U \<and>
      (U = 1 \<or> U \<le> (nr - 1) sdiv (1 + va)) \<and>
      (\<exists>u \<in> set (unrollLoops c). U \<le> (ranges ! u + vw - 1) div vw)"
proof -
  define va where "va = (if vectorAlign al0 = 0 then min vw 8 else vectorAlign al0)"
  define g where "g u = (ranges ! u + vw - 1) div vw" for u
  define m where "m = fold (\<lambda>u acc. max acc (g u)) (unrollLoops c) 0"
  have g1: "1 \<le> g u" if "u \<in> set (unrollLoops c)" for u
    using assms(2,4) that zdiv_mono1[of vw "ranges ! u + vw - 1" vw] unfolding g_def by auto
  obtain u0 where u0: "u0 \<in> set (unrollLoops c)" using assms(3) by (cases "unrollLoops c") auto
  have m1: "1 \<le> m"
    using g1[OF u0] fold_max_ge_elem[OF u0, of g 0] unfolding m_def by linarith
  have att: "\<exists>u \<in> set (unrollLoops c). m \<le> g u"
  proof (rule ccontr)
    assume "\<not> ?thesis"
    then have "m \<le> m - 1"
      unfolding m_def by (intro fold_max_upper) (use m1 m_def in \<open>auto simp: not_le\<close>)
    then show False by simp
  qed
  have mfu: "max_full_unroll L vw ranges (unrollLoops c) 0 = Some m"
    using max_full_unroll_ok[OF assms(1,2,4), of 0] by (simp add: m_def g_def)
  define U where "U = min (max 1 ((nr - 1) sdiv (1 + va))) m"
  have res: "resolveAlignments L vw nr c ranges p al0 =
      Some (al0\<lparr>vectorAlign := va, unrollAlign := vw * U\<rparr>)"
    using assms(3,5) mfu m1 by (cases al0) (auto simp: resolveAlignments_def Let_def va_def U_def)
  have "1 \<le> U \<and> (U = 1 \<or> U \<le> (nr - 1) sdiv (1 + va))" using m1 unfolding U_def by auto
  moreover have "\<exists>u \<in> set (unrollLoops c). U \<le> g u"
    using att min.cobounded2[of "max 1 ((nr - 1) sdiv (1 + va))" m] unfolding U_def
    by (meson order_trans)
  ultimately show ?thesis using res unfolding va_def g_def by blast
qed

definition opts_sane :: "register_options \<Rightarrow> bool" where
  "opts_sane opts \<longleftrightarrow> 0 \<le> vectorAlignment opts \<and> 0 \<le> unrollAlignment opts \<and> 1 \<le> reductionAlignment opts"

lemma resolveAlignments_pos:
  assumes "llvm_ok L" "0 < vw" "\<forall>u \<in> set (unrollLoops c). 0 < ranges ! u"
    "0 \<le> vectorAlign al0" "0 \<le> unrollAlign al0"
  shows "\<exists>al. resolveAlignments L vw nr c ranges p al0 = Some al \<and> reductionAlign al = reductionAlign al0 \<and>
    (unrollLoops c \<noteq> [] \<longrightarrow> 1 \<le> vectorAlign al \<and> 1 \<le> unrollAlign al)"
proof (cases "unrollLoops c = []")
  case True
  then show ?thesis by (auto simp: resolveAlignments_def Let_def)
next
  case False
  show ?thesis
  proof (cases "unrollAlign al0 = 0")
    case True
    from resolveAlignments_unroll[OF assms(1,2) False assms(3) True assms(4), of nr p]
    show ?thesis
      using assms(2,4)
      by (auto simp: zero_less_mult_iff int_one_le_iff_zero_less split: if_splits)
  qed (use False assms in \<open>auto simp: resolveAlignments_def Let_def\<close>)
qed

lemma register_alignments_pos:
  assumes "llvm_ok L" "0 < vw" "\<forall>u \<in> set (unrollLoops (an_classification an)). 0 < an_ranges an ! u"
    "opts_sane opts"
  shows "\<exists>al. register_alignments L opts hm vw an = Some al \<and> 1 \<le> reductionAlign al \<and>
    (unrollLoops (an_classification an) \<noteq> [] \<longrightarrow> 1 \<le> vectorAlign al \<and> 1 \<le> unrollAlign al)"
proof (cases hm)
  case False
  let ?al0 = "\<lparr>vectorAlign = vectorAlignment opts, unrollAlign = unrollAlignment opts,
               reductionAlign = reductionAlignment opts\<rparr>"
  from resolveAlignments_pos[OF assms(1-3), of ?al0 "numVectorRegisters opts" "parallelAlignment opts"]
  show ?thesis using False assms(4) by (auto simp: register_alignments_def opts_sane_def)
qed (simp add: register_alignments_def)

lemma length_register_sizes [simp]:
  "length (register_parallel_sizes c ranges vw hm al) = length ranges"
  "length (register_reduction_sizes c ranges al) = length ranges"
  by (simp_all add: register_parallel_sizes_def register_reduction_sizes_def Let_def)

text \<open>What each position of the parallel tile holds.\<close>

lemma register_parallel_nth:
  assumes wf: "loops_wf (length ranges) c"
  shows "i \<in> set (vectorLoops c) \<Longrightarrow> register_parallel_sizes c ranges vw hm al ! i =
      (if unrollLoops c = [] then (if i = last (vectorLoops c) then min (ranges ! i) vw else 1)
       else min (ranges ! i) (vectorAlign al))"
    "i \<in> set (unrollLoops c) \<Longrightarrow> register_parallel_sizes c ranges vw hm al ! i =
      (let v = min (ranges ! i) (unrollAlign al) in if v = 2 then 1 else v)"
    "i \<in> set (batchLoops c) \<Longrightarrow> register_parallel_sizes c ranges vw hm al ! i =
      (if unrollLoops c = [] \<or> hm then min (if unrollLoops c = [] then 1 else ranges ! i) 1
       else min (ranges ! i) (vectorAlign al))"
    "i \<in> set (reductionLoops c) \<Longrightarrow> register_parallel_sizes c ranges vw hm al ! i = 0"
proof -
  note upd = register_parallel_sizes_def Let_def nth_update_each_in nth_update_each_notin
  note D = loops_wfD(1-4)[OF wf]
  { assume i: "i \<in> set (vectorLoops c)"
    with loops_wfD(5)[OF wf i] loops_wf_disjoint(1)[OF wf i]
    show "register_parallel_sizes c ranges vw hm al ! i =
      (if unrollLoops c = [] then (if i = last (vectorLoops c) then min (ranges ! i) vw else 1)
       else min (ranges ! i) (vectorAlign al))"
      by (cases "vectorLoops c = []") (simp_all add: upd D) }
  { assume i: "i \<in> set (unrollLoops c)"
    with loops_wfD(6)[OF wf i] loops_wf_disjoint(2)[OF wf i]
    show "register_parallel_sizes c ranges vw hm al ! i =
      (let v = min (ranges ! i) (unrollAlign al) in if v = 2 then 1 else v)"
      by (cases "unrollLoops c = []") (simp_all add: upd D) }
  { assume i: "i \<in> set (batchLoops c)"
    with loops_wfD(7)[OF wf i] loops_wf_disjoint(3)[OF wf i]
    show "register_parallel_sizes c ranges vw hm al ! i =
      (if unrollLoops c = [] \<or> hm then min (if unrollLoops c = [] then 1 else ranges ! i) 1
       else min (ranges ! i) (vectorAlign al))"
      by (simp add: upd D) }
  { assume i: "i \<in> set (reductionLoops c)"
    with loops_wfD(8)[OF wf i] loops_wf_disjoint(4)[OF wf i]
    show "register_parallel_sizes c ranges vw hm al ! i = 0"
      by (simp add: upd D) }
qed

lemma register_reduction_nth:
  assumes wf: "loops_wf (length ranges) c" and "i < length ranges"
  shows "register_reduction_sizes c ranges al ! i =
    (if i \<in> set (reductionLoops c) then min (ranges ! i) (reductionAlign al) else 0)"
  using assms loops_wfD[OF wf]
  by (simp add: register_reduction_sizes_def nth_update_each)

text \<open>The bounds every register tile satisfies.\<close>

definition tile_bounds :: "loop_classification \<Rightarrow> int list \<Rightarrow> int list \<Rightarrow> int list \<Rightarrow> bool" where
  "tile_bounds c ranges par red \<longleftrightarrow>
     length par = length ranges \<and> length red = length ranges \<and>
     list_all (\<lambda>i. if i \<in> set (reductionLoops c)
                  then par ! i = 0 \<and> 1 \<le> red ! i \<and> red ! i \<le> ranges ! i
                  else red ! i = 0 \<and> 1 \<le> par ! i \<and> par ! i \<le> ranges ! i) [0..<length ranges]"

lemma register_tile_bounds:
  assumes wf: "loops_wf (length ranges) c" and r: "\<forall>x \<in> set ranges. 1 \<le> x" and "0 < vw"
    "1 \<le> reductionAlign al" "unrollLoops c \<noteq> [] \<longrightarrow> 1 \<le> vectorAlign al \<and> 1 \<le> unrollAlign al"
  shows "tile_bounds c ranges (register_parallel_sizes c ranges vw hm al)
           (register_reduction_sizes c ranges al)"
proof -
  have ri: "1 \<le> ranges ! i" if "i < length ranges" for i using r that nth_mem by blast
  have "if i \<in> set (reductionLoops c)
        then register_parallel_sizes c ranges vw hm al ! i = 0 \<and>
          1 \<le> register_reduction_sizes c ranges al ! i \<and> register_reduction_sizes c ranges al ! i \<le> ranges ! i
        else register_reduction_sizes c ranges al ! i = 0 \<and>
          1 \<le> register_parallel_sizes c ranges vw hm al ! i \<and> register_parallel_sizes c ranges vw hm al ! i \<le> ranges ! i"
    if i: "i < length ranges" for i
  proof -
    note nth = register_parallel_nth[OF wf, of i] register_reduction_nth[OF wf i]
    from wf i show ?thesis
    proof (cases rule: loops_wf_cases)
      case 1
      then show ?thesis
        using ri[OF i] assms(3,5) loops_wf_disjoint(1)[OF wf 1] by (auto simp: nth)
    next
      case 2
      then show ?thesis
        using ri[OF i] assms(5) loops_wf_disjoint(2)[OF wf 2] by (auto simp: nth Let_def)
    next
      case 3
      then show ?thesis
        using ri[OF i] assms(5) loops_wf_disjoint(3)[OF wf 3] by (auto simp: nth)
    next
      case 4
      then show ?thesis using ri[OF i] assms(4) by (auto simp: nth)
    qed
  qed
  then show ?thesis by (simp add: tile_bounds_def list_all_iff)
qed

lemma tilingAnalysis_okD:
  assumes "an_ok (tilingAnalysis M f)" "an_op (tilingAnalysis M f) = Some op"
  shows "an_hasComputeOps (tilingAnalysis M f)"
    "an_ranges (tilingAnalysis M f) = getStaticLoopRanges M op"
    "an_classification (tilingAnalysis M f) = classifyLoops M op"
    "elem_size_bytes M op = Some (an_elemSizeBytes (tilingAnalysis M f))"
    "kDynamic M \<notin> set (getStaticLoopRanges M op)"
    "getRootOperation M (fn_ops f) = Some (Some (an_root (tilingAnalysis M f)))"
    "fn_ops f ! an_root (tilingAnalysis M f) = Some op"
  using assms
  by (auto simp: tilingAnalysis_def an_init_def Let_def split: if_splits option.splits)

lemma elem_size_bytes_nonneg: "elem_size_bytes M op = Some sz \<Longrightarrow> 0 \<le> sz"
  by (auto simp: elem_size_bytes_def Let_def split: if_splits option.splits)

lemma length_getStaticLoopRanges [simp]: "length (getStaticLoopRanges M op) = length (til_domain op)"
  by (simp add: getStaticLoopRanges_def)

lemma info_sizes_register:
  assumes "iree_ok I"
  shows "info_sizes I (register_info I op vp vr) VectorCommonParallelTiles = Some vp"
    "info_sizes I (register_info I op vp vr) VectorReductionTiles = Some vr"
  using assms
  by (simp_all add: info_sizes_def register_info_def Let_def iree_laws getTilingLevelAttr_def)

text \<open>A coralnpu function whose analysis succeeded, with a root operation of static,
  non-empty loops; the preconditions of the three passes.\<close>

definition analysed :: "mlir_api \<Rightarrow> func_op \<Rightarrow> target_attr \<Rightarrow> tiling_op \<Rightarrow> bool" where
  "analysed M f t op \<longleftrightarrow>
     fn_target f = Some t \<and> tgt_backend t = ''coralnpu'' \<and>
     an_ok (tilingAnalysis M f) \<and> an_op (tilingAnalysis M f) = Some op \<and>
     length (til_domain op) = length (til_iters op) \<and>
     list_all (\<lambda>r. 1 \<le> r) (getStaticLoopRanges M op)"

lemma analysedD:
  assumes "analysed M f t op"
  shows "fn_target f = Some t" "tgt_backend t = ''coralnpu''"
    "an_ok (tilingAnalysis M f)" "an_op (tilingAnalysis M f) = Some op"
    "an_hasComputeOps (tilingAnalysis M f)"
    "an_ranges (tilingAnalysis M f) = getStaticLoopRanges M op"
    "an_classification (tilingAnalysis M f) = classifyLoops M op"
    "loops_wf (length (getStaticLoopRanges M op)) (classifyLoops M op)"
    "\<forall>x \<in> set (getStaticLoopRanges M op). 1 \<le> x"
    "i < length (til_iters op) \<Longrightarrow> 1 \<le> getStaticLoopRanges M op ! i"
  using assms tilingAnalysis_okD[of M f op] classifyLoops_wf[of op M]
  by (simp_all add: analysed_def list_all_iff)

lemma runRegisterPass_result:
  assumes "llvm_ok L" "iree_ok I" "opts_sane opts" "analysed M f t op"
    and e: "elem_size_bytes M op = Some e" "0 < e"
    and vw: "vw = (register_vlen L opts f sdiv 8) sdiv e" "0 < vw"
  shows "\<exists>al. register_alignments L opts (has_matrix I t op) vw (tilingAnalysis M f) = Some al \<and>
    runRegisterPass L M I opts f = PassOk (setCompilationInfo (an_root (tilingAnalysis M f))
      (register_info I op
        (register_parallel_sizes (classifyLoops M op) (getStaticLoopRanges M op) vw (has_matrix I t op) al)
        (register_reduction_sizes (classifyLoops M op) (getStaticLoopRanges M op) al)) f) \<and>
    tile_bounds (classifyLoops M op) (getStaticLoopRanges M op)
      (register_parallel_sizes (classifyLoops M op) (getStaticLoopRanges M op) vw (has_matrix I t op) al)
      (register_reduction_sizes (classifyLoops M op) (getStaticLoopRanges M op) al)"
proof -
  note A = analysedD[OF assms(4)]
  have esz: "an_elemSizeBytes (tilingAnalysis M f) = e"
    using tilingAnalysis_okD(4)[OF A(3,4)] e(1) by simp
  have "\<forall>u \<in> set (unrollLoops (an_classification (tilingAnalysis M f))).
      0 < an_ranges (tilingAnalysis M f) ! u"
    unfolding A(6,7)
  proof
    fix u assume "u \<in> set (unrollLoops (classifyLoops M op))"
    then have "getStaticLoopRanges M op ! u \<in> set (getStaticLoopRanges M op)"
      by (intro nth_mem loops_wfD(6)[OF A(8)])
    then show "0 < getStaticLoopRanges M op ! u" using A(9) by fastforce
  qed
  from register_alignments_pos[OF assms(1) vw(2) this assms(3), of "has_matrix I t op"]
  obtain al where al: "register_alignments L opts (has_matrix I t op) vw (tilingAnalysis M f) = Some al"
    and pos: "1 \<le> reductionAlign al"
      "unrollLoops (classifyLoops M op) \<noteq> [] \<longrightarrow> 1 \<le> vectorAlign al \<and> 1 \<le> unrollAlign al"
    by (auto simp: A(7))
  have vwe: "register_vlen L opts f sdiv 8 sdiv e = vw" using vw(1) by simp
  show ?thesis
    using al e(2) vw(2) register_tile_bounds[OF A(8,9) vw(2) pos]
    by (simp add: runRegisterPass_def A(1-7) esz vwe Let_def)
qed

section \<open>A concrete function\<close>

text \<open>A coralnpu function holding one \<open>linalg.matmul\<close> of \<open>m x n x k\<close> elements of type \<open>e\<close>;
  the inputs of the witnesses.\<close>

definition matmul_linalg :: "int \<Rightarrow> int \<Rightarrow> int \<Rightarrow> elem_type \<Rightarrow> linalg_op" where
  "matmul_linalg m n k e =
    \<lparr>lin_inputs = [\<lparr>opd_value = 0, opd_type = RankedTensorT [m, k] e, opd_map = [AffDim 0, AffDim 2]\<rparr>,
                   \<lparr>opd_value = 1, opd_type = RankedTensorT [k, n] e, opd_map = [AffDim 2, AffDim 1]\<rparr>],
     lin_inits = [\<lparr>opd_value = 2, opd_type = RankedTensorT [m, n] e, opd_map = [AffDim 0, AffDim 1]\<rparr>],
     lin_tiling_iters = Some [Parallel, Parallel, Reduction],
     lin_static_ranges = [m, n, k]\<rparr>"

definition matmul_op :: "int \<Rightarrow> int \<Rightarrow> int \<Rightarrow> elem_type \<Rightarrow> tiling_op" where
  "matmul_op m n k e =
    \<lparr>til_class = MatmulOp, til_iface = LinalgIface (matmul_linalg m n k e),
     til_iters = [Parallel, Parallel, Reduction], til_domain = [Some m, Some n, Some k],
     til_operands = lin_inputs (matmul_linalg m n k e) @ lin_inits (matmul_linalg m n k e),
     til_results = [RankedTensorT [m, n] e]\<rparr>"

definition matmul_func :: "string \<Rightarrow> int \<Rightarrow> int \<Rightarrow> int \<Rightarrow> elem_type \<Rightarrow> func_op" where
  "matmul_func features m n k e =
    \<lparr>fn_target = Some \<lparr>tgt_backend = ''coralnpu'',
                       tgt_config = Some \<lparr>cfg_cpu_features = Some features\<rparr>\<rparr>,
     fn_ops = [Some (matmul_op m n k e)], fn_info = \<lambda>_. None\<rparr>"

lemmas matmul_defs = matmul_func_def matmul_op_def matmul_linalg_def

section \<open>Properties\<close>

text \<open>
  C36. Register budget. When the unroll alignment is left to the compiler
  (option 0), \<open>resolveAlignments\<close> returns; the unroll alignment is a whole
  number \<open>U \<ge> 1\<close> of vector registers that does not exceed the size of the
  largest unroll loop, rounded up, and whenever more than the minimal
  factor 1 is chosen one LHS register, \<open>U\<close> RHS registers and
  \<open>vectorAlign * U\<close> accumulators fit in the register file.
\<close>

theorem resolveAlignments_budget:
  assumes "llvm_ok L" "0 < vw" "unrollLoops c \<noteq> []" "\<forall>u \<in> set (unrollLoops c). 0 < ranges ! u"
    "unrollAlign al0 = 0" "0 \<le> vectorAlign al0" "1 \<le> nr"
  shows "\<exists>al U. resolveAlignments L vw nr c ranges p al0 = Some al \<and>
    unrollAlign al = vw * U \<and> 1 \<le> U \<and> 1 \<le> vectorAlign al \<and>
    (U = 1 \<or> 1 + U + vectorAlign al * U \<le> nr) \<and>
    (\<exists>u \<in> set (unrollLoops c). U \<le> (ranges ! u + vw - 1) div vw) \<and>
    reductionAlign al = reductionAlign al0"
proof -
  from resolveAlignments_unroll[OF assms(1-6), of nr p]
  obtain va U where r: "resolveAlignments L vw nr c ranges p al0 =
      Some (al0\<lparr>vectorAlign := va, unrollAlign := vw * U\<rparr>)"
    and va: "va = (if vectorAlign al0 = 0 then min vw 8 else vectorAlign al0)"
    and U: "1 \<le> U" "U = 1 \<or> U \<le> (nr - 1) sdiv (1 + va)"
      "\<exists>u \<in> set (unrollLoops c). U \<le> (ranges ! u + vw - 1) div vw"
    by blast
  have va1: "1 \<le> va" using va assms(2,6) by auto
  have "U = 1 \<or> 1 + U + va * U \<le> nr"
  proof (cases "U = 1")
    case False
    with U(2) va1 assms(7) have le: "U \<le> (nr - 1) div (1 + va)" by simp
    have "(1 + va) * U \<le> (1 + va) * ((nr - 1) div (1 + va))"
      using le va1 by (intro mult_left_mono) auto
    also have "\<dots> \<le> nr - 1"
      using minus_mod_eq_mult_div[of "nr - 1" "1 + va"] pos_mod_sign[of "1 + va" "nr - 1"] va1 by linarith
    finally show ?thesis by (simp add: algebra_simps)
  qed simp
  with r va1 U show ?thesis by (intro exI[of _ "al0\<lparr>vectorAlign := va, unrollAlign := vw * U\<rparr>"] exI[of _ U]) simp
qed

lemma resolveAlignments_budget_witness:
  "\<exists>al U. resolveAlignments llvm_ref 4 32 \<lparr>vectorLoops = [0], unrollLoops = [1], reductionLoops = [2],
      batchLoops = []\<rparr> [128, 128, 128] 0 \<lparr>vectorAlign = 0, unrollAlign = 0, reductionAlign = 1\<rparr> = Some al \<and>
    unrollAlign al = 4 * U \<and> 1 \<le> U \<and> (U = 1 \<or> 1 + U + vectorAlign al * U \<le> 32)"
  using resolveAlignments_budget[of llvm_ref 4 "\<lparr>vectorLoops = [0], unrollLoops = [1],
      reductionLoops = [2], batchLoops = []\<rparr>" "[128, 128, 128]"
      "\<lparr>vectorAlign = 0, unrollAlign = 0, reductionAlign = 1\<rparr>" 32 0]
  by auto

text \<open>
  The register pass is total and safe: on a coralnpu function whose root
  operation has static non-empty loops and a vector that holds at least one
  element, it always succeeds, attaches one compilation info to the root
  operation and to nothing else, and the two levels it sets tile every
  parallel loop (and no reduction loop) resp. every reduction loop (and no
  parallel loop) by a size between 1 and the range of the loop.
\<close>

theorem register_pass_tiles:
  assumes "llvm_ok L" "iree_ok I" "opts_sane opts" "analysed M f t op"
    "elem_size_bytes M op = Some e" "0 < e" "8 * e \<le> register_vlen L opts f"
  shows "\<exists>ci vp vr. runRegisterPass L M I opts f =
      PassOk (setCompilationInfo (an_root (tilingAnalysis M f)) ci f) \<and>
    info_sizes I ci VectorCommonParallelTiles = Some vp \<and>
    info_sizes I ci VectorReductionTiles = Some vr \<and>
    tile_bounds (classifyLoops M op) (getStaticLoopRanges M op) vp vr"
proof -
  have "e \<le> register_vlen L opts f div 8" using assms(7) by simp
  then have "1 \<le> (register_vlen L opts f div 8) div e"
    using zdiv_mono1[of e "register_vlen L opts f div 8" e] assms(6) by simp
  then have "0 < (register_vlen L opts f sdiv 8) sdiv e" using assms(6,7) by simp
  from runRegisterPass_result[OF assms(1-6) refl this] show ?thesis
    using info_sizes_register[OF assms(2)] by blast
qed

lemma register_pass_tiles_witness:
  "\<exists>ci vp vr. runRegisterPass llvm_ref mlir_ref iree_ref register_defaults
      (matmul_func ''+v,+zvl128b'' 128 128 128 (IntT 32)) =
      PassOk (setCompilationInfo 0 ci (matmul_func ''+v,+zvl128b'' 128 128 128 (IntT 32))) \<and>
    info_sizes iree_ref ci VectorCommonParallelTiles = Some vp \<and>
    info_sizes iree_ref ci VectorReductionTiles = Some vr"
proof -
  let ?f = "matmul_func ''+v,+zvl128b'' 128 128 128 (IntT 32)"
  let ?op = "matmul_op 128 128 128 (IntT 32)"
  have "analysed mlir_ref ?f \<lparr>tgt_backend = ''coralnpu'',
      tgt_config = Some \<lparr>cfg_cpu_features = Some ''+v,+zvl128b''\<rparr>\<rparr> ?op"
    by code_simp
  moreover have "elem_size_bytes mlir_ref ?op = Some 4" by code_simp
  moreover have "8 * 4 \<le> register_vlen llvm_ref register_defaults ?f" by code_simp
  moreover have "opts_sane register_defaults" by code_simp
  moreover have "an_root (tilingAnalysis mlir_ref ?f) = 0" by code_simp
  ultimately show ?thesis
    using register_pass_tiles[of llvm_ref iree_ref register_defaults mlir_ref ?f _ ?op 4] by fastforce
qed

text \<open>
  Matrix tile. With \<open>+zvtbase\<close> and a supported contraction that has an
  unroll loop, the register tile is the shape of the matrix unit: at most 4
  rows, at most 4 columns (a range of 2 columns is tiled by 1), batch loops
  by 1 and every reduction loop by 1, whatever the options say.
\<close>

theorem register_pass_matrix_tile:
  assumes "llvm_ok L" "iree_ok I" "opts_sane opts" "analysed M f t op" "has_matrix I t op"
    "unrollLoops (classifyLoops M op) \<noteq> []"
    "elem_size_bytes M op = Some e" "0 < e" "8 * e \<le> register_vlen L opts f"
  shows "\<exists>ci vp vr. runRegisterPass L M I opts f =
      PassOk (setCompilationInfo (an_root (tilingAnalysis M f)) ci f) \<and>
    info_sizes I ci VectorCommonParallelTiles = Some vp \<and>
    info_sizes I ci VectorReductionTiles = Some vr \<and>
    (\<forall>i \<in> set (vectorLoops (classifyLoops M op)). vp ! i = min (getStaticLoopRanges M op ! i) 4) \<and>
    (\<forall>i \<in> set (unrollLoops (classifyLoops M op)). vp ! i =
       (if getStaticLoopRanges M op ! i = 2 then 1 else min (getStaticLoopRanges M op ! i) 4)) \<and>
    (\<forall>i \<in> set (batchLoops (classifyLoops M op)). vp ! i = 1) \<and>
    (\<forall>i \<in> set (reductionLoops (classifyLoops M op)). vr ! i = 1)"
proof -
  note A = analysedD[OF assms(4)]
  let ?c = "classifyLoops M op" and ?r = "getStaticLoopRanges M op"
  let ?al = "\<lparr>vectorAlign = 4, unrollAlign = 4, reductionAlign = 1\<rparr>"
  have "e \<le> register_vlen L opts f div 8" using assms(9) by simp
  then have "1 \<le> (register_vlen L opts f div 8) div e"
    using zdiv_mono1[of e "register_vlen L opts f div 8" e] assms(8) by simp
  then have pos: "0 < (register_vlen L opts f sdiv 8) sdiv e" using assms(8,9) by simp
  let ?vw = "(register_vlen L opts f sdiv 8) sdiv e"
  have al: "register_alignments L opts True vw an = Some ?al" for vw an
    by (simp add: register_alignments_def)
  have res: "runRegisterPass L M I opts f = PassOk (setCompilationInfo (an_root (tilingAnalysis M f))
      (register_info I op (register_parallel_sizes ?c ?r ?vw True ?al)
        (register_reduction_sizes ?c ?r ?al)) f)"
    using runRegisterPass_result[OF assms(1-4,7,8) refl pos] assms(5) al by auto
  have r1: "1 \<le> ?r ! i" if "i < length ?r" for i
    using A(9) nth_mem[OF that] by auto
  note nth = register_parallel_nth[OF A(8)] register_reduction_nth[OF A(8)]
  have "\<forall>i \<in> set (vectorLoops ?c). register_parallel_sizes ?c ?r ?vw True ?al ! i = min (?r ! i) 4"
    using assms(6) by (simp add: nth)
  moreover have "\<forall>i \<in> set (unrollLoops ?c). register_parallel_sizes ?c ?r ?vw True ?al ! i =
      (if ?r ! i = 2 then 1 else min (?r ! i) 4)"
    by (auto simp: nth Let_def min_def)
  moreover have "\<forall>i \<in> set (batchLoops ?c). register_parallel_sizes ?c ?r ?vw True ?al ! i = 1"
    using assms(6) r1 loops_wfD(7)[OF A(8)] by (simp add: nth)
  moreover have "\<forall>i \<in> set (reductionLoops ?c). register_reduction_sizes ?c ?r ?al ! i = 1"
    using r1 loops_wfD(8)[OF A(8)] by (simp add: nth)
  ultimately show ?thesis using res info_sizes_register[OF assms(2)] by blast
qed

lemma register_pass_matrix_tile_witness:
  "\<exists>ci vp vr. runRegisterPass llvm_ref mlir_ref iree_ref register_defaults
      (matmul_func ''+zvl128b,+zvtbase'' 128 2 128 (FloatT 32)) =
      PassOk (setCompilationInfo 0 ci (matmul_func ''+zvl128b,+zvtbase'' 128 2 128 (FloatT 32))) \<and>
    info_sizes iree_ref ci VectorCommonParallelTiles = Some vp \<and>
    info_sizes iree_ref ci VectorReductionTiles = Some vr \<and> vp ! 0 = 4 \<and> vp ! 1 = 1 \<and> vr ! 2 = 1"
proof -
  let ?f = "matmul_func ''+zvl128b,+zvtbase'' 128 2 128 (FloatT 32)"
  let ?op = "matmul_op 128 2 128 (FloatT 32)"
  let ?t = "\<lparr>tgt_backend = ''coralnpu'', tgt_config = Some \<lparr>cfg_cpu_features = Some ''+zvl128b,+zvtbase''\<rparr>\<rparr>"
  have "analysed mlir_ref ?f ?t ?op" by code_simp
  moreover have "has_matrix iree_ref ?t ?op" by code_simp
  moreover have "elem_size_bytes mlir_ref ?op = Some 4" by code_simp
  moreover have "8 * 4 \<le> register_vlen llvm_ref register_defaults ?f" by code_simp
  moreover have "opts_sane register_defaults" by code_simp
  moreover have "an_root (tilingAnalysis mlir_ref ?f) = 0" by code_simp
  moreover have "classifyLoops mlir_ref ?op = \<lparr>vectorLoops = [0], unrollLoops = [1],
      reductionLoops = [2], batchLoops = []\<rparr>" by code_simp
  moreover have "getStaticLoopRanges mlir_ref ?op = [128, 2, 128]" by code_simp
  ultimately show ?thesis
    using register_pass_matrix_tile[of llvm_ref iree_ref register_defaults mlir_ref ?f ?t ?op 4] by fastforce
qed

text \<open>
  The option \<open>parallel-alignment\<close> is dead: whatever its value, the
  register pass gives the same result on every function. (Its only use,
  in \<open>resolveAlignments\<close>, sets an alignment that the branch for operations
  without unroll loops never reads.)
\<close>

theorem parallelAlignment_ignored:
  "runRegisterPass L M I (opts\<lparr>parallelAlignment := p\<rparr>) f = runRegisterPass L M I opts f"
proof -
  let ?o = "opts\<lparr>parallelAlignment := p\<rparr>"
  have vlen: "register_vlen L ?o f = register_vlen L opts f" by (simp add: register_vlen_def)
  have key: "(case register_alignments L ?o hm vw an of None \<Rightarrow> PassTrap
      | Some al \<Rightarrow> PassOk (setCompilationInfo r (register_info I op
                     (register_parallel_sizes (an_classification an) (an_ranges an) vw hm al)
                     (register_reduction_sizes (an_classification an) (an_ranges an) al)) f)) =
    (case register_alignments L opts hm vw an of None \<Rightarrow> PassTrap
      | Some al \<Rightarrow> PassOk (setCompilationInfo r (register_info I op
                     (register_parallel_sizes (an_classification an) (an_ranges an) vw hm al)
                     (register_reduction_sizes (an_classification an) (an_ranges an) al)) f))"
    for hm vw an r op
    by (simp add: register_alignments_def resolveAlignments_def register_parallel_sizes_def
        register_reduction_sizes_def Let_def)
  show ?thesis unfolding runRegisterPass_def vlen Let_def key ..
qed

text \<open>
  Vector length detection. If the first \<open>+zvl\<close> of the CPU features is
  followed by the decimal digits \<open>ds\<close> and a \<open>b\<close>, the vector length is the
  number they denote (a later, larger \<open>+zvl\<close> is not looked at).
\<close>

theorem getVlen_first_zvl:
  assumes "llvm_ok L" "fn_target f = Some t" "tgt_config t = Some c"
    "cfg_cpu_features c = Some (pre @ ''+zvl'' @ ds @ ''b'' @ post)"
    "find_sub (pre @ ''+zvl'' @ ds @ ''b'' @ post) ''+zvl'' = Some (length pre)"
    "ds \<noteq> []" "list_all is_digit ds" "dec_value 0 ds < 2 ^ 63"
  shows "getVlenFromTargetFeatures L f = Some (dec_value 0 ds)"
proof -
  have "\<not> is_digit (CHR ''b'')" by code_simp
  with assms(7) have "CHR ''b'' \<notin> set ds" by (auto simp: list_all_iff)
  then have e: "find_sub (ds @ CHR ''b'' # post) ''b'' = Some (length ds)"
    by (rule find_sub_char)
  show ?thesis
    using assms e by (simp add: getVlenFromTargetFeatures_def Let_def string_ref_laws)
qed

lemma getVlen_first_zvl_witness:
  "getVlenFromTargetFeatures llvm_ref (matmul_func ''+m,+zvl128b,+zvl256b'' 4 4 4 (IntT 8)) = Some 128"
proof -
  have "find_sub (''+m,'' @ ''+zvl'' @ ''128'' @ ''b'' @ '',+zvl256b'') ''+zvl'' = Some (length ''+m,'')"
    by code_simp
  moreover have "list_all is_digit ''128''" "dec_value 0 ''128'' = 128" by code_simp+
  ultimately show ?thesis
    using getVlen_first_zvl[of llvm_ref "matmul_func ''+m,+zvl128b,+zvl256b'' 4 4 4 (IntT 8)" _ _
        "''+m,''" "''128''" "'',+zvl256b''"]
    by (simp add: matmul_func_def)
qed

end
