(* ===== verification/TileFootprint.thy ===== *)
theory TileFootprint
  imports TileRegister
begin

text \<open>
  Memory footprint of a tile, \<open>CoralNPUTileSizeSelection.cpp\<close> 246-476: one
  estimate per kind of operation, summed over the operands. The lemmas relate
  the estimates to the elements a tile really reads. Warnings are not modelled.
\<close>

section \<open>Model\<close>

text \<open>Lines 262-283: the tile sizes with 0 replaced by the loop range, and the loop bounds.\<close>

definition resolveTileSizes :: "int list \<Rightarrow> int list \<Rightarrow> int list" where
  "resolveTileSizes tileSizes staticLoopRanges =
     map (\<lambda>i. if tileSizes ! i = 0 then staticLoopRanges ! i else tileSizes ! i) [0..<length tileSizes]"

definition tileUpperBounds :: "int list \<Rightarrow> int option list" where
  "tileUpperBounds resolved = map (\<lambda>size. if size \<le> 0 then None else Some (size - 1)) resolved"

text \<open>One iteration of the loop over the results of the indexing map: the factor of dimension \<open>i\<close>.\<close>

definition linalg_dim_elems :: "mlir_api \<Rightarrow> int list \<Rightarrow> int list \<Rightarrow> affine_map \<Rightarrow> nat \<Rightarrow> int" where
  "linalg_dim_elems M resolved shape m i =
    (let expr = m ! i;
         lowerBounds = replicate (length resolved) (Some 0);
         upperBounds = tileUpperBounds resolved;
         lb = getBoundForAffineExpr M expr (length resolved) 0 lowerBounds upperBounds False;
         ub = getBoundForAffineExpr M expr (length resolved) 0 lowerBounds upperBounds True
     in case (lb, ub) of
          (Some l, Some u) \<Rightarrow> u - l + 1
        | _ \<Rightarrow> shape ! i)"

definition estimateLinalgOperandFootprint ::
  "mlir_api \<Rightarrow> linalg_op \<Rightarrow> operand \<Rightarrow> int list \<Rightarrow> int" where
  "estimateLinalgOperandFootprint M op operand tileSizes =
    (case opd_type operand of
       RankedTensorT shape elementType \<Rightarrow>
         (let elementBytes = int (getIntOrFloatBitWidth M elementType div 8);
              m = opd_map operand;
              resolved = resolveTileSizes tileSizes (lin_static_ranges op);
              numElements = prod_list (map (linalg_dim_elems M resolved shape m) [0..<length m])
          in numElements * elementBytes)
     | _ \<Rightarrow> 0)"

text \<open>The inner tile of a dimension: 1 unless the dimension is tiled by a constant.\<close>

definition innerTileSize :: "pack_op \<Rightarrow> nat \<Rightarrow> int" where
  "innerTileSize p dim =
    (case index_of dim (pk_inner_dims_pos p) of
       None \<Rightarrow> 1
     | Some k \<Rightarrow> (case pk_mixed_tiles p ! k of Some c \<Rightarrow> c | None \<Rightarrow> 1))"

definition outerDim :: "pack_op \<Rightarrow> nat \<Rightarrow> nat" where
  "outerDim p l = (if pk_outer_dims_perm p = [] then l else pk_outer_dims_perm p ! l)"

definition estimatePackOperandFootprint ::
  "mlir_api \<Rightarrow> pack_op \<Rightarrow> operand \<Rightarrow> int list \<Rightarrow> int" where
  "estimatePackOperandFootprint M p operand tileSizes =
    (case opd_type operand of
       RankedTensorT shape elementType \<Rightarrow>
         (let elementBytes = int (getIntOrFloatBitWidth M elementType div 8);
              rank = length shape;
              numLoops = length tileSizes;
              numElements =
                (if opd_value operand = pk_source p then
                   prod_list (map (\<lambda>l. let inputDim = outerDim p l; tileSize = tileSizes ! l
                     in if tileSize = 0 then shape ! inputDim
                        else min (shape ! inputDim) (tileSize * innerTileSize p inputDim)) [0..<numLoops])
                 else if opd_value operand = pk_dest p then
                   prod_list (map (\<lambda>l. let tileSize = tileSizes ! l
                     in if tileSize = 0 then shape ! l else min (shape ! l) tileSize) [0..<numLoops])
                   * prod_list (map (\<lambda>d. shape ! d) [numLoops..<rank])
                 else prod_list shape)
          in numElements * elementBytes)
     | _ \<Rightarrow> 0)"

definition estimateUnpackOperandFootprint ::
  "mlir_api \<Rightarrow> pack_op \<Rightarrow> operand \<Rightarrow> int list \<Rightarrow> int" where
  "estimateUnpackOperandFootprint M p operand tileSizes =
    (case opd_type operand of
       RankedTensorT shape elementType \<Rightarrow>
         (let elementBytes = int (getIntOrFloatBitWidth M elementType div 8);
              rank = length shape;
              numLoops = length tileSizes;
              numElements =
                (if opd_value operand = pk_dest p then
                   prod_list (map (\<lambda>i. let tileSize = tileSizes ! i
                     in if tileSize = 0 then shape ! i else min (shape ! i) tileSize) [0..<rank])
                 else if opd_value operand = pk_source p then
                   prod_list (map (\<lambda>l. let srcDim = outerDim p l; tileSize = tileSizes ! l
                     in if tileSize = 0 then shape ! srcDim
                        else let it = innerTileSize p srcDim;
                                 neededTiles = (tileSize + it - 1) sdiv it
                             in min (shape ! srcDim) neededTiles) [0..<numLoops])
                   * prod_list (map (\<lambda>d. shape ! d) [numLoops..<rank])
                 else prod_list shape)
          in numElements * elementBytes)
     | _ \<Rightarrow> 0)"

text \<open>Lines 446-465: operations that are neither linalg, pack nor unpack. \<open>ShapedType::isDynamic(d)\<close>
  is \<open>d = kDynamic\<close>.\<close>

definition estimatePlainOperandFootprint :: "mlir_api \<Rightarrow> operand \<Rightarrow> int list \<Rightarrow> int" where
  "estimatePlainOperandFootprint M operand tileSizes =
    (case opd_type operand of
       RankedTensorT shape elementType \<Rightarrow>
         (let numElements =
                (if length shape = length tileSizes then
                   prod_list (map (\<lambda>i. let dimSize = shape ! i; tileSize = tileSizes ! i
                     in if tileSize = 0 \<or> dimSize = kDynamic M
                        then (if dimSize = kDynamic M then 1 else dimSize)
                        else min dimSize tileSize) [0..<length shape])
                 else prod_list (map (\<lambda>d. if d = kDynamic M then 1 else d) shape))
          in numElements * int (getIntOrFloatBitWidth M elementType div 8))
     | _ \<Rightarrow> 0)"

definition estimateOperandFootprint ::
  "mlir_api \<Rightarrow> tiling_op \<Rightarrow> operand \<Rightarrow> int list \<Rightarrow> int" where
  "estimateOperandFootprint M op operand tileSizes =
    (case til_iface op of
       LinalgIface l \<Rightarrow> estimateLinalgOperandFootprint M l operand tileSizes
     | PackIface p \<Rightarrow> estimatePackOperandFootprint M p operand tileSizes
     | UnPackIface p \<Rightarrow> estimateUnpackOperandFootprint M p operand tileSizes
     | PlainIface \<Rightarrow> estimatePlainOperandFootprint M operand tileSizes)"

definition estimateFootprint :: "mlir_api \<Rightarrow> tiling_op \<Rightarrow> int list \<Rightarrow> int" where
  "estimateFootprint M op tileSizes =
     fold (\<lambda>operand totalBytes. totalBytes + estimateOperandFootprint M op operand tileSizes)
       (til_operands op) 0"

section \<open>Lemmas\<close>

lemma estimateFootprint_sum:
  "estimateFootprint M op ts =
     sum_list (map (\<lambda>operand. estimateOperandFootprint M op operand ts) (til_operands op))"
proof -
  have "fold (\<lambda>x acc. acc + g x) xs m = m + sum_list (map g xs)"
    for g :: "operand \<Rightarrow> int" and xs m
    by (induction xs arbitrary: m) simp_all
  then show ?thesis by (simp add: estimateFootprint_def)
qed

lemma length_resolveTileSizes [simp]: "length (resolveTileSizes ts rs) = length ts"
  by (simp add: resolveTileSizes_def)

lemma nth_resolveTileSizes:
  "i < length ts \<Longrightarrow> resolveTileSizes ts rs ! i = (if ts ! i = 0 then rs ! i else ts ! i)"
  by (simp add: resolveTileSizes_def)

lemma linalg_dim_elems_AffDim:
  assumes "mlir_ok M" "m ! i = AffDim d" "d < length resolved" "1 \<le> resolved ! d"
  shows "linalg_dim_elems M resolved shape m i = resolved ! d"
  using assms by (simp add: linalg_dim_elems_def Let_def mlir_laws tileUpperBounds_def)

text \<open>Operations whose indexing maps are projections on loop dimensions (matmul,
  elementwise, transposes, reductions).\<close>

definition projection_maps :: "nat \<Rightarrow> linalg_op \<Rightarrow> tiling_op \<Rightarrow> bool" where
  "projection_maps n l op \<longleftrightarrow>
     til_iface op = LinalgIface l \<and>
     list_all (\<lambda>x. list_all (\<lambda>e. case dim_position e of None \<Rightarrow> False | Some d \<Rightarrow> d < n) (opd_map x))
       (til_operands op)"

fun dim_of :: "affine_expr \<Rightarrow> nat" where
  "dim_of (AffDim d) = d"
| "dim_of _ = 0"

lemma dim_position_SomeD: "dim_position e = Some d \<Longrightarrow> e = AffDim d"
  by (cases e) auto

text \<open>The bytes of the sub-tensor an operand contributes to a tile.\<close>

definition tile_bytes :: "mlir_api \<Rightarrow> int list \<Rightarrow> operand \<Rightarrow> int" where
  "tile_bytes M resolved operand =
    (case opd_type operand of
       RankedTensorT shape e \<Rightarrow>
         prod_list (map (\<lambda>x. resolved ! dim_of x) (opd_map operand)) * int (getIntOrFloatBitWidth M e div 8)
     | _ \<Rightarrow> 0)"

lemma linalg_footprint_projection:
  assumes "mlir_ok M" "projection_maps (length ts) l op" "operand \<in> set (til_operands op)"
    and pos: "\<forall>d < length ts. 1 \<le> resolveTileSizes ts (lin_static_ranges l) ! d"
  shows "estimateOperandFootprint M op operand ts =
    tile_bytes M (resolveTileSizes ts (lin_static_ranges l)) operand"
proof (cases "opd_type operand")
  case (RankedTensorT shape e)
  let ?r = "resolveTileSizes ts (lin_static_ranges l)" and ?m = "opd_map operand"
  have dims: "\<exists>d < length ts. x = AffDim d" if "x \<in> set ?m" for x
    using assms(2,3) that unfolding projection_maps_def list_all_iff
    by (fastforce split: option.splits dest: dim_position_SomeD)
  have "map (linalg_dim_elems M ?r shape ?m) [0..<length ?m] = map (\<lambda>x. ?r ! dim_of x) ?m"
  proof (rule nth_equalityI)
    fix i assume "i < length (map (linalg_dim_elems M ?r shape ?m) [0..<length ?m])"
    then have i: "i < length ?m" by simp
    then obtain d where d: "d < length ts" "?m ! i = AffDim d" using dims nth_mem by blast
    show "map (linalg_dim_elems M ?r shape ?m) [0..<length ?m] ! i = map (\<lambda>x. ?r ! dim_of x) ?m ! i"
      using i d linalg_dim_elems_AffDim[OF assms(1) d(2), of ?r shape] pos by simp
  qed simp
  then show ?thesis
    using assms(2) RankedTensorT
    by (simp add: estimateOperandFootprint_def estimateLinalgOperandFootprint_def projection_maps_def
        tile_bytes_def Let_def)
qed (use assms(2) in \<open>simp_all add: estimateOperandFootprint_def estimateLinalgOperandFootprint_def
        projection_maps_def tile_bytes_def\<close>)

text \<open>Evaluation of affine expressions: what \<open>getBoundForAffineExpr\<close> bounds.\<close>

fun eval_aff :: "affine_expr \<Rightarrow> int list \<Rightarrow> (nat \<Rightarrow> int) \<Rightarrow> int" where
  "eval_aff (AffDim d) pt sy = pt ! d"
| "eval_aff (AffSym s) pt sy = sy s"
| "eval_aff (AffConst c) pt sy = c"
| "eval_aff (AffAdd a b) pt sy = eval_aff a pt sy + eval_aff b pt sy"
| "eval_aff (AffMul a b) pt sy = eval_aff a pt sy * eval_aff b pt sy"
| "eval_aff (AffMod a b) pt sy = eval_aff a pt sy mod eval_aff b pt sy"
| "eval_aff (AffFloorDiv a b) pt sy = eval_aff a pt sy div eval_aff b pt sy"
| "eval_aff (AffCeilDiv a b) pt sy = - ((- eval_aff a pt sy) div eval_aff b pt sy)"

text \<open>The points of a tile with resolved sizes \<open>sizes\<close>, counted from its origin.\<close>

definition in_tile :: "int list \<Rightarrow> int list \<Rightarrow> bool" where
  "in_tile sizes pt \<longleftrightarrow>
     length pt = length sizes \<and> list_all (\<lambda>i. 0 \<le> pt ! i \<and> pt ! i < sizes ! i) [0..<length sizes]"

text \<open>Documented behaviour of \<open>getBoundForAffineExpr\<close>: a bound it returns holds for the
  value of the expression at every point between the given bounds.\<close>

definition bounds_ok :: "mlir_api \<Rightarrow> bool" where
  "bounds_ok M \<longleftrightarrow>
     (\<forall>e sizes pt up b. in_tile sizes pt \<longrightarrow>
        getBoundForAffineExpr M e (length sizes) 0 (replicate (length sizes) (Some 0))
          (tileUpperBounds sizes) up = Some b \<longrightarrow>
        (if up then eval_aff e pt (\<lambda>_. 0) \<le> b else b \<le> eval_aff e pt (\<lambda>_. 0)))"

lemma in_tileD: "in_tile sizes pt \<Longrightarrow> i < length sizes \<Longrightarrow> 0 \<le> pt ! i \<and> pt ! i < sizes ! i"
  by (simp add: in_tile_def list_all_iff)

lemma bound_ref_sound:
  assumes "in_tile sizes pt"
  shows "bound_ref e (length sizes) (replicate (length sizes) (Some 0)) (tileUpperBounds sizes) up = Some b \<Longrightarrow>
    (if up then eval_aff e pt s \<le> b else b \<le> eval_aff e pt s)"
proof (induction e "length sizes" "replicate (length sizes) (Some (0::int))" "tileUpperBounds sizes" up
    arbitrary: b rule: bound_ref.induct)
  case (1 d up)
  then show ?case
    using in_tileD[OF assms, of d] by (auto simp: tileUpperBounds_def split: if_splits)
next
  case (3 e1 e2 up)
  then show ?case by (auto split: option.splits if_splits)
next
  case (4 a c up)
  then show ?case by (auto split: if_splits intro: mult_right_mono mult_right_mono_neg)
qed auto

lemma mlir_ref_bounds_ok [simp]: "bounds_ok mlir_ref"
  unfolding bounds_ok_def using bound_ref_sound by (auto simp: mlir_ref_def)

lemma finite_card_listset:
  assumes "\<And>A. A \<in> set As \<Longrightarrow> finite A"
  shows "finite (listset As) \<and> card (listset As) = prod_list (map card As)"
  using assms
proof (induction As)
  case (Cons A As)
  have eq: "set_Cons A (listset As) = (\<lambda>(x, xs). x # xs) ` (A \<times> listset As)"
    by (auto simp: set_Cons_def)
  have inj: "inj_on (\<lambda>(x, xs). x # xs) (A \<times> listset As)" by (auto simp: inj_on_def)
  show ?case
    using Cons by (simp add: eq card_image[OF inj] card_cartesian_product)
qed simp

lemma in_listset:
  "xs \<in> listset As \<longleftrightarrow> length xs = length As \<and> (\<forall>i < length As. xs ! i \<in> As ! i)"
proof (induction As arbitrary: xs)
  case (Cons A As)
  show ?case
  proof (cases xs)
    case (Cons y ys)
    then show ?thesis
      using Cons.IH[of ys] by (auto simp: set_Cons_def nth_Cons' less_Suc_eq_0_disj)
  qed (auto simp: set_Cons_def)
qed simp

text \<open>The elements of an operand that the iterations of one tile access.\<close>

definition accessed :: "int list \<Rightarrow> affine_map \<Rightarrow> int list set" where
  "accessed sizes m = (\<lambda>pt. map (\<lambda>e. eval_aff e pt (\<lambda>_. 0)) m) ` {pt. in_tile sizes pt}"

text \<open>Every result of the map has static bounds over the tile.\<close>

definition static_bounds :: "mlir_api \<Rightarrow> int list \<Rightarrow> affine_map \<Rightarrow> bool" where
  "static_bounds M sizes m \<longleftrightarrow>
     list_all (\<lambda>e. list_all (\<lambda>up. getBoundForAffineExpr M e (length sizes) 0
        (replicate (length sizes) (Some 0)) (tileUpperBounds sizes) up \<noteq> None) [False, True]) m"

lemma accessed_card:
  assumes "bounds_ok M" "static_bounds M sizes m" "\<forall>x \<in> set sizes. 1 \<le> x"
  shows "int (card (accessed sizes m)) \<le> prod_list (map (linalg_dim_elems M sizes shape m) [0..<length m])"
proof -
  let ?bd = "\<lambda>e up. the (getBoundForAffineExpr M e (length sizes) 0
        (replicate (length sizes) (Some 0)) (tileUpperBounds sizes) up)"
  define As where "As = map (\<lambda>e. {?bd e False .. ?bd e True}) m"
  have bd: "getBoundForAffineExpr M e (length sizes) 0 (replicate (length sizes) (Some 0))
      (tileUpperBounds sizes) up = Some (?bd e up)" if "e \<in> set m" for e up
    using assms(2) that unfolding static_bounds_def list_all_iff by (cases up) auto
  have between: "?bd e False \<le> eval_aff e pt (\<lambda>_. 0) \<and> eval_aff e pt (\<lambda>_. 0) \<le> ?bd e True"
    if "e \<in> set m" "in_tile sizes pt" for e pt
    using assms(1) bd[OF that(1), of False] bd[OF that(1), of True] that(2)
    unfolding bounds_ok_def by fastforce
  have sub: "accessed sizes m \<subseteq> listset As"
    using between by (auto simp: accessed_def As_def in_listset)
  have origin: "in_tile sizes (replicate (length sizes) 0)"
    using assms(3) by (auto simp: in_tile_def list_all_iff dest!: bspec nth_mem)
  have fin: "\<And>A. A \<in> set As \<Longrightarrow> finite A" by (auto simp: As_def)
  have "card (accessed sizes m) \<le> prod_list (map card As)"
    using card_mono[OF _ sub] finite_card_listset[OF fin] by auto
  moreover have "int (prod_list (map card As)) = prod_list (map (int \<circ> card) As)"
    by (induction As) simp_all
  moreover have "map (int \<circ> card) As = map (linalg_dim_elems M sizes shape m) [0..<length m]"
  proof (rule nth_equalityI)
    fix i assume "i < length (map (int \<circ> card) As)"
    then have i: "i < length m" by (simp add: As_def)
    let ?l = "?bd (m ! i) False" and ?u = "?bd (m ! i) True"
    have le: "?l \<le> ?u"
      using between[OF nth_mem[OF i] origin] by linarith
    have "linalg_dim_elems M sizes shape m i = ?u - ?l + 1"
      unfolding linalg_dim_elems_def Let_def
      by (subst bd[OF nth_mem[OF i], of False], subst bd[OF nth_mem[OF i], of True]) (simp only: prod.case option.case)
    then show "map (int \<circ> card) As ! i = map (linalg_dim_elems M sizes shape m) [0..<length m] ! i"
      using i le by (simp add: As_def)
  qed (simp add: As_def)
  ultimately show ?thesis by (metis of_nat_mono)
qed

lemma prod_list_replicate_one_mono:
  assumes "\<And>x. x \<in> set xs \<Longrightarrow> 0 \<le> f x \<and> f x \<le> (g x :: int)"
  shows "prod_list (map f xs) \<le> prod_list (map g xs)"
  by (rule prod_list_mono_int) (use assms in auto)

lemma tile_bytes_mono:
  assumes "\<forall>d < n. 0 \<le> r ! d \<and> r ! d \<le> r' ! d" "\<forall>x \<in> set (opd_map operand). dim_of x < n"
  shows "tile_bytes M r operand \<le> tile_bytes M r' operand"
  using assms
  by (auto simp: tile_bytes_def split: mlir_type.splits
      intro!: mult_right_mono prod_list_replicate_one_mono)

lemma linalg_footprint_tile_bytes:
  assumes "mlir_ok M" "projection_maps (length ts) l op"
    "\<forall>d < length ts. 1 \<le> resolveTileSizes ts (lin_static_ranges l) ! d"
  shows "estimateFootprint M op ts =
    sum_list (map (tile_bytes M (resolveTileSizes ts (lin_static_ranges l))) (til_operands op))"
proof -
  have "map (\<lambda>operand. estimateOperandFootprint M op operand ts) (til_operands op) =
    map (tile_bytes M (resolveTileSizes ts (lin_static_ranges l))) (til_operands op)"
    using linalg_footprint_projection[OF assms(1,2) _ assms(3)] by simp
  then show ?thesis by (simp only: estimateFootprint_sum)
qed

section \<open>Properties\<close>

text \<open>
  For an operation whose indexing maps are projections the estimate is
  exact: it is the sum, over the operands, of the bytes of the sub-tensor
  spanned by the tile (0 meaning the whole loop).
\<close>

theorem linalg_footprint_exact:
  assumes "mlir_ok M" "projection_maps (length ts) l op"
    "\<forall>d < length ts. 1 \<le> resolveTileSizes ts (lin_static_ranges l) ! d"
  shows "estimateFootprint M op ts =
    sum_list (map (tile_bytes M (resolveTileSizes ts (lin_static_ranges l))) (til_operands op))"
  using assms by (rule linalg_footprint_tile_bytes)

lemma linalg_footprint_exact_witness:
  "estimateFootprint mlir_ref (matmul_op 1024 1024 1024 (IntT 32)) [4, 24, 32] = 3968"
proof -
  have "projection_maps 3 (matmul_linalg 1024 1024 1024 (IntT 32)) (matmul_op 1024 1024 1024 (IntT 32))"
    by (simp add: projection_maps_def matmul_op_def matmul_linalg_def)
  moreover have r: "resolveTileSizes [4, 24, 32] (lin_static_ranges (matmul_linalg 1024 1024 1024 (IntT 32)))
      = [4, 24, 32]"
    by code_simp
  moreover have "\<forall>d < length [4, 24, 32 :: int]. 1 \<le> [4, 24, 32 :: int] ! d"
    by (auto simp: less_Suc_eq numeral_3_eq_3)
  moreover have "sum_list (map (tile_bytes mlir_ref [4, 24, 32])
      (til_operands (matmul_op 1024 1024 1024 (IntT 32)))) = 3968"
    by code_simp
  ultimately show ?thesis
    using linalg_footprint_exact[of mlir_ref "[4, 24, 32]" "matmul_linalg 1024 1024 1024 (IntT 32)"
        "matmul_op 1024 1024 1024 (IntT 32)"] by (simp add: numeral_3_eq_3)
qed

definition accessed_bytes :: "mlir_api \<Rightarrow> int list \<Rightarrow> operand \<Rightarrow> int" where
  "accessed_bytes M sizes operand =
    (case opd_type operand of
       RankedTensorT shape e \<Rightarrow>
         int (card (accessed sizes (opd_map operand))) * int (getIntOrFloatBitWidth M e div 8)
     | _ \<Rightarrow> 0)"


text \<open>A one-dimensional convolution with dilation 2: the input is read at \<open>d0 + 2 * d1\<close>.\<close>

definition conv_example :: tiling_op where
  "conv_example =
    (let i = \<lparr>opd_value = 0, opd_type = RankedTensorT [20] (IntT 8),
              opd_map = [AffAdd (AffDim 0) (AffMul (AffDim 1) (AffConst 2))]\<rparr>;
         k = \<lparr>opd_value = 1, opd_type = RankedTensorT [3] (IntT 8), opd_map = [AffDim 1]\<rparr>;
         out = \<lparr>opd_value = 2, opd_type = RankedTensorT [16] (IntT 8), opd_map = [AffDim 0]\<rparr>
     in \<lparr>til_class = GenericOp [OtherBodyOp],
         til_iface = LinalgIface \<lparr>lin_inputs = [i, k], lin_inits = [out],
            lin_tiling_iters = Some [Parallel, Reduction], lin_static_ranges = [16, 3]\<rparr>,
         til_iters = [Parallel, Reduction], til_domain = [Some 16, Some 3],
         til_operands = [i, k, out], til_results = [RankedTensorT [16] (IntT 8)]\<rparr>)"


text \<open>
  Sub-byte operands cost nothing: an operand whose elements have fewer
  than 8 bits (an \<open>i1\<close> mask) is estimated at 0 bytes whatever the
  operation and the tile, although the analysis counts \<open>i1\<close> as one byte.
\<close>

theorem subbyte_operand_free:
  assumes "mlir_ok M" "opd_type operand = RankedTensorT shape (IntT w)" "w < 8"
  shows "estimateOperandFootprint M op operand ts = 0"
proof -
  have "getIntOrFloatBitWidth M (IntT w) div 8 = 0" using assms(1,3) by (simp add: mlir_laws)
  then show ?thesis
    using assms(2)
    by (simp add: estimateOperandFootprint_def estimateLinalgOperandFootprint_def Let_def
        estimatePackOperandFootprint_def estimateUnpackOperandFootprint_def
        estimatePlainOperandFootprint_def split: op_iface.split)
qed

lemma subbyte_operand_free_witness:
  "estimateOperandFootprint mlir_ref conv_example
     \<lparr>opd_value = 0, opd_type = RankedTensorT [4096] (IntT 1), opd_map = [AffDim 0]\<rparr> [16, 3] = 0 \<and>
   elem_size_bytes mlir_ref (conv_example\<lparr>til_results := [RankedTensorT [4096] (IntT 1)]\<rparr>) = Some 1"
proof
  show "estimateOperandFootprint mlir_ref conv_example
     \<lparr>opd_value = 0, opd_type = RankedTensorT [4096] (IntT 1), opd_map = [AffDim 0]\<rparr> [16, 3] = 0"
    by (rule subbyte_operand_free[OF mlir_ref_ok, where w = 1 and shape = "[4096]"]) simp_all
qed code_simp

text \<open>
  The elements of the source that a tile of an unpack reads: outer dimension
  \<open>l\<close> of the source holds destination dimension \<open>outerDim p l\<close>.
\<close>

definition unpack_source_elems :: "pack_op \<Rightarrow> int list \<Rightarrow> int list \<Rightarrow> int" where
  "unpack_source_elems p shape ts =
     prod_list (map (\<lambda>l. let d = outerDim p l
       in min (shape ! l) ((ts ! d + innerTileSize p d - 1) div innerTileSize p d)) [0..<length ts])
     * prod_list (map (\<lambda>d. shape ! d) [length ts..<length shape])"

text \<open>
  Without \<open>outer_dims_perm\<close> the unpack estimate of the source is the
  number of bytes of the inner tiles that a tile-aligned destination tile
  reads.
\<close>

theorem unpack_footprint_identity:
  assumes "pk_outer_dims_perm p = []" "opd_value operand = pk_source p" "pk_source p \<noteq> pk_dest p"
    "opd_type operand = RankedTensorT shape e" "\<forall>t \<in> set ts. 1 \<le> t"
    "\<forall>d < length ts. 1 \<le> innerTileSize p d"
  shows "estimateUnpackOperandFootprint M p operand ts =
    unpack_source_elems p shape ts * int (getIntOrFloatBitWidth M e div 8)"
proof -
  have "map (\<lambda>l. let srcDim = outerDim p l; tileSize = ts ! l
          in if tileSize = 0 then shape ! srcDim
             else let it = innerTileSize p srcDim; neededTiles = (tileSize + it - 1) sdiv it
                  in min (shape ! srcDim) neededTiles) [0..<length ts] =
        map (\<lambda>l. let d = outerDim p l
          in min (shape ! l) ((ts ! d + innerTileSize p d - 1) div innerTileSize p d)) [0..<length ts]"
  proof (rule map_cong[OF refl])
    fix l assume "l \<in> set [0..<length ts]"
    then have l: "l < length ts" by simp
    have "1 \<le> ts ! l" "1 \<le> innerTileSize p l" using assms(5,6) l by auto
    then have "(ts ! l + innerTileSize p l - 1) sdiv innerTileSize p l =
        (ts ! l + innerTileSize p l - 1) div innerTileSize p l" "ts ! l \<noteq> 0"
      by (auto intro!: sdiv_nonneg)
    moreover have "outerDim p l = l" by (simp add: outerDim_def assms(1))
    ultimately show "(let srcDim = outerDim p l; tileSize = ts ! l
          in if tileSize = 0 then shape ! srcDim
             else let it = innerTileSize p srcDim; neededTiles = (tileSize + it - 1) sdiv it
                  in min (shape ! srcDim) neededTiles) =
        (let d = outerDim p l
          in min (shape ! l) ((ts ! d + innerTileSize p d - 1) div innerTileSize p d))"
      by (simp only: Let_def if_False)
  qed
  with assms(2-4) show ?thesis
    unfolding estimateUnpackOperandFootprint_def unpack_source_elems_def
    by (simp only: Let_def mlir_type.case if_False if_True refl)
qed

definition unpack_example :: "nat list \<Rightarrow> pack_op" where
  "unpack_example perm = \<lparr>pk_source = 0, pk_dest = 1, pk_outer_dims_perm = perm,
     pk_inner_dims_pos = [0], pk_mixed_tiles = [Some 8]\<rparr>"

definition unpack_source :: operand where
  "unpack_source = \<lparr>opd_value = 0, opd_type = RankedTensorT [4, 8, 8] (IntT 8), opd_map = []\<rparr>"

lemma unpack_footprint_identity_witness:
  "estimateUnpackOperandFootprint mlir_ref (unpack_example []) unpack_source [16, 4] =
     unpack_source_elems (unpack_example []) [4, 8, 8] [16, 4] * 1"
proof -
  have "\<forall>d < length [16, 4 :: int]. 1 \<le> innerTileSize (unpack_example []) d"
    by (simp add: innerTileSize_def unpack_example_def)
  then show ?thesis
    using unpack_footprint_identity[of "unpack_example []" unpack_source "[4, 8, 8]" "IntT 8" "[16, 4]" mlir_ref]
    by (simp add: unpack_example_def unpack_source_def mlir_ref_def)
qed

text \<open>
  With a permutation the unpack estimate can be too small: the code
  indexes the inner tile and the source shape by \<open>perm[l]\<close> although loop \<open>l\<close> is
  a destination dimension. Here a \<open>1 x 4\<close> tile reads 32 bytes of the
  source and is estimated at 8.
\<close>

theorem unpack_perm_underestimate:
  "estimateUnpackOperandFootprint mlir_ref (unpack_example [1, 0]) unpack_source [1, 4] = 8 \<and>
   unpack_source_elems (unpack_example [1, 0]) [4, 8, 8] [1, 4] = 32"
  by code_simp

end
