(* ===== verification/ConfigItems.thy ===== *)
theory ConfigItems
  imports TileRegister
begin

text \<open>
  The named attributes of a lowering configuration and their update
  (\<open>updateConfigItem\<close> of the DTCM pass and the loop of the workgroup pass in
  \<open>CoralNPUTileSizeSelection.cpp\<close>), behind an interface of lookup and update
  that the passes use.
\<close>

section \<open>Model\<close>

text \<open>Lines 1033-1042: overwrite the first item of that name, or append one.\<close>

fun updateConfigItem :: "string \<Rightarrow> attribute \<Rightarrow> config_item list \<Rightarrow> config_item list" where
  "updateConfigItem name attr [] = [(name, attr)]"
| "updateConfigItem name attr ((n, a) # items) =
     (if n = name then (n, attr) # items else (n, a) # updateConfigItem name attr items)"

lemma map_of_updateConfigItem:
  "map_of (updateConfigItem k v items) k' = (if k' = k then Some v else map_of items k')"
  by (induction k v items rule: updateConfigItem.induct) auto

lemma keys_updateConfigItem:
  "set (map fst (updateConfigItem k v items)) = insert k (set (map fst items))"
  by (induction k v items rule: updateConfigItem.induct) auto

lemma distinct_updateConfigItem:
  "distinct (map fst items) \<Longrightarrow> distinct (map fst (updateConfigItem k v items))"
proof (induction k v items rule: updateConfigItem.induct)
  case (2 name attr n a items)
  then show ?case using keys_updateConfigItem[of name attr items] by auto
qed simp

interpretation config: named_store map_of updateConfigItem "\<lambda>items. distinct (map fst items)"
  by unfold_locales (simp_all add: map_of_updateConfigItem distinct_updateConfigItem)

text \<open>A CPU lowering configuration of a compilation info, and one whose dictionary is well formed.\<close>

definition cpu_items :: "compilation_info \<Rightarrow> config_item list option" where
  "cpu_items ci = (case ci_lowering ci of CpuLoweringConfig d \<Rightarrow> Some d | OtherLoweringConfig \<Rightarrow> None)"

lemma info_sizes_cpu:
  assumes "iree_ok I" "ci_lowering ci = CpuLoweringConfig d" "map_of d (levelName I l) = Some a"
  shows "info_sizes I ci l = Some (attr_sizes a)"
  using assms by (simp add: info_sizes_def iree_laws)

lemma info_sizes_None:
  assumes "iree_ok I" "ci_lowering ci = CpuLoweringConfig d"
  shows "info_sizes I ci l = map_option attr_sizes (map_of d (levelName I l))"
  using assms by (cases "map_of d (levelName I l)") (simp_all add: info_sizes_def iree_laws)

section \<open>Property\<close>

text \<open>
  Updating an item of a configuration gives that item the new value,
  leaves every other item as it was and keeps item names unique, so that the
  last pass to set a tiling level decides it.
\<close>

theorem updateConfigItem_store:
  assumes "distinct (map fst items)"
  shows "map_of (updateConfigItem k v items) k' = (if k' = k then Some v else map_of items k') \<and>
    distinct (map fst (updateConfigItem k v items)) \<and>
    length (updateConfigItem k v items) = length items + (if k \<in> set (map fst items) then 0 else 1)"
proof -
  have "length (updateConfigItem k v items) = length items + (if k \<in> set (map fst items) then 0 else 1)"
    by (induction k v items rule: updateConfigItem.induct) auto
  with config.lookup_update[OF assms] config.inv_update[OF assms] show ?thesis by simp
qed

lemma updateConfigItem_store_witness:
  "map_of (updateConfigItem ''distribution'' (OtherAttr ''x'') [(''a'', OtherAttr ''y'')]) ''a'' =
     Some (OtherAttr ''y'')"
  using updateConfigItem_store[of "[(''a'', OtherAttr ''y'')]" "''distribution''" "OtherAttr ''x''" "''a''"]
  by simp

end
