(* ===== verification/DoubleCompare.thy ===== *)
theory DoubleCompare
  imports Prelude "HOL-Library.Log_Nat"
begin

text \<open>
  The comparison \<open>static_cast<double>(footprint) * 1.2 > limit\<close> of the DTCM pass
  (\<open>CoralNPUTileSizeSelection.cpp\<close> 950-955) in IEEE 754 binary64 arithmetic,
  rounding to nearest, ties to even. Numbers are integers scaled by powers of
  two; rounding keeps 53 significant bits. The main lemma shows that the
  comparison decides \<open>6 * footprint > 5 * limit\<close> for every 31-bit limit.
\<close>

definition nbits :: "int \<Rightarrow> nat" where
  "nbits z = floorlog 2 (nat z)"

definition half_even :: "nat \<Rightarrow> int \<Rightarrow> int" where
  "half_even k z =
    (let q = z div 2 ^ k; r = z mod 2 ^ k; h = 2 ^ (k - 1)
     in if r < h \<or> (r = h \<and> even q) then q else q + 1)"

text \<open>Rounding of a non-negative integer to 53 significant bits, and of any integer.\<close>

definition round53 :: "int \<Rightarrow> int" where
  "round53 z = (if nbits z \<le> 53 then z else let k = nbits z - 53 in half_even k z * 2 ^ k)"

definition to_double :: "int \<Rightarrow> int" where
  "to_double z = (if z < 0 then - round53 (- z) else round53 z)"

text \<open>The double nearest to 1.2 is \<open>5404319552844595 / 2 ^ 52\<close>.\<close>

definition safetyMultiplier :: int where
  "safetyMultiplier = 5404319552844595"

definition exceeds :: "int \<Rightarrow> int \<Rightarrow> bool" where
  "exceeds footprint limit \<longleftrightarrow>
     to_double (to_double footprint * safetyMultiplier) > to_double limit * 2 ^ 52"

lemma to_double_nonneg [simp]: "0 \<le> z \<Longrightarrow> to_double z = round53 z"
  by (simp add: to_double_def)

lemma nbits_bounds:
  assumes "0 < z"
  shows "2 ^ (nbits z - 1) \<le> z" "z < 2 ^ nbits z" "0 < nbits z"
proof -
  have p: "0 < nat z" using assms by simp
  have b: "2 ^ (floorlog 2 (nat z) - 1) \<le> nat z" "nat z < 2 ^ floorlog 2 (nat z)"
    using floorlog_bounds[OF p, of 2] by simp_all
  show "2 ^ (nbits z - 1) \<le> z"
    using b(1) assms unfolding nbits_def by (simp add: le_nat_iff)
  show "z < 2 ^ nbits z"
    using b(2) assms unfolding nbits_def by (simp add: nat_less_iff)
  show "0 < nbits z" using p unfolding nbits_def by (simp add: floorlog_def)
qed

lemma nbits_zero [simp]: "nbits 0 = 0"
  by (simp add: nbits_def floorlog_def)

lemma nbits_leI:
  assumes "0 \<le> z" "z < 2 ^ k"
  shows "nbits z \<le> k"
proof (cases "z = 0")
  case False
  then have z: "0 < z" using assms by simp
  have "(2 :: int) ^ (nbits z - 1) < 2 ^ k" using nbits_bounds(1)[OF z] assms(2) by linarith
  then have "nbits z - 1 < k" by simp
  then show ?thesis by simp
qed simp

lemma nbits_mono: "0 \<le> a \<Longrightarrow> a \<le> b \<Longrightarrow> nbits a \<le> nbits b"
  using nbits_bounds(2)[of b] by (cases "b = 0") (auto intro: nbits_leI)

lemma half_even_mono:
  assumes "a \<le> b"
  shows "half_even k a \<le> half_even k b"
proof -
  have q: "a div 2 ^ k \<le> b div 2 ^ k" using assms by (simp add: zdiv_mono1)
  show ?thesis
  proof (cases "a div 2 ^ k = b div 2 ^ k")
    case True
    have "a mod 2 ^ k \<le> b mod 2 ^ k"
      using assms True by (metis add_le_cancel_left mult_div_mod_eq)
    then show ?thesis using True by (auto simp: half_even_def Let_def)
  qed (use q in \<open>auto simp: half_even_def Let_def\<close>)
qed

lemma div_less_of_less_mult:
  assumes "(z :: int) < a * b" "0 < b"
  shows "z div b < a"
proof -
  have "z div b * b \<le> z"
    using minus_mod_eq_div_mult[of z b] pos_mod_sign[OF assms(2), of z] by linarith
  then have "z div b * b < a * b" using assms(1) by linarith
  then show ?thesis using assms(2) by simp
qed

lemma div_ge_of_mult_le: "(a :: int) * b \<le> z \<Longrightarrow> 0 < b \<Longrightarrow> a \<le> z div b"
  using zdiv_mono1[of "a * b" z b] by simp

lemma round53_upper:
  assumes "0 < z"
  shows "round53 z \<le> 2 ^ nbits z"
proof (cases "nbits z \<le> 53")
  case False
  define k where "k = nbits z - 53"
  have n: "nbits z = 53 + k" using False by (simp add: k_def)
  have "z < 2 ^ 53 * 2 ^ k" using nbits_bounds(2)[OF assms] unfolding n by (simp add: power_add)
  then have "z div 2 ^ k < 2 ^ 53" by (rule div_less_of_less_mult) simp
  then have "half_even k z \<le> 2 ^ 53" by (auto simp: half_even_def Let_def)
  then have "half_even k z * 2 ^ k \<le> 2 ^ 53 * 2 ^ k" by (intro mult_right_mono) auto
  then show ?thesis using False by (simp add: round53_def n power_add)
qed (use nbits_bounds(2)[OF assms] in \<open>simp add: round53_def\<close>)

lemma round53_lower:
  assumes "0 < z"
  shows "2 ^ (nbits z - 1) \<le> round53 z"
proof (cases "nbits z \<le> 53")
  case False
  define k where "k = nbits z - 53"
  have n: "nbits z = 53 + k" using False by (simp add: k_def)
  have "2 ^ 52 * 2 ^ k \<le> z" using nbits_bounds(1)[OF assms] unfolding n
    by (simp add: power_add)
  then have "2 ^ 52 \<le> z div 2 ^ k" by (rule div_ge_of_mult_le) simp
  then have "2 ^ 52 \<le> half_even k z" by (auto simp: half_even_def Let_def)
  then have "2 ^ 52 * 2 ^ k \<le> half_even k z * 2 ^ k" by (intro mult_right_mono) auto
  moreover have "(2 :: int) ^ (nbits z - 1) = 2 ^ 52 * 2 ^ k"
    unfolding n by (simp add: power_add)
  ultimately show ?thesis using False by (simp add: round53_def k_def[symmetric] Let_def)
qed (use nbits_bounds(1)[OF assms] in \<open>simp add: round53_def\<close>)

lemma round53_mono:
  assumes "0 \<le> a" "a \<le> b"
  shows "round53 a \<le> round53 b"
proof (cases "nbits a = nbits b")
  case True
  then show ?thesis
    using assms(2) half_even_mono[OF assms(2)] by (simp add: round53_def Let_def mult_right_mono)
next
  case False
  then have lt: "nbits a < nbits b" using nbits_mono[OF assms] by simp
  then have b: "0 < b" using assms nbits_zero by (cases "b = 0") auto
  show ?thesis
  proof (cases "a = 0")
    case True
    have "(0 :: int) \<le> 2 ^ (nbits b - 1)" by simp
    then have "0 \<le> round53 b" using round53_lower[OF b] by linarith
    then show ?thesis using True by (simp add: round53_def)
  next
    case False
    then have "round53 a \<le> 2 ^ nbits a" using assms(1) round53_upper by simp
    also have "\<dots> \<le> 2 ^ (nbits b - 1)" using lt by (intro power_increasing) auto
    finally show ?thesis using round53_lower[OF b] by linarith
  qed
qed

lemma round53_exact:
  assumes "0 \<le> m" "m < 2 ^ 53"
  shows "round53 (m * 2 ^ j) = m * 2 ^ j"
proof (cases "nbits (m * 2 ^ j) \<le> 53")
  case False
  define z where "z = m * 2 ^ j"
  define k where "k = nbits z - 53"
  have "z < 2 ^ (53 + j)" using assms(2) by (simp add: z_def power_add)
  then have "nbits z \<le> 53 + j" using assms(1) by (intro nbits_leI) (auto simp: z_def)
  then have "k \<le> j" by (simp add: k_def)
  then have dvd: "2 ^ k dvd z" unfolding z_def by (intro dvd_mult le_imp_power_dvd)
  have "k \<noteq> 0" using False by (simp add: k_def z_def)
  then have "half_even k z * 2 ^ k = z"
    using dvd by (simp add: half_even_def Let_def dvd_eq_mod_eq_0[symmetric] )
  then show ?thesis using False by (simp add: round53_def k_def[symmetric] z_def[symmetric] Let_def)
qed (simp add: round53_def)

lemma round53_small: "0 \<le> m \<Longrightarrow> m < 2 ^ 53 \<Longrightarrow> round53 m = m"
  using round53_exact[of m 0] by simp

lemma exceeds_iff_nonneg:
  assumes "0 \<le> fp" "0 \<le> L" "L < 2 ^ 31"
  shows "exceeds fp L \<longleftrightarrow> 5 * L < 6 * fp"
proof -
  let ?c = safetyMultiplier
  have five: "5 * ?c = 6 * 2 ^ 52 - 1" by (simp add: safetyMultiplier_def)
  have scaled: "5 * (n * ?c) = 6 * 2 ^ 52 * n - n" for n
  proof -
    have eq: "5 * (n * ?c) = n * (5 * ?c)" by (simp only: mult.left_commute)
    show ?thesis unfolding eq five by (simp add: algebra_simps)
  qed
  have c0: "0 < ?c" by (simp add: safetyMultiplier_def)
  have fp0: "0 \<le> round53 fp" using round53_mono[of 0 fp] assms(1) by (simp add: round53_def)
  have ex: "exceeds fp L \<longleftrightarrow> L * 2 ^ 52 < round53 (round53 fp * ?c)"
    using assms fp0 c0 round53_small[of L] by (simp add: exceeds_def)
  show ?thesis
  proof (cases "5 * L < 6 * fp")
    case True
    define n0 where "n0 = 5 * L div 6 + 1"
    have n0: "5 * L < 6 * n0" "6 * n0 \<le> 5 * L + 6" by (auto simp: n0_def)
    have le: "n0 \<le> fp" using True n0(1) by (simp add: n0_def)
    have small: "0 \<le> n0" "n0 < 2 ^ 32" using n0 assms(2,3) by simp_all
    have lim: "L * 2 ^ 52 + 2 ^ 31 \<le> n0 * ?c"
    proof -
      have "5 * L + 1 \<le> 6 * n0" using n0(1) by simp
      moreover obtain p where p: "n0 * ?c = p" by simp
      ultimately show ?thesis using scaled[of n0] small(2) unfolding p by simp
    qed
    have rep: "L * 2 ^ 52 + 2 ^ 31 = (L * 2 ^ 21 + 1) * 2 ^ 31" by (simp add: algebra_simps)
    have "round53 (L * 2 ^ 52 + 2 ^ 31) = L * 2 ^ 52 + 2 ^ 31"
      unfolding rep by (rule round53_exact) (use assms(2,3) in simp_all)
    moreover have "round53 (L * 2 ^ 52 + 2 ^ 31) \<le> round53 (round53 fp * ?c)"
    proof (rule round53_mono)
      have "n0 = round53 n0" using small by (simp add: round53_small)
      also have "\<dots> \<le> round53 fp" by (rule round53_mono[OF small(1) le])
      finally have "n0 * ?c \<le> round53 fp * ?c" using c0 by simp
      then show "L * 2 ^ 52 + 2 ^ 31 \<le> round53 fp * ?c" using lim by linarith
    qed (use assms(2) in simp)
    ultimately show ?thesis using True ex by simp
  next
    case False
    then have small: "fp < 2 ^ 53" using assms(3) by simp
    obtain p where p: "fp * ?c = p" by simp
    have "fp * ?c \<le> L * 2 ^ 52" using scaled[of fp] False assms(1) unfolding p by simp
    then have "round53 (fp * ?c) \<le> round53 (L * 2 ^ 52)"
      using assms(1) c0 by (intro round53_mono) auto
    also have "\<dots> = L * 2 ^ 52" by (rule round53_exact) (use assms(2,3) in simp_all)
    finally show ?thesis using False ex small assms(1) by (simp add: round53_small)
  qed
qed

lemma round53_nonneg: "0 \<le> z \<Longrightarrow> 0 \<le> round53 z"
  using round53_mono[of 0 z] by (simp add: round53_def)

lemma to_double_nonpos: "z \<le> 0 \<Longrightarrow> to_double z \<le> 0"
  using round53_nonneg[of "- z"] by (cases "z = 0") (simp_all add: to_double_def round53_def)

text \<open>The comparison decides whether 1.2 times the footprint exceeds the limit, exactly.\<close>

lemma exceeds_iff:
  assumes "0 \<le> L" "L < 2 ^ 31"
  shows "exceeds fp L \<longleftrightarrow> 5 * L < 6 * fp"
proof (cases "0 \<le> fp")
  case False
  then have "to_double fp * safetyMultiplier \<le> 0"
    using to_double_nonpos[of fp] by (simp add: mult_le_0_iff safetyMultiplier_def)
  then have "to_double (to_double fp * safetyMultiplier) \<le> 0" by (rule to_double_nonpos)
  moreover have "0 \<le> to_double L * 2 ^ 52" using assms(1) round53_nonneg by simp
  ultimately show ?thesis using False assms(1) unfolding exceeds_def by linarith
qed (use exceeds_iff_nonneg assms in simp)

text \<open>An equivalent test in integers, used when definitions are evaluated.\<close>

lemma exceeds_code [code]:
  "exceeds fp L = (if 0 \<le> L \<and> L < 2147483648 then 5 * L < 6 * fp
     else to_double (to_double fp * safetyMultiplier) > to_double L * 2 ^ 52)"
  using exceeds_iff[of L fp] by (simp add: exceeds_def)

end
