(* ===== verification/TileDTCM.thy ===== *)
theory TileDTCM
  imports TileFootprint ConfigItems DoubleCompare
begin

text \<open>
  The DTCM pass of \<open>CoralNPUTileSizeSelection.cpp\<close> (569-586 and 832-1085): the
  tile sizes shrink until the estimated footprint fits the local memory. The
  loop is a partial function; the lemmas show that it always returns, that a
  returned tile fits and is as large as promised, and that the pass fails
  exactly when not even a tile of single iterations fits.
\<close>

section \<open>Model\<close>

fun shrinkLoops :: "llvm_api \<Rightarrow> nat list \<Rightarrow> int \<Rightarrow> int list \<Rightarrow> int list option" where
  "shrinkLoops L [] alignment ts = None"
| "shrinkLoops L (loopIdx # idxs) alignment ts =
     (if ts ! loopIdx < 2 * alignment then shrinkLoops L idxs alignment ts
      else Some (ts[loopIdx := alignDown L (ts ! loopIdx sdiv 2) alignment]))"

definition alignTileSizes :: "llvm_api \<Rightarrow> nat list \<Rightarrow> int \<Rightarrow> int list \<Rightarrow> int list" where
  "alignTileSizes L loopIndices alignment ts =
     update_each loopIndices (\<lambda>_ t. if t \<le> alignment then t else alignDown L t alignment) ts"

text \<open>The alignments of the DTCM pass, the batch alignment included.\<close>

record dtcm_aligns =
  da_vector :: int
  da_unroll :: int
  da_reduction :: int
  da_batch :: int

text \<open>One of the loops of lines 889-920.\<close>

definition level_max :: "int list \<Rightarrow> nat list \<Rightarrow> int \<Rightarrow> int" where
  "level_max sizes idxs m =
     fold (\<lambda>idx acc. if idx < length sizes \<and> 0 < sizes ! idx then max acc (sizes ! idx) else acc) idxs m"

definition dtcm_alignments :: "iree_api \<Rightarrow> config_item list \<Rightarrow> loop_classification \<Rightarrow> dtcm_aligns" where
  "dtcm_alignments I d c =
    (let al0 = \<lparr>da_vector = 1, da_unroll = 1, da_reduction = 1, da_batch = 1\<rparr>;
         al1 = (if hasTilingLevel I d VectorCommonParallelTiles then
                  (let sizes = staticLevelSizes I d VectorCommonParallelTiles
                   in al0\<lparr>da_vector := level_max sizes (vectorLoops c) (da_vector al0),
                          da_unroll := level_max sizes (unrollLoops c) (da_unroll al0),
                          da_batch := level_max sizes (batchLoops c) (da_batch al0)\<rparr>)
                else al0)
     in if hasTilingLevel I d VectorReductionTiles then
          (let sizes = staticLevelSizes I d VectorReductionTiles
           in al1\<lparr>da_reduction := level_max sizes (reductionLoops c) (da_reduction al1)\<rparr>)
        else al1)"

text \<open>Lines 924-948.\<close>

definition dtcm_initial_tiles ::
  "llvm_api \<Rightarrow> bool \<Rightarrow> dtcm_aligns \<Rightarrow> loop_classification \<Rightarrow> int list \<Rightarrow> int list" where
  "dtcm_initial_tiles L hasMatrix al c ranges =
    (let maxParallelTileSize = (if hasMatrix then 64 else 16);
         t1 = alignTileSizes L (vectorLoops c) (da_vector al) ranges;
         t2 = alignTileSizes L (unrollLoops c) (da_unroll al) t1;
         t3 = alignTileSizes L (batchLoops c) (da_batch al) t2;
         t4 = alignTileSizes L (reductionLoops c) (da_reduction al) t3;
         cap = (\<lambda>_ t. if 0 < t then min t maxParallelTileSize else t);
         t5 = update_each (vectorLoops c) cap t4
     in update_each (unrollLoops c) cap t5)"

record dtcm_state =
  ds_aligns :: dtcm_aligns
  ds_fallback :: bool
  ds_tiles :: "int list"

datatype dtcm_step_result = Fits | Shrunk dtcm_state | CannotFit

definition ones :: dtcm_aligns where
  "ones = \<lparr>da_vector = 1, da_unroll = 1, da_reduction = 1, da_batch = 1\<rparr>"

text \<open>The condition and the body of the loop (lines 953-995).\<close>

definition dtcm_step ::
  "llvm_api \<Rightarrow> mlir_api \<Rightarrow> tiling_op \<Rightarrow> loop_classification \<Rightarrow> int list \<Rightarrow> int \<Rightarrow> dtcm_state \<Rightarrow> dtcm_step_result"
where
  "dtcm_step L M op c ranges dtcmLimitBytes st =
    (let al = ds_aligns st; ts = ds_tiles st
     in if \<not> exceeds (estimateFootprint M op ts) dtcmLimitBytes then Fits
        else case shrinkLoops L (vectorLoops c) (da_vector al) ts of
          Some ts' \<Rightarrow> Shrunk (st\<lparr>ds_tiles := ts'\<rparr>)
        | None \<Rightarrow>
          (case shrinkLoops L (unrollLoops c) (da_unroll al) ts of
             Some ts' \<Rightarrow> Shrunk (st\<lparr>ds_tiles := ts'\<rparr>)
           | None \<Rightarrow>
             (case shrinkLoops L (batchLoops c) (da_batch al) ts of
                Some ts' \<Rightarrow> Shrunk (st\<lparr>ds_tiles := ts'\<rparr>)
              | None \<Rightarrow>
                (case shrinkLoops L (reductionLoops c) (da_reduction al) ts of
                   Some ts' \<Rightarrow> Shrunk (st\<lparr>ds_tiles := ts'\<rparr>)
                 | None \<Rightarrow>
                   (if da_vector al > 1 \<or> da_unroll al > 1 \<or> da_reduction al > 1 \<or> da_batch al > 1
                    then Shrunk \<lparr>ds_aligns = ones, ds_fallback = True, ds_tiles = ranges\<rparr>
                    else CannotFit)))))"

text \<open>The loop: \<open>Inl\<close> is the error return, \<open>None\<close> a loop that never ends.\<close>

partial_function (option) dtcm_loop ::
  "llvm_api \<Rightarrow> mlir_api \<Rightarrow> tiling_op \<Rightarrow> loop_classification \<Rightarrow> int list \<Rightarrow> int \<Rightarrow> dtcm_state
    \<Rightarrow> (string + dtcm_state) option"
where
  "dtcm_loop L M op c ranges limit st =
    (case dtcm_step L M op c ranges limit st of
       Fits \<Rightarrow> Some (Inr st)
     | CannotFit \<Rightarrow> Some (Inl ''workload cannot fit in DTCM even with 1x1x... tile size'')
     | Shrunk st' \<Rightarrow> dtcm_loop L M op c ranges limit st')"

declare dtcm_loop.simps [code]

text \<open>Lines 1005-1023.\<close>

definition dist_parallel_sizes :: "loop_classification \<Rightarrow> int list \<Rightarrow> int list" where
  "dist_parallel_sizes c ts =
    (let put = (\<lambda>i _. ts ! i);
         s1 = update_each (vectorLoops c) put (replicate (length ts) 0);
         s2 = update_each (unrollLoops c) put s1
     in update_each (batchLoops c) put s2)"

definition cache_reduction_sizes :: "loop_classification \<Rightarrow> int list \<Rightarrow> int list" where
  "cache_reduction_sizes c ts =
     update_each (reductionLoops c) (\<lambda>i _. ts ! i) (replicate (length ts) 0)"

text \<open>Lines 1052-1066: the vector levels after a fallback. Batch loops are not written.\<close>

definition fallback_parallel_sizes :: "loop_classification \<Rightarrow> int list \<Rightarrow> int list" where
  "fallback_parallel_sizes c ts =
    (let put = (\<lambda>i _. min (ts ! i) 1)
     in update_each (unrollLoops c) put (update_each (vectorLoops c) put (replicate (length ts) 0)))"

definition fallback_reduction_sizes :: "loop_classification \<Rightarrow> int list \<Rightarrow> int list" where
  "fallback_reduction_sizes c ts =
     update_each (reductionLoops c) (\<lambda>i _. min (ts ! i) 1) (replicate (length ts) 0)"

text \<open>Lines 1025-1074: the updates of the configuration, in order.\<close>

definition dtcm_updates :: "iree_api \<Rightarrow> loop_classification \<Rightarrow> dtcm_state \<Rightarrow> (string \<times> attribute) list" where
  "dtcm_updates I c st =
    [(levelName I CacheParallelTiles, getTilingLevelAttr (dist_parallel_sizes c (ds_tiles st))),
     (levelName I CacheReductionTiles, getTilingLevelAttr (cache_reduction_sizes c (ds_tiles st)))] @
    (if ds_fallback st then
      [(levelName I VectorCommonParallelTiles, getTilingLevelAttr (fallback_parallel_sizes c (ds_tiles st))),
       (levelName I VectorReductionTiles, getTilingLevelAttr (fallback_reduction_sizes c (ds_tiles st)))]
     else [])"

definition dtcm_info :: "iree_api \<Rightarrow> compilation_info \<Rightarrow> config_item list \<Rightarrow> loop_classification
    \<Rightarrow> dtcm_state \<Rightarrow> compilation_info" where
  "dtcm_info I ci oldDict c st =
    (let configItems = fold (\<lambda>(name, attr). updateConfigItem name attr) (dtcm_updates I c st) oldDict
     in \<lparr>ci_lowering = CpuLoweringConfig (dictGet I configItems), ci_pipeline = ci_pipeline ci\<rparr>)"

definition dtcm_initial_state :: "llvm_api \<Rightarrow> iree_api \<Rightarrow> bool \<Rightarrow> config_item list
    \<Rightarrow> loop_classification \<Rightarrow> int list \<Rightarrow> dtcm_state" where
  "dtcm_initial_state L I hasMatrix d c ranges =
    (let al = dtcm_alignments I d c
     in \<lparr>ds_aligns = al, ds_fallback = False, ds_tiles = dtcm_initial_tiles L hasMatrix al c ranges\<rparr>)"

definition runDTCMPass ::
  "llvm_api \<Rightarrow> mlir_api \<Rightarrow> iree_api \<Rightarrow> int \<Rightarrow> func_op \<Rightarrow> func_op pass_result option" where
  "runDTCMPass L M I dtcmSizeKb f =
    (case fn_target f of
       None \<Rightarrow> Some (PassOk f)
     | Some targetAttr \<Rightarrow>
       (if tgt_backend targetAttr \<noteq> ''coralnpu'' then Some (PassOk f)
        else let dtcmLimitBytes = dtcmSizeKb * 1024; an = tilingAnalysis M f
             in if \<not> an_ok an then Some (PassFailure ''tiling analysis failed'')
                else if \<not> an_hasComputeOps an then Some (PassOk f)
                else case an_op an of
                  None \<Rightarrow> Some PassTrap
                | Some op \<Rightarrow>
                  (case fn_info f (an_root an) of
                     None \<Rightarrow> Some (PassFailure ''missing compilation info from register tiling pass'')
                   | Some ci \<Rightarrow>
                     (case cpu_items ci of
                        None \<Rightarrow> Some (PassFailure ''expected CPU lowering config'')
                      | Some oldDict \<Rightarrow>
                        (let c = an_classification an; ranges = an_ranges an;
                             st0 = dtcm_initial_state L I (has_matrix I targetAttr op) oldDict c ranges
                         in case dtcm_loop L M op c ranges dtcmLimitBytes st0 of
                              None \<Rightarrow> None
                            | Some (Inl e) \<Rightarrow> Some (PassFailure e)
                            | Some (Inr st) \<Rightarrow>
                                Some (PassOk (setCompilationInfo (an_root an)
                                   (dtcm_info I ci oldDict c st) f)))))))"

section \<open>Lemmas on shrinking\<close>

lemma shrinkLoops_SomeD:
  "shrinkLoops L idxs a ts = Some ts' \<Longrightarrow>
     \<exists>i \<in> set idxs. 2 * a \<le> ts ! i \<and> ts' = ts[i := alignDown L (ts ! i sdiv 2) a]"
  by (induction L idxs a ts rule: shrinkLoops.induct) (force split: if_splits)+

lemma shrinkLoops_None: "shrinkLoops L idxs a ts = None \<longleftrightarrow> (\<forall>i \<in> set idxs. ts ! i < 2 * a)"
  by (induction L idxs a ts rule: shrinkLoops.induct) auto

lemma shrunk_value:
  assumes "llvm_ok L" "1 \<le> a" "2 * a \<le> t"
  shows "1 \<le> alignDown L (t sdiv 2) a" "alignDown L (t sdiv 2) a \<le> t div 2"
    "alignDown L (t sdiv 2) a < t" "a dvd alignDown L (t sdiv 2) a"
proof -
  have sd: "t sdiv 2 = t div 2" using assms by simp
  have le: "a \<le> t div 2" using assms by simp
  have a: "0 < a" using assms by simp
  note b = alignDown_bounds[OF assms(1) a le]
  show "1 \<le> alignDown L (t sdiv 2) a" using b(1) assms(2) unfolding sd by linarith
  show "alignDown L (t sdiv 2) a \<le> t div 2" using b(2) unfolding sd .
  show "alignDown L (t sdiv 2) a < t" using b(2) assms unfolding sd by linarith
  show "a dvd alignDown L (t sdiv 2) a" using b(3) unfolding sd .
qed

lemma shrinkLoops_bounds:
  assumes "llvm_ok L" "1 \<le> a" "shrinkLoops L idxs a ts = Some ts'"
    "\<And>i. i \<in> set idxs \<Longrightarrow> i < length ts"
  shows "length ts' = length ts"
    "\<And>j. j < length ts \<Longrightarrow> ts' ! j \<le> ts ! j \<and> (1 \<le> ts ! j \<longrightarrow> 1 \<le> ts' ! j)"
    "sum_list (map nat ts') < sum_list (map nat ts)"
proof -
  from shrinkLoops_SomeD[OF assms(3)] obtain i where i: "i \<in> set idxs" "2 * a \<le> ts ! i"
    and ts0: "ts' = ts[i := alignDown L (ts ! i sdiv 2) a]" by blast
  define x where "x = alignDown L (ts ! i sdiv 2) a"
  have v: "1 \<le> x" "x < ts ! i"
    using shrunk_value[OF assms(1,2) i(2)] unfolding x_def by blast+
  have ts': "ts' = ts[i := x]" using ts0 by (simp only: x_def)
  have il: "i < length ts" using assms(4) i(1) by simp
  show "length ts' = length ts" by (simp add: ts')
  show "ts' ! j \<le> ts ! j \<and> (1 \<le> ts ! j \<longrightarrow> 1 \<le> ts' ! j)" if "j < length ts" for j
    using v il by (cases "i = j") (simp_all add: ts')
  have il: "i < length (map nat ts)" using il by simp
  have "nat x < map nat ts ! i" using v il by simp
  moreover have "map nat ts ! i \<le> sum_list (map nat ts)" using il by (rule elem_le_sum_list)
  ultimately show "sum_list (map nat ts') < sum_list (map nat ts)"
    unfolding ts' map_update by (simp add: sum_list_update[OF il])
qed

section \<open>The invariant of the loop and its termination\<close>

definition tiles_within :: "int list \<Rightarrow> int list \<Rightarrow> bool" where
  "tiles_within ranges ts \<longleftrightarrow> length ts = length ranges \<and>
     list_all (\<lambda>i. 1 \<le> ts ! i \<and> ts ! i \<le> ranges ! i) [0..<length ranges]"

lemma tiles_withinD:
  "tiles_within ranges ts \<Longrightarrow> length ts = length ranges"
  "tiles_within ranges ts \<Longrightarrow> i < length ranges \<Longrightarrow> 1 \<le> ts ! i \<and> ts ! i \<le> ranges ! i"
  by (simp_all add: tiles_within_def list_all_iff)

lemma tiles_within_self:
  assumes "\<forall>x \<in> set ranges. 1 \<le> x"
  shows "tiles_within ranges ranges"
  using assms nth_mem[of _ ranges] by (fastforce simp: tiles_within_def list_all_iff)

definition dtcm_inv :: "loop_classification \<Rightarrow> int list \<Rightarrow> int \<Rightarrow> dtcm_state \<Rightarrow> bool" where
  "dtcm_inv c ranges maxTile st \<longleftrightarrow>
     tiles_within ranges (ds_tiles st) \<and>
     1 \<le> da_vector (ds_aligns st) \<and> 1 \<le> da_unroll (ds_aligns st) \<and>
     1 \<le> da_reduction (ds_aligns st) \<and> 1 \<le> da_batch (ds_aligns st) \<and>
     (if ds_fallback st then ds_aligns st = ones
      else list_all (\<lambda>i. ds_tiles st ! i \<le> maxTile) (vectorLoops c @ unrollLoops c))"

lemma shrink_inv:
  assumes L: "llvm_ok L" "1 \<le> a" and inv: "dtcm_inv c ranges maxTile st"
    and wf: "loops_wf (length ranges) c"
    and sh: "shrinkLoops L idxs a (ds_tiles st) = Some ts'" and idx: "\<And>i. i \<in> set idxs \<Longrightarrow> i < length ranges"
  shows "dtcm_inv c ranges maxTile (st\<lparr>ds_tiles := ts'\<rparr>)"
    "sum_list (map nat ts') < sum_list (map nat (ds_tiles st))"
proof -
  have tw: "tiles_within ranges (ds_tiles st)" using inv by (simp add: dtcm_inv_def)
  note len = tiles_withinD(1)[OF tw]
  note b = shrinkLoops_bounds[OF L sh, unfolded len, OF idx]
  show "sum_list (map nat ts') < sum_list (map nat (ds_tiles st))" by (rule b(3))
  have tw': "tiles_within ranges ts'"
    using b(1,2) tiles_withinD(2)[OF tw] by (force simp: tiles_within_def list_all_iff)
  have "ts' ! i \<le> ds_tiles st ! i" if "i \<in> set (vectorLoops c @ unrollLoops c)" for i
    using that b(2)[of i] loops_wfD(5,6)[OF wf, of i] by auto
  then show "dtcm_inv c ranges maxTile (st\<lparr>ds_tiles := ts'\<rparr>)"
    using inv tw' by (force simp: dtcm_inv_def list_all_iff split: if_splits)
qed

definition dtcm_measure :: "dtcm_state rel" where
  "dtcm_measure = measures [\<lambda>s. if ds_aligns s = ones then 0 else 1, \<lambda>s. sum_list (map nat (ds_tiles s))]"

lemma wf_dtcm_measure: "wf dtcm_measure"
  by (simp add: dtcm_measure_def)

lemma dtcm_step_Shrunk:
  assumes L: "llvm_ok L" and wf: "loops_wf (length ranges) c" and r: "\<forall>x \<in> set ranges. 1 \<le> x"
    and inv: "dtcm_inv c ranges maxTile st" and st: "dtcm_step L M op c ranges limit st = Shrunk st'"
  shows "dtcm_inv c ranges maxTile st' \<and> (st', st) \<in> dtcm_measure"
proof -
  let ?al = "ds_aligns st"
  have pos: "1 \<le> da_vector ?al" "1 \<le> da_unroll ?al" "1 \<le> da_reduction ?al" "1 \<le> da_batch ?al"
    using inv by (simp_all add: dtcm_inv_def)
  have shr: "dtcm_inv c ranges maxTile (st\<lparr>ds_tiles := ts'\<rparr>) \<and> (st\<lparr>ds_tiles := ts'\<rparr>, st) \<in> dtcm_measure"
    if "1 \<le> a" "shrinkLoops L idxs a (ds_tiles st) = Some ts'" "\<And>i. i \<in> set idxs \<Longrightarrow> i < length ranges"
    for a idxs ts'
    using shrink_inv[OF L that(1) inv wf that(2,3)] by (simp add: dtcm_measure_def)
  have fb: "dtcm_inv c ranges maxTile \<lparr>ds_aligns = ones, ds_fallback = True, ds_tiles = ranges\<rparr> \<and>
      (\<lparr>ds_aligns = ones, ds_fallback = True, ds_tiles = ranges\<rparr>, st) \<in> dtcm_measure"
    if "da_vector ?al > 1 \<or> da_unroll ?al > 1 \<or> da_reduction ?al > 1 \<or> da_batch ?al > 1"
    using that tiles_within_self[OF r] by (auto simp: dtcm_inv_def ones_def dtcm_measure_def)
  from st consider ts' where "shrinkLoops L (vectorLoops c) (da_vector ?al) (ds_tiles st) = Some ts'"
      "st' = st\<lparr>ds_tiles := ts'\<rparr>"
    | ts' where "shrinkLoops L (unrollLoops c) (da_unroll ?al) (ds_tiles st) = Some ts'"
      "st' = st\<lparr>ds_tiles := ts'\<rparr>"
    | ts' where "shrinkLoops L (batchLoops c) (da_batch ?al) (ds_tiles st) = Some ts'"
      "st' = st\<lparr>ds_tiles := ts'\<rparr>"
    | ts' where "shrinkLoops L (reductionLoops c) (da_reduction ?al) (ds_tiles st) = Some ts'"
      "st' = st\<lparr>ds_tiles := ts'\<rparr>"
    | "da_vector ?al > 1 \<or> da_unroll ?al > 1 \<or> da_reduction ?al > 1 \<or> da_batch ?al > 1"
      "st' = \<lparr>ds_aligns = ones, ds_fallback = True, ds_tiles = ranges\<rparr>"
    unfolding dtcm_step_def Let_def
    by (simp split: if_splits option.splits)
  then show ?thesis
  proof cases
    case 1 then show ?thesis using shr[OF pos(1) 1(1) loops_wfD(5)[OF wf]] by simp
  next
    case 2 then show ?thesis using shr[OF pos(2) 2(1) loops_wfD(6)[OF wf]] by simp
  next
    case 3 then show ?thesis using shr[OF pos(4) 3(1) loops_wfD(7)[OF wf]] by simp
  next
    case 4 then show ?thesis using shr[OF pos(3) 4(1) loops_wfD(8)[OF wf]] by simp
  next
    case 5 then show ?thesis using fb by simp
  qed
qed

lemma dtcm_step_CannotFit:
  assumes wf: "loops_wf (length ranges) c" and inv: "dtcm_inv c ranges maxTile st"
    and st: "dtcm_step L M op c ranges limit st = CannotFit"
  shows "ds_tiles st = replicate (length ranges) 1 \<and>
    exceeds (estimateFootprint M op (replicate (length ranges) 1)) limit"
proof -
  let ?al = "ds_aligns st"
  have tw: "tiles_within ranges (ds_tiles st)" using inv by (simp add: dtcm_inv_def)
  have ex: "exceeds (estimateFootprint M op (ds_tiles st)) limit"
    and none: "shrinkLoops L (vectorLoops c) (da_vector ?al) (ds_tiles st) = None"
      "shrinkLoops L (unrollLoops c) (da_unroll ?al) (ds_tiles st) = None"
      "shrinkLoops L (batchLoops c) (da_batch ?al) (ds_tiles st) = None"
      "shrinkLoops L (reductionLoops c) (da_reduction ?al) (ds_tiles st) = None"
    and one: "da_vector ?al \<le> 1" "da_unroll ?al \<le> 1" "da_reduction ?al \<le> 1" "da_batch ?al \<le> 1"
    using st unfolding dtcm_step_def Let_def by (simp_all split: if_splits option.splits)
  have "ds_tiles st ! i = 1" if i: "i < length ranges" for i
  proof -
    from wf i have "ds_tiles st ! i < 2"
      by (cases rule: loops_wf_cases) (use none one in \<open>force simp: shrinkLoops_None\<close>)+
    then show ?thesis using tiles_withinD(2)[OF tw i] by simp
  qed
  then have "ds_tiles st = replicate (length ranges) 1"
    using tiles_withinD(1)[OF tw] by (intro nth_equalityI) simp_all
  with ex show ?thesis by simp
qed

lemma dtcm_loop_total:
  assumes "llvm_ok L" "loops_wf (length ranges) c" "\<forall>x \<in> set ranges. 1 \<le> x" "dtcm_inv c ranges maxTile st"
  shows "\<exists>r. dtcm_loop L M op c ranges limit st = Some r \<and>
    (case r of Inl e \<Rightarrow> exceeds (estimateFootprint M op (replicate (length ranges) 1)) limit
     | Inr s \<Rightarrow> dtcm_inv c ranges maxTile s \<and> \<not> exceeds (estimateFootprint M op (ds_tiles s)) limit)"
  using assms(4)
proof (induction st rule: wf_induct_rule[OF wf_dtcm_measure])
  case (1 st)
  show ?case
  proof (cases "dtcm_step L M op c ranges limit st")
    case Fits
    then have "\<not> exceeds (estimateFootprint M op (ds_tiles st)) limit"
      unfolding dtcm_step_def Let_def by (simp split: if_splits option.splits)
    with Fits 1(2) show ?thesis by (subst dtcm_loop.simps) simp
  next
    case (Shrunk st')
    from dtcm_step_Shrunk[OF assms(1-3) 1(2) this] have "(st', st) \<in> dtcm_measure"
      "dtcm_inv c ranges maxTile st'" by simp_all
    from 1(1)[OF this] Shrunk show ?thesis by (subst dtcm_loop.simps) simp
  next
    case CannotFit
    with dtcm_step_CannotFit[OF assms(2) 1(2) this] show ?thesis by (subst dtcm_loop.simps) simp
  qed
qed

section \<open>The initial state\<close>

lemma level_max_ge: "m \<le> level_max sizes idxs m"
  unfolding level_max_def
proof (induction idxs arbitrary: m)
  case (Cons i idxs)
  show ?case using Cons.IH[of "max m (sizes ! i)"] Cons.IH[of m] by auto
qed simp

lemma dtcm_alignments_pos:
  "1 \<le> da_vector (dtcm_alignments I d c)" "1 \<le> da_unroll (dtcm_alignments I d c)"
  "1 \<le> da_reduction (dtcm_alignments I d c)" "1 \<le> da_batch (dtcm_alignments I d c)"
  using level_max_ge[of 1] by (simp_all add: dtcm_alignments_def Let_def)

lemma update_each_within:
  assumes "tiles_within ranges ts" "distinct idxs" "\<And>t. 1 \<le> t \<Longrightarrow> 1 \<le> g t \<and> g t \<le> t"
  shows "tiles_within ranges (update_each idxs (\<lambda>_. g) ts)"
proof -
  note D = tiles_withinD[OF assms(1)]
  have "1 \<le> update_each idxs (\<lambda>_. g) ts ! i \<and> update_each idxs (\<lambda>_. g) ts ! i \<le> ranges ! i"
    if "i < length ranges" for i
    using that D(1) D(2)[OF that] assms(3)[of "ts ! i"] by (auto simp: nth_update_each[OF assms(2)])
  then show ?thesis using D(1) by (simp add: tiles_within_def list_all_iff)
qed

lemma alignTileSizes_within:
  assumes "llvm_ok L" "1 \<le> a" "tiles_within ranges ts" "distinct idxs"
  shows "tiles_within ranges (alignTileSizes L idxs a ts)"
  unfolding alignTileSizes_def
proof (rule update_each_within[OF assms(3,4)])
  fix t :: int assume t: "1 \<le> t"
  show "1 \<le> (if t \<le> a then t else alignDown L t a) \<and> (if t \<le> a then t else alignDown L t a) \<le> t"
    using t assms(2) alignDown_bounds(1,2)[OF assms(1), of a t] by auto
qed

lemma dtcm_initial_tiles_inv:
  fixes hm :: bool
  assumes L: "llvm_ok L" and wf: "loops_wf (length ranges) c" and r: "\<forall>x \<in> set ranges. 1 \<le> x"
    and pos: "1 \<le> da_vector al" "1 \<le> da_unroll al" "1 \<le> da_reduction al" "1 \<le> da_batch al"
  defines "ts \<equiv> dtcm_initial_tiles L hm al c ranges" and "maxTile \<equiv> (if hm then 64 else 16)"
  shows "tiles_within ranges ts" "\<And>i. i \<in> set (vectorLoops c @ unrollLoops c) \<Longrightarrow> ts ! i \<le> maxTile"
proof -
  note D = loops_wfD(1-4)[OF wf]
  define cap where "cap = (\<lambda>t::int. if 0 < t then min t maxTile else t)"
  have m1: "1 \<le> maxTile" by (simp add: maxTile_def)
  have capw: "1 \<le> cap t \<and> cap t \<le> t" if "1 \<le> t" for t using that m1 by (simp add: cap_def)
  have capm: "cap t \<le> maxTile" if "1 \<le> t" for t using that by (simp add: cap_def)
  define t4 where "t4 = alignTileSizes L (reductionLoops c) (da_reduction al)
    (alignTileSizes L (batchLoops c) (da_batch al)
      (alignTileSizes L (unrollLoops c) (da_unroll al)
        (alignTileSizes L (vectorLoops c) (da_vector al) ranges)))"
  define t5 where "t5 = update_each (vectorLoops c) (\<lambda>_. cap) t4"
  have ts: "ts = update_each (unrollLoops c) (\<lambda>_. cap) t5"
    unfolding ts_def dtcm_initial_tiles_def Let_def t5_def t4_def cap_def maxTile_def ..
  have w4: "tiles_within ranges t4"
    unfolding t4_def
    by (intro alignTileSizes_within L pos D tiles_within_self r)
  have w5: "tiles_within ranges t5"
    unfolding t5_def using capw by (intro update_each_within w4 D) auto
  show "tiles_within ranges ts"
    unfolding ts using capw by (intro update_each_within w5 D) auto
  note l4 = tiles_withinD(1)[OF w4] and l5 = tiles_withinD(1)[OF w5]
  show "ts ! i \<le> maxTile" if "i \<in> set (vectorLoops c @ unrollLoops c)" for i
  proof (cases "i \<in> set (unrollLoops c)")
    case True
    with loops_wfD(6)[OF wf True] tiles_withinD(2)[OF w5, of i] capm show ?thesis
      unfolding ts by (simp add: nth_update_each[OF D(2)] l5)
  next
    case False
    with that have v: "i \<in> set (vectorLoops c)" by simp
    with False loops_wfD(5)[OF wf v] tiles_withinD(2)[OF w4, of i] capm show ?thesis
      unfolding ts t5_def by (simp add: nth_update_each_notin nth_update_each[OF D(1)] l4)
  qed
qed

lemma dtcm_initial_state_inv:
  assumes "llvm_ok L" "loops_wf (length ranges) c" "\<forall>x \<in> set ranges. 1 \<le> x"
  shows "dtcm_inv c ranges (if hm then 64 else 16) (dtcm_initial_state L I hm d c ranges)"
  using dtcm_initial_tiles_inv[OF assms dtcm_alignments_pos] dtcm_alignments_pos
  by (simp add: dtcm_inv_def dtcm_initial_state_def Let_def list_all_iff)

section \<open>What the pass writes\<close>

lemma length_dtcm_sizes [simp]:
  "length (dist_parallel_sizes c ts) = length ts" "length (cache_reduction_sizes c ts) = length ts"
  "length (fallback_parallel_sizes c ts) = length ts" "length (fallback_reduction_sizes c ts) = length ts"
  by (simp_all add: dist_parallel_sizes_def cache_reduction_sizes_def fallback_parallel_sizes_def
      fallback_reduction_sizes_def Let_def)

lemma dist_parallel_nth:
  assumes wf: "loops_wf (length ts) c" and i: "i < length ts"
  shows "dist_parallel_sizes c ts ! i = (if i \<in> set (reductionLoops c) then 0 else ts ! i)"
  using wf i
proof (cases rule: loops_wf_cases)
  case 1
  with loops_wf_disjoint(1)[OF wf 1] i loops_wfD(1-3)[OF wf] show ?thesis
    by (simp add: dist_parallel_sizes_def Let_def nth_update_each)
next
  case 2
  with loops_wf_disjoint(2)[OF wf 2] i loops_wfD(1-3)[OF wf] show ?thesis
    by (simp add: dist_parallel_sizes_def Let_def nth_update_each)
next
  case 3
  with loops_wf_disjoint(3)[OF wf 3] i loops_wfD(1-3)[OF wf] show ?thesis
    by (simp add: dist_parallel_sizes_def Let_def nth_update_each)
next
  case 4
  with loops_wf_disjoint(4)[OF wf 4] i loops_wfD(1-3)[OF wf] show ?thesis
    by (simp add: dist_parallel_sizes_def Let_def nth_update_each)
qed

lemma cache_reduction_nth:
  assumes wf: "loops_wf (length ts) c" and i: "i < length ts"
  shows "cache_reduction_sizes c ts ! i = (if i \<in> set (reductionLoops c) then ts ! i else 0)"
  using i loops_wfD(4)[OF wf] by (simp add: cache_reduction_sizes_def nth_update_each)

lemma fallback_parallel_nth:
  assumes wf: "loops_wf (length ts) c" and i: "i < length ts"
  shows "fallback_parallel_sizes c ts ! i =
    (if i \<in> set (vectorLoops c) \<or> i \<in> set (unrollLoops c) then min (ts ! i) 1 else 0)"
  using i loops_wfD(1,2)[OF wf] by (simp add: fallback_parallel_sizes_def Let_def nth_update_each)

text \<open>The configuration after the pass, read through the interface of the named attributes.\<close>

lemma dtcm_info_lookup:
  assumes I: "iree_ok I" and d: "distinct (map fst oldDict)"
  shows "info_sizes I (dtcm_info I ci oldDict c st) l =
    (case map_of (rev (dtcm_updates I c st)) (levelName I l) of
       Some a \<Rightarrow> Some (attr_sizes a)
     | None \<Rightarrow> map_option attr_sizes (map_of oldDict (levelName I l)))"
proof -
  let ?items = "fold (\<lambda>(name, attr). updateConfigItem name attr) (dtcm_updates I c st) oldDict"
  have "distinct (map fst ?items)" using config.inv_updates[OF d] .
  then have "map_of (dictGet I ?items) = map_of ?items" using iree_laws(3)[OF I] by simp
  moreover have "info_sizes I (dtcm_info I ci oldDict c st) l =
      map_option attr_sizes (map_of (dictGet I ?items) (levelName I l))"
    by (rule info_sizes_None[OF I]) (simp add: dtcm_info_def)
  ultimately show ?thesis
    using config.lookup_updates[OF d] by (simp split: option.split)
qed

lemma dtcm_info_levels:
  assumes I: "iree_ok I" and d: "distinct (map fst oldDict)"
  shows "info_sizes I (dtcm_info I ci oldDict c st) CacheParallelTiles =
      Some (dist_parallel_sizes c (ds_tiles st))"
    "info_sizes I (dtcm_info I ci oldDict c st) CacheReductionTiles =
      Some (cache_reduction_sizes c (ds_tiles st))"
    "info_sizes I (dtcm_info I ci oldDict c st) VectorCommonParallelTiles =
      (if ds_fallback st then Some (fallback_parallel_sizes c (ds_tiles st))
       else map_option attr_sizes (map_of oldDict (levelName I VectorCommonParallelTiles)))"
    "info_sizes I (dtcm_info I ci oldDict c st) VectorReductionTiles =
      (if ds_fallback st then Some (fallback_reduction_sizes c (ds_tiles st))
       else map_option attr_sizes (map_of oldDict (levelName I VectorReductionTiles)))"
    "info_sizes I (dtcm_info I ci oldDict c st) DistributionTiles =
      map_option attr_sizes (map_of oldDict (levelName I DistributionTiles))"
  unfolding dtcm_info_lookup[OF assms]
  by (simp_all add: dtcm_updates_def iree_laws(1)[OF I] getTilingLevelAttr_def)

section \<open>The pass\<close>

text \<open>The function the DTCM pass expects: analysed, with the CPU lowering configuration of the
  register pass attached to its root.\<close>

definition dtcm_ready :: "mlir_api \<Rightarrow> func_op \<Rightarrow> target_attr \<Rightarrow> tiling_op \<Rightarrow> compilation_info
    \<Rightarrow> config_item list \<Rightarrow> bool" where
  "dtcm_ready M f t op ci d \<longleftrightarrow> analysed M f t op \<and>
     fn_info f (an_root (tilingAnalysis M f)) = Some ci \<and> cpu_items ci = Some d \<and> distinct (map fst d)"

abbreviation max_tile :: "iree_api \<Rightarrow> target_attr \<Rightarrow> tiling_op \<Rightarrow> int" where
  "max_tile I t op \<equiv> (if has_matrix I t op then 64 else 16)"

lemma runDTCMPass_cases:
  assumes "llvm_ok L" "dtcm_ready M f t op ci d" "0 \<le> kb" "kb < 2 ^ 21"
  obtains (fits) st where
      "runDTCMPass L M I kb f = Some (PassOk (setCompilationInfo (an_root (tilingAnalysis M f))
         (dtcm_info I ci d (classifyLoops M op) st) f))"
      "dtcm_inv (classifyLoops M op) (getStaticLoopRanges M op) (max_tile I t op) st"
      "6 * estimateFootprint M op (ds_tiles st) \<le> 5 * (kb * 1024)"
  | (fails) e where "runDTCMPass L M I kb f = Some (PassFailure e)"
      "5 * (kb * 1024) < 6 * estimateFootprint M op (replicate (length (til_iters op)) 1)"
proof -
  have an: "analysed M f t op" and ci: "fn_info f (an_root (tilingAnalysis M f)) = Some ci"
    "cpu_items ci = Some d"
    using assms(2) by (simp_all add: dtcm_ready_def)
  note A = analysedD[OF an]
  have len: "length (getStaticLoopRanges M op) = length (til_iters op)"
    using an by (simp add: analysed_def)
  let ?c = "classifyLoops M op" and ?r = "getStaticLoopRanges M op"
  let ?st0 = "dtcm_initial_state L I (has_matrix I t op) d ?c ?r"
  have lim: "exceeds fp (kb * 1024) \<longleftrightarrow> 5 * (kb * 1024) < 6 * fp" for fp
    using assms(3,4) by (intro exceeds_iff) simp_all
  have run: "runDTCMPass L M I kb f =
     (case dtcm_loop L M op ?c ?r (kb * 1024) ?st0 of None \<Rightarrow> None
      | Some (Inl e) \<Rightarrow> Some (PassFailure e)
      | Some (Inr st) \<Rightarrow> Some (PassOk (setCompilationInfo (an_root (tilingAnalysis M f))
         (dtcm_info I ci d ?c st) f)))"
    by (simp add: runDTCMPass_def A(1-7) ci Let_def)
  have "dtcm_inv ?c ?r (max_tile I t op) ?st0"
    by (rule dtcm_initial_state_inv[OF assms(1) A(8,9)])
  from dtcm_loop_total[OF assms(1) A(8,9) this, of M op "kb * 1024"]
  obtain r where r: "dtcm_loop L M op ?c ?r (kb * 1024) ?st0 = Some r"
    "case r of Inl e \<Rightarrow> exceeds (estimateFootprint M op (replicate (length ?r) 1)) (kb * 1024)
     | Inr s \<Rightarrow> dtcm_inv ?c ?r (max_tile I t op) s \<and> \<not> exceeds (estimateFootprint M op (ds_tiles s)) (kb * 1024)"
    by blast
  show thesis
  proof (cases r)
    case (Inl e)
    then show thesis using fails[of e] r run len by (simp add: lim)
  next
    case (Inr st)
    then show thesis using fits[of st] r run by (simp add: lim)
  qed
qed

text \<open>The tile of every loop, parallel and reduction, from the two cache levels.\<close>

definition merge_tiles :: "int list \<Rightarrow> int list \<Rightarrow> int list" where
  "merge_tiles par red = map (\<lambda>i. par ! i + red ! i) [0..<length par]"

lemma merge_dtcm_sizes:
  assumes "loops_wf (length ts) c"
  shows "merge_tiles (dist_parallel_sizes c ts) (cache_reduction_sizes c ts) = ts"
  by (rule nth_equalityI)
    (simp_all add: merge_tiles_def dist_parallel_nth[OF assms] cache_reduction_nth[OF assms])

lemma dtcm_tile_bounds:
  assumes "loops_wf (length ranges) c" "tiles_within ranges ts"
  shows "tile_bounds c ranges (dist_parallel_sizes c ts) (cache_reduction_sizes c ts)"
proof -
  note len = tiles_withinD(1)[OF assms(2)]
  have wf: "loops_wf (length ts) c" using assms(1) len by simp
  show ?thesis
    using tiles_withinD(2)[OF assms(2)]
    by (auto simp: tile_bounds_def list_all_iff len dist_parallel_nth[OF wf] cache_reduction_nth[OF wf])
qed

section \<open>Concrete functions\<close>

text \<open>The matmul function after the register pass; the inputs of the witnesses.\<close>

definition registered_matmul :: "int \<Rightarrow> int \<Rightarrow> int \<Rightarrow> elem_type \<Rightarrow> func_op" where
  "registered_matmul m n k e =
    (let f = matmul_func ''+v,+zvl128b'' m n k e
     in case runRegisterPass llvm_ref mlir_ref iree_ref register_defaults f of
          PassOk f' \<Rightarrow> f' | _ \<Rightarrow> f)"

definition plain_target :: target_attr where
  "plain_target = \<lparr>tgt_backend = ''coralnpu'', tgt_config = Some \<lparr>cfg_cpu_features = Some ''+v,+zvl128b''\<rparr>\<rparr>"

definition registered_items :: "config_item list" where
  "registered_items =
    [(''vector_common_parallel'', TilingLevelAttr [4, 24, 0] [False, False, False]),
     (''vector_reduction'', TilingLevelAttr [0, 0, 1] [False, False, False])]"

definition registered_info :: compilation_info where
  "registered_info = \<lparr>ci_lowering = CpuLoweringConfig registered_items, ci_pipeline = CPUDoubleTilingExpert\<rparr>"

text \<open>The tiling level sizes a pass leaves on the operation at position 0.\<close>

definition sizes_of :: "func_op pass_result option \<Rightarrow> tiling_level \<Rightarrow> int list option" where
  "sizes_of r l =
    (case r of
       Some (PassOk f) \<Rightarrow> (case fn_info f 0 of Some ci \<Rightarrow> info_sizes iree_ref ci l | None \<Rightarrow> None)
     | _ \<Rightarrow> None)"

lemma registered_ready:
  "dtcm_ready mlir_ref (registered_matmul 64 96 64 (IntT 32)) plain_target (matmul_op 64 96 64 (IntT 32))
     registered_info registered_items"
  by code_simp

section \<open>Properties\<close>

text \<open>
  C5. The DTCM pass terminates: its shrinking loop always ends, and on a
  function prepared by the register pass it ends in success or in the
  error it emits, never in a trap.
\<close>

theorem dtcm_pass_terminates:
  assumes "llvm_ok L" "dtcm_ready M f t op ci d" "0 \<le> kb" "kb < 2 ^ 21"
  shows "\<exists>r. runDTCMPass L M I kb f = Some r \<and> r \<noteq> PassTrap"
  using assms by (rule runDTCMPass_cases) auto

lemma dtcm_pass_terminates_witness:
  "\<exists>r. runDTCMPass llvm_ref mlir_ref iree_ref 8 (registered_matmul 64 96 64 (IntT 32)) = Some r \<and> r \<noteq> PassTrap"
  by (rule dtcm_pass_terminates[OF llvm_ref_ok registered_ready]) simp_all

text \<open>
  C3. What the DTCM pass selects fits: on success the two cache levels tile
  every parallel resp. reduction loop by a size between 1 and its range, and
  1.2 times the estimated footprint of that tile is at most the size of the
  DTCM. (The comparison is made in double arithmetic and is exact.)
\<close>

theorem dtcm_pass_fits:
  assumes "llvm_ok L" "iree_ok I" "dtcm_ready M f t op ci d" "0 \<le> kb" "kb < 2 ^ 21"
    "runDTCMPass L M I kb f = Some (PassOk f')"
  shows "\<exists>ci' cp cr. f' = setCompilationInfo (an_root (tilingAnalysis M f)) ci' f \<and>
    info_sizes I ci' CacheParallelTiles = Some cp \<and> info_sizes I ci' CacheReductionTiles = Some cr \<and>
    tile_bounds (classifyLoops M op) (getStaticLoopRanges M op) cp cr \<and>
    6 * estimateFootprint M op (merge_tiles cp cr) \<le> 5 * (kb * 1024)"
  using assms(1,3,4,5)
proof (rule runDTCMPass_cases)
  fix st
  assume run: "runDTCMPass L M I kb f = Some (PassOk (setCompilationInfo (an_root (tilingAnalysis M f))
         (dtcm_info I ci d (classifyLoops M op) st) f))"
    and inv: "dtcm_inv (classifyLoops M op) (getStaticLoopRanges M op) (max_tile I t op) st"
    and fit: "6 * estimateFootprint M op (ds_tiles st) \<le> 5 * (kb * 1024)"
  have d: "distinct (map fst d)" and an: "analysed M f t op" using assms(3) by (simp_all add: dtcm_ready_def)
  have tw: "tiles_within (getStaticLoopRanges M op) (ds_tiles st)" using inv by (simp add: dtcm_inv_def)
  note wf = analysedD(8)[OF an]
  show ?thesis
    using run assms(6) fit dtcm_info_levels(1,2)[OF assms(2) d, of ci "classifyLoops M op" st]
      dtcm_tile_bounds[OF wf tw] merge_dtcm_sizes[of "ds_tiles st" "classifyLoops M op"] wf tiles_withinD(1)[OF tw]
    by (intro exI[of _ "dtcm_info I ci d (classifyLoops M op) st"]) simp
qed (use assms(6) in simp)

lemma dtcm_run_ok:
  "\<exists>f'. runDTCMPass llvm_ref mlir_ref iree_ref 8 (registered_matmul 64 96 64 (IntT 32)) = Some (PassOk f')"
proof -
  have "sizes_of (runDTCMPass llvm_ref mlir_ref iree_ref 8 (registered_matmul 64 96 64 (IntT 32)))
      CacheParallelTiles \<noteq> None"
    by code_simp
  then show ?thesis by (auto simp: sizes_of_def split: option.splits pass_result.splits)
qed

lemma dtcm_pass_fits_witness:
  "\<exists>f' ci' cp cr. runDTCMPass llvm_ref mlir_ref iree_ref 8 (registered_matmul 64 96 64 (IntT 32)) = Some (PassOk f') \<and>
    f' = setCompilationInfo (an_root (tilingAnalysis mlir_ref (registered_matmul 64 96 64 (IntT 32)))) ci'
      (registered_matmul 64 96 64 (IntT 32)) \<and>
    info_sizes iree_ref ci' CacheParallelTiles = Some cp \<and> info_sizes iree_ref ci' CacheReductionTiles = Some cr \<and>
    6 * estimateFootprint mlir_ref (matmul_op 64 96 64 (IntT 32)) (merge_tiles cp cr) \<le> 5 * (8 * 1024)"
proof -
  from dtcm_run_ok obtain f' where
    f': "runDTCMPass llvm_ref mlir_ref iree_ref 8 (registered_matmul 64 96 64 (IntT 32)) = Some (PassOk f')"
    by blast
  show ?thesis
    using dtcm_pass_fits[OF llvm_ref_ok iree_ref_ok registered_ready _ _ f'] f' by auto
qed

text \<open>
  The cap on parallel tiles: on success a vector or unroll loop is tiled
  by at most 16 (64 with the matrix unit), unless the pass fell back to
  alignment 1, and then the register tile of that loop is 1.
\<close>

theorem dtcm_pass_cap:
  assumes "llvm_ok L" "iree_ok I" "dtcm_ready M f t op ci d" "0 \<le> kb" "kb < 2 ^ 21"
    "runDTCMPass L M I kb f = Some (PassOk f')"
  shows "\<exists>ci' cp. f' = setCompilationInfo (an_root (tilingAnalysis M f)) ci' f \<and>
    info_sizes I ci' CacheParallelTiles = Some cp \<and>
    ((\<forall>i \<in> set (vectorLoops (classifyLoops M op) @ unrollLoops (classifyLoops M op)).
        cp ! i \<le> max_tile I t op) \<or>
     (\<exists>vp. info_sizes I ci' VectorCommonParallelTiles = Some vp \<and>
       (\<forall>i \<in> set (vectorLoops (classifyLoops M op) @ unrollLoops (classifyLoops M op)). vp ! i = 1)))"
  using assms(1,3,4,5)
proof (rule runDTCMPass_cases)
  fix st
  let ?c = "classifyLoops M op"
  assume run: "runDTCMPass L M I kb f = Some (PassOk (setCompilationInfo (an_root (tilingAnalysis M f))
         (dtcm_info I ci d ?c st) f))"
    and inv: "dtcm_inv ?c (getStaticLoopRanges M op) (max_tile I t op) st"
  have d: "distinct (map fst d)" and an: "analysed M f t op" using assms(3) by (simp_all add: dtcm_ready_def)
  have tw: "tiles_within (getStaticLoopRanges M op) (ds_tiles st)" using inv by (simp add: dtcm_inv_def)
  have wf: "loops_wf (length (ds_tiles st)) ?c" using analysedD(8)[OF an] tiles_withinD(1)[OF tw] by simp
  have idx: "i < length (ds_tiles st)" "i \<notin> set (reductionLoops ?c)" "1 \<le> ds_tiles st ! i"
    if "i \<in> set (vectorLoops ?c @ unrollLoops ?c)" for i
    using that loops_wfD(5,6)[OF wf, of i] loops_wf_disjoint(1,2)[OF wf, of i]
      tiles_withinD(1)[OF tw] tiles_withinD(2)[OF tw, of i] by auto
  note lv = dtcm_info_levels[OF assms(2) d, of ci ?c st]
  show ?thesis
  proof (cases "ds_fallback st")
    case True
    then have "\<forall>i \<in> set (vectorLoops ?c @ unrollLoops ?c). fallback_parallel_sizes ?c (ds_tiles st) ! i = 1"
      using idx by (auto simp: fallback_parallel_nth[OF wf])
    then show ?thesis using run assms(6) lv True by auto
  next
    case False
    then have "\<forall>i \<in> set (vectorLoops ?c @ unrollLoops ?c).
        dist_parallel_sizes ?c (ds_tiles st) ! i \<le> max_tile I t op"
      using inv idx(1,2) by (auto simp: dtcm_inv_def list_all_iff dist_parallel_nth[OF wf])
    then show ?thesis using run assms(6) lv by auto
  qed
qed (use assms(6) in simp)

lemma dtcm_pass_cap_witness:
  "\<exists>f' ci' cp. runDTCMPass llvm_ref mlir_ref iree_ref 8 (registered_matmul 64 96 64 (IntT 32)) = Some (PassOk f') \<and>
    f' = setCompilationInfo (an_root (tilingAnalysis mlir_ref (registered_matmul 64 96 64 (IntT 32)))) ci'
      (registered_matmul 64 96 64 (IntT 32)) \<and>
    info_sizes iree_ref ci' CacheParallelTiles = Some cp"
proof -
  from dtcm_run_ok obtain f' where
    f': "runDTCMPass llvm_ref mlir_ref iree_ref 8 (registered_matmul 64 96 64 (IntT 32)) = Some (PassOk f')"
    by blast
  show ?thesis
    using dtcm_pass_cap[OF llvm_ref_ok iree_ref_ok registered_ready _ _ f'] f' by auto
qed



text \<open>
  A tile that is not a multiple of the register tile: for the
  \<open>1024 x 1024 x 1024\<close> matmul of \<open>tiling_levels_explained.md\<close> the two passes
  select the DTCM tile \<open>[4, 16, 64]\<close> for the register tile \<open>[4, 24, 1]\<close>: the cap
  of 16 comes after the alignment, and the tile is smaller than the register
  tile (the document derives \<open>[4, 24, 32]\<close>).
\<close>

theorem matmul_1024_tiles:
  "sizes_of (runDTCMPass llvm_ref mlir_ref iree_ref 8 (registered_matmul 1024 1024 1024 (IntT 32)))
     CacheParallelTiles = Some [4, 16, 0] \<and>
   sizes_of (runDTCMPass llvm_ref mlir_ref iree_ref 8 (registered_matmul 1024 1024 1024 (IntT 32)))
     CacheReductionTiles = Some [0, 0, 64] \<and>
   sizes_of (runDTCMPass llvm_ref mlir_ref iree_ref 8 (registered_matmul 1024 1024 1024 (IntT 32)))
     VectorCommonParallelTiles = Some [4, 24, 0]"
  by (intro conjI; code_simp)

end
