(* ===== verification/TileWorkgroup.thy ===== *)
theory TileWorkgroup
  imports TileDTCM
begin

text \<open>
  The workgroup pass of \<open>CoralNPUTileSizeSelection.cpp\<close> (1087-1170), and the
  three passes in the order \<open>CoralNPUTargetBackend::buildConfigurationPassPipeline\<close>
  (\<open>CoralNPUTargetBackend.cpp\<close> 239-261) runs them, with the options it copies.
\<close>

section \<open>Model\<close>

definition workgroup_info :: "iree_api \<Rightarrow> compilation_info \<Rightarrow> config_item list \<Rightarrow> compilation_info" where
  "workgroup_info I ci oldDict =
    (let cacheParallelAttr = getLevelAttr I oldDict CacheParallelTiles;
         configItems = updateConfigItem (levelName I DistributionTiles) cacheParallelAttr oldDict
     in \<lparr>ci_lowering = CpuLoweringConfig (dictGet I configItems), ci_pipeline = ci_pipeline ci\<rparr>)"

definition runWorkgroupPass :: "mlir_api \<Rightarrow> iree_api \<Rightarrow> func_op \<Rightarrow> func_op pass_result" where
  "runWorkgroupPass M I f =
    (case fn_target f of
       None \<Rightarrow> PassOk f
     | Some targetAttr \<Rightarrow>
       (if tgt_backend targetAttr \<noteq> ''coralnpu'' then PassOk f
        else let an = tilingAnalysis M f
             in if \<not> an_ok an then PassFailure ''tiling analysis failed''
                else if \<not> an_hasComputeOps an then PassOk f
                else case fn_info f (an_root an) of
                  None \<Rightarrow> PassFailure ''missing compilation info''
                | Some ci \<Rightarrow>
                  (case cpu_items ci of
                     None \<Rightarrow> PassFailure ''expected CPU lowering config''
                   | Some oldDict \<Rightarrow>
                     (if \<not> hasTilingLevel I oldDict CacheParallelTiles
                      then PassFailure ''missing CacheParallelTiles config''
                      else PassOk (setCompilationInfo (an_root an) (workgroup_info I ci oldDict) f)))))"

text \<open>\<open>CoralNPUOptions\<close>, the fields the tiling passes read, with their defaults.\<close>

record coralnpu_options =
  opt_dtcmSizeKb :: int
  opt_numVectorRegisters :: int
  opt_tileParallelAlignment :: int
  opt_tileVectorAlignment :: int
  opt_tileUnrollAlignment :: int
  opt_tileReductionAlignment :: int

definition coralnpu_defaults :: coralnpu_options where
  "coralnpu_defaults = \<lparr>opt_dtcmSizeKb = 8, opt_numVectorRegisters = 32, opt_tileParallelAlignment = 0,
     opt_tileVectorAlignment = 0, opt_tileUnrollAlignment = 0, opt_tileReductionAlignment = 1\<rparr>"

definition register_options_of :: "coralnpu_options \<Rightarrow> register_options" where
  "register_options_of o1 = register_defaults
     \<lparr>numVectorRegisters := opt_numVectorRegisters o1, vectorAlignment := opt_tileVectorAlignment o1,
      unrollAlignment := opt_tileUnrollAlignment o1, reductionAlignment := opt_tileReductionAlignment o1,
      parallelAlignment := opt_tileParallelAlignment o1\<rparr>"

text \<open>The three passes on one function; a pass that fails ends the pipeline.\<close>

definition runConfigurationPipeline ::
  "llvm_api \<Rightarrow> mlir_api \<Rightarrow> iree_api \<Rightarrow> coralnpu_options \<Rightarrow> func_op \<Rightarrow> func_op pass_result option" where
  "runConfigurationPipeline L M I o1 f =
    (case runRegisterPass L M I (register_options_of o1) f of
       PassOk f1 \<Rightarrow>
         (case runDTCMPass L M I (opt_dtcmSizeKb o1) f1 of
            None \<Rightarrow> None
          | Some (PassOk f2) \<Rightarrow> Some (runWorkgroupPass M I f2)
          | Some r \<Rightarrow> Some r)
     | r \<Rightarrow> Some r)"

section \<open>Lemmas\<close>

lemma tilingAnalysis_cong: "fn_ops g = fn_ops f \<Longrightarrow> tilingAnalysis M g = tilingAnalysis M f"
  by (simp only: tilingAnalysis_def)

lemma tilingAnalysis_setCompilationInfo [simp]:
  "tilingAnalysis M (setCompilationInfo r ci f) = tilingAnalysis M f"
  by (rule tilingAnalysis_cong) (simp add: setCompilationInfo_def)

lemma setCompilationInfo_simps [simp]:
  "fn_target (setCompilationInfo r ci f) = fn_target f"
  "fn_ops (setCompilationInfo r ci f) = fn_ops f"
  "fn_info (setCompilationInfo r ci f) r = Some ci"
  "r' \<noteq> r \<Longrightarrow> fn_info (setCompilationInfo r ci f) r' = fn_info f r'"
  "setCompilationInfo r ci' (setCompilationInfo r ci f) = setCompilationInfo r ci' f"
  by (simp_all add: setCompilationInfo_def)

lemma analysed_setCompilationInfo [simp]:
  "analysed M (setCompilationInfo r ci f) t op = analysed M f t op"
  by (simp add: analysed_def)

lemma workgroup_info_levels:
  assumes I: "iree_ok I" and d: "distinct (map fst d)"
    and cp: "map_of d (levelName I CacheParallelTiles) = Some a"
  shows "info_sizes I (workgroup_info I ci d) DistributionTiles = Some (attr_sizes a)"
    "l \<noteq> DistributionTiles \<Longrightarrow> info_sizes I (workgroup_info I ci d) l =
       map_option attr_sizes (map_of d (levelName I l))"
proof -
  let ?items = "updateConfigItem (levelName I DistributionTiles) (getLevelAttr I d CacheParallelTiles) d"
  have mo: "map_of (dictGet I ?items) = map_of ?items"
    using iree_laws(3)[OF I] config.inv_update[OF d] by blast
  have lv: "info_sizes I (workgroup_info I ci d) l =
      map_option attr_sizes (map_of (dictGet I ?items) (levelName I l))" for l
    by (rule info_sizes_None[OF I]) (simp add: workgroup_info_def Let_def)
  show "info_sizes I (workgroup_info I ci d) DistributionTiles = Some (attr_sizes a)"
    unfolding lv mo config.lookup_update[OF d] using iree_laws(6)[OF I cp] by simp
  show "l \<noteq> DistributionTiles \<Longrightarrow> info_sizes I (workgroup_info I ci d) l =
       map_option attr_sizes (map_of d (levelName I l))"
    by (simp add: lv mo config.lookup_update[OF d] iree_laws(1)[OF I])
qed

lemma register_info_items:
  assumes "iree_ok I"
  shows "\<exists>d. cpu_items (register_info I op vp vr) = Some d \<and> distinct (map fst d) \<and>
    map_of d (levelName I VectorCommonParallelTiles) = Some (getTilingLevelAttr vp) \<and>
    map_of d (levelName I VectorReductionTiles) = Some (getTilingLevelAttr vr)"
  using assms by (simp add: register_info_def Let_def cpu_items_def iree_laws)

lemma dtcm_info_items:
  assumes I: "iree_ok I" and d: "distinct (map fst d)"
  shows "\<exists>d'. cpu_items (dtcm_info I ci d c st) = Some d' \<and> distinct (map fst d') \<and>
    map_of d' (levelName I CacheParallelTiles) =
      Some (getTilingLevelAttr (dist_parallel_sizes c (ds_tiles st))) \<and>
    (\<forall>l. map_option attr_sizes (map_of d' (levelName I l)) = info_sizes I (dtcm_info I ci d c st) l)"
proof -
  let ?items = "fold (\<lambda>(name, attr). updateConfigItem name attr) (dtcm_updates I c st) d"
  have dis: "distinct (map fst ?items)" using config.inv_updates[OF d] .
  have mo: "map_of (dictGet I ?items) = map_of ?items" using iree_laws(3)[OF I dis] .
  have lv: "info_sizes I (dtcm_info I ci d c st) l =
      map_option attr_sizes (map_of (dictGet I ?items) (levelName I l))" for l
    by (rule info_sizes_None[OF I]) (simp add: dtcm_info_def)
  have "map_of ?items (levelName I CacheParallelTiles) =
      Some (getTilingLevelAttr (dist_parallel_sizes c (ds_tiles st)))"
    using config.lookup_updates[OF d, of "dtcm_updates I c st" "levelName I CacheParallelTiles"]
    by (simp add: dtcm_updates_def iree_laws(1)[OF I])
  then show ?thesis
    using iree_laws(2)[OF I dis] mo lv
    by (intro exI[of _ "dictGet I ?items"]) (simp add: cpu_items_def dtcm_info_def)
qed

lemma workgroup_pass_levels:
  assumes "iree_ok I" "dtcm_ready M f t op ci d" "hasTilingLevel I d CacheParallelTiles"
  shows "\<exists>ci'. runWorkgroupPass M I f = PassOk (setCompilationInfo (an_root (tilingAnalysis M f)) ci' f) \<and>
    info_sizes I ci' DistributionTiles = info_sizes I ci CacheParallelTiles \<and>
    (\<forall>l. l = DistributionTiles \<or> info_sizes I ci' l = info_sizes I ci l)"
proof -
  have an: "analysed M f t op" and ci: "fn_info f (an_root (tilingAnalysis M f)) = Some ci"
    and d: "cpu_items ci = Some d" "distinct (map fst d)"
    using assms(2) by (simp_all add: dtcm_ready_def)
  note A = analysedD[OF an]
  obtain a where a: "map_of d (levelName I CacheParallelTiles) = Some a"
    using assms(3) by (auto simp: iree_laws[OF assms(1)])
  have low: "ci_lowering ci = CpuLoweringConfig d"
    using d(1) by (simp add: cpu_items_def split: lowering_config.splits)
  have old: "info_sizes I ci l = map_option attr_sizes (map_of d (levelName I l))" for l
    by (rule info_sizes_None[OF assms(1) low])
  show ?thesis
    using assms(3) workgroup_info_levels[OF assms(1) d(2) a, where ci = ci]
    by (intro exI[of _ "workgroup_info I ci d"])
      (auto simp: runWorkgroupPass_def A(1-5) ci d(1) Let_def old a)
qed

section \<open>Properties\<close>

text \<open>
  The workgroup pass makes the distribution tile equal to the DTCM
  parallel tile and leaves every other tiling level as it was.
\<close>

theorem workgroup_pass_distribution:
  assumes "iree_ok I" "dtcm_ready M f t op ci d" "hasTilingLevel I d CacheParallelTiles"
  shows "\<exists>ci'. runWorkgroupPass M I f = PassOk (setCompilationInfo (an_root (tilingAnalysis M f)) ci' f) \<and>
    info_sizes I ci' DistributionTiles = info_sizes I ci CacheParallelTiles \<and>
    (\<forall>l. l = DistributionTiles \<or> info_sizes I ci' l = info_sizes I ci l)"
  using assms by (rule workgroup_pass_levels)

lemma workgroup_pass_distribution_witness:
  "\<exists>ci'. runWorkgroupPass mlir_ref iree_ref
     (setCompilationInfo 0 \<lparr>ci_lowering = CpuLoweringConfig [(''cache_parallel'', TilingLevelAttr [4, 16, 0] [])],
        ci_pipeline = CPUDefault\<rparr> (registered_matmul 64 96 64 (IntT 32))) =
     PassOk (setCompilationInfo 0 ci' (registered_matmul 64 96 64 (IntT 32))) \<and>
    info_sizes iree_ref ci' DistributionTiles = Some [4, 16, 0]"
proof -
  let ?d = "[(''cache_parallel'', TilingLevelAttr [4, 16, 0] [])]"
  let ?ci = "\<lparr>ci_lowering = CpuLoweringConfig ?d, ci_pipeline = CPUDefault\<rparr>"
  let ?f = "setCompilationInfo 0 ?ci (registered_matmul 64 96 64 (IntT 32))"
  have root: "an_root (tilingAnalysis mlir_ref (registered_matmul 64 96 64 (IntT 32))) = 0" by code_simp
  have "dtcm_ready mlir_ref ?f plain_target (matmul_op 64 96 64 (IntT 32)) ?ci ?d"
    using registered_ready by (simp add: dtcm_ready_def root cpu_items_def)
  moreover have "hasTilingLevel iree_ref ?d CacheParallelTiles" by code_simp
  moreover have "info_sizes iree_ref ?ci CacheParallelTiles = Some [4, 16, 0]" by code_simp
  ultimately show ?thesis
    using workgroup_pass_distribution[of iree_ref mlir_ref ?f plain_target "matmul_op 64 96 64 (IntT 32)" ?ci ?d]
    by (auto simp: root)
qed

text \<open>The register pass within the pipeline, and the state it hands to the DTCM pass.\<close>

lemma register_stage:
  assumes L: "llvm_ok L" and I: "iree_ok I" and o1: "opts_sane o1"
    and an: "analysed M f t op" and e: "elem_size_bytes M op = Some e" "0 < e" and vl: "8 * e \<le> register_vlen L o1 f"
  obtains vp vr d where "runRegisterPass L M I o1 f =
      PassOk (setCompilationInfo (an_root (tilingAnalysis M f)) (register_info I op vp vr) f)"
    "tile_bounds (classifyLoops M op) (getStaticLoopRanges M op) vp vr"
    "dtcm_ready M (setCompilationInfo (an_root (tilingAnalysis M f)) (register_info I op vp vr) f) t op (register_info I op vp vr) d"
    "distinct (map fst d)" "map_of d (levelName I VectorCommonParallelTiles) = Some (getTilingLevelAttr vp)"
    "map_of d (levelName I VectorReductionTiles) = Some (getTilingLevelAttr vr)"
proof -
  have "e \<le> register_vlen L o1 f div 8" using vl by simp
  then have "1 \<le> (register_vlen L o1 f div 8) div e" using zdiv_mono1[of e "register_vlen L o1 f div 8" e] e(2) by simp
  then have vw: "0 < (register_vlen L o1 f sdiv 8) sdiv e" using e(2) vl by simp
  obtain vp vr where reg: "runRegisterPass L M I o1 f =
      PassOk (setCompilationInfo (an_root (tilingAnalysis M f)) (register_info I op vp vr) f)"
    "tile_bounds (classifyLoops M op) (getStaticLoopRanges M op) vp vr"
    using runRegisterPass_result[OF L I o1 an e refl vw] by blast
  obtain d where d: "cpu_items (register_info I op vp vr) = Some d" "distinct (map fst d)"
    "map_of d (levelName I VectorCommonParallelTiles) = Some (getTilingLevelAttr vp)"
    "map_of d (levelName I VectorReductionTiles) = Some (getTilingLevelAttr vr)"
    using register_info_items[OF I] by blast
  have "dtcm_ready M (setCompilationInfo (an_root (tilingAnalysis M f)) (register_info I op vp vr) f) t op (register_info I op vp vr) d"
    using an d by (simp add: dtcm_ready_def)
  from that[OF reg this d(2-4)] show thesis .
qed

text \<open>
  C1. End to end. On an analysed function with sane options the pipeline
  ends: either it reports that a single iteration does not fit the DTCM,
  and 1.2 times its footprint indeed exceeds it, or it attaches one
  configuration in which the DTCM tile is within the loop ranges and fits,
  the distribution tile equals it, and the register tile is either the one
  of the register pass, within the ranges, or has been reset by the
  fallback.
\<close>

theorem configuration_pipeline:
  assumes L: "llvm_ok L" and I: "iree_ok I" and o1: "opts_sane (register_options_of o1)"
    and an: "analysed M f t op" and e: "elem_size_bytes M op = Some e" "0 < e"
    and vl: "8 * e \<le> register_vlen L (register_options_of o1) f"
    and kb: "0 \<le> opt_dtcmSizeKb o1" "opt_dtcmSizeKb o1 < 2 ^ 21"
  shows "(\<exists>msg. runConfigurationPipeline L M I o1 f = Some (PassFailure msg) \<and>
      5 * (opt_dtcmSizeKb o1 * 1024) < 6 * estimateFootprint M op (replicate (length (til_iters op)) 1)) \<or>
    (\<exists>ci cp cr vp vr. runConfigurationPipeline L M I o1 f =
        Some (PassOk (setCompilationInfo (an_root (tilingAnalysis M f)) ci f)) \<and>
      info_sizes I ci DistributionTiles = Some cp \<and> info_sizes I ci CacheParallelTiles = Some cp \<and>
      info_sizes I ci CacheReductionTiles = Some cr \<and>
      info_sizes I ci VectorCommonParallelTiles = Some vp \<and> info_sizes I ci VectorReductionTiles = Some vr \<and>
      tile_bounds (classifyLoops M op) (getStaticLoopRanges M op) cp cr \<and>
      6 * estimateFootprint M op (merge_tiles cp cr) \<le> 5 * (opt_dtcmSizeKb o1 * 1024) \<and>
      (tile_bounds (classifyLoops M op) (getStaticLoopRanges M op) vp vr \<or>
       vp = fallback_parallel_sizes (classifyLoops M op) (merge_tiles cp cr)))"
proof -
  let ?r = "an_root (tilingAnalysis M f)" and ?c = "classifyLoops M op"
    and ?rg = "getStaticLoopRanges M op"
  obtain vp vr d where reg: "runRegisterPass L M I (register_options_of o1) f =
      PassOk (setCompilationInfo ?r (register_info I op vp vr) f)" and tb: "tile_bounds ?c ?rg vp vr"
    and ready: "dtcm_ready M (setCompilationInfo ?r (register_info I op vp vr) f) t op (register_info I op vp vr) d"
    and d: "distinct (map fst d)" and dl: "map_of d (levelName I VectorCommonParallelTiles) = Some (getTilingLevelAttr vp)"
      "map_of d (levelName I VectorReductionTiles) = Some (getTilingLevelAttr vr)"
    using L I o1 an e vl by (rule register_stage)
  let ?ci1 = "register_info I op vp vr"
  let ?f1 = "setCompilationInfo ?r ?ci1 f"
  from L ready kb show ?thesis
  proof (rule runDTCMPass_cases)
    fix st
    let ?ci2 = "dtcm_info I ?ci1 d ?c st"
    let ?f2 = "setCompilationInfo ?r ?ci2 f"
    assume run: "runDTCMPass L M I (opt_dtcmSizeKb o1) ?f1 =
        Some (PassOk (setCompilationInfo (an_root (tilingAnalysis M ?f1)) ?ci2 ?f1))"
      and inv: "dtcm_inv ?c ?rg (max_tile I t op) st"
      and fit: "6 * estimateFootprint M op (ds_tiles st) \<le> 5 * (opt_dtcmSizeKb o1 * 1024)"
    obtain d' where d': "cpu_items ?ci2 = Some d'" "distinct (map fst d')"
        "map_of d' (levelName I CacheParallelTiles) = Some (getTilingLevelAttr (dist_parallel_sizes ?c (ds_tiles st)))"
      using dtcm_info_items[OF I d] by blast
    have ready2: "dtcm_ready M ?f2 t op ?ci2 d'" using an d' by (simp add: dtcm_ready_def)
    have "hasTilingLevel I d' CacheParallelTiles" using d'(3) by (simp add: iree_laws[OF I])
    from workgroup_pass_levels[OF I ready2 this] obtain ci' where
      wg: "runWorkgroupPass M I ?f2 = PassOk (setCompilationInfo ?r ci' f)"
        "info_sizes I ci' DistributionTiles = info_sizes I ?ci2 CacheParallelTiles"
        "\<And>l. l \<noteq> DistributionTiles \<Longrightarrow> info_sizes I ci' l = info_sizes I ?ci2 l"
      by auto
    have tw: "tiles_within ?rg (ds_tiles st)" using inv by (simp add: dtcm_inv_def)
    have wf: "loops_wf (length ?rg) ?c" using analysedD(8)[OF an] .
    have wf': "loops_wf (length (ds_tiles st)) ?c" using wf tiles_withinD(1)[OF tw] by simp
    have pipe: "runConfigurationPipeline L M I o1 f = Some (PassOk (setCompilationInfo ?r ci' f))"
      using reg run wg(1) by (simp add: runConfigurationPipeline_def)
    show ?thesis
      using pipe wg(2,3) fit tb dtcm_tile_bounds[OF wf tw] merge_dtcm_sizes[OF wf']
        dtcm_info_levels[OF I d, of ?ci1 ?c st]
      by (intro disjI2) (auto simp: dl getTilingLevelAttr_def)
  next
    fix msg
    assume "runDTCMPass L M I (opt_dtcmSizeKb o1) ?f1 = Some (PassFailure msg)"
      "5 * (opt_dtcmSizeKb o1 * 1024) < 6 * estimateFootprint M op (replicate (length (til_iters op)) 1)"
    then show ?thesis using reg by (simp add: runConfigurationPipeline_def)
  qed
qed

lemma configuration_pipeline_witness:
  "\<exists>ci cp cr. runConfigurationPipeline llvm_ref mlir_ref iree_ref coralnpu_defaults
      (matmul_func ''+v,+zvl128b'' 64 96 64 (IntT 32)) =
      Some (PassOk (setCompilationInfo 0 ci (matmul_func ''+v,+zvl128b'' 64 96 64 (IntT 32)))) \<and>
    info_sizes iree_ref ci DistributionTiles = Some cp \<and> info_sizes iree_ref ci CacheParallelTiles = Some cp \<and>
    info_sizes iree_ref ci CacheReductionTiles = Some cr \<and>
    6 * estimateFootprint mlir_ref (matmul_op 64 96 64 (IntT 32)) (merge_tiles cp cr) \<le> 5 * (8 * 1024)"
proof -
  let ?f = "matmul_func ''+v,+zvl128b'' 64 96 64 (IntT 32)" and ?op = "matmul_op 64 96 64 (IntT 32)"
  have an: "analysed mlir_ref ?f plain_target ?op" by code_simp
  have sane: "opts_sane (register_options_of coralnpu_defaults)" by code_simp
  have e: "elem_size_bytes mlir_ref ?op = Some 4" by code_simp
  have vl: "8 * 4 \<le> register_vlen llvm_ref (register_options_of coralnpu_defaults) ?f" by code_simp
  have root: "an_root (tilingAnalysis mlir_ref ?f) = 0" by code_simp
  have one: "estimateFootprint mlir_ref ?op (replicate (length (til_iters ?op)) 1) = 12" by code_simp
  have kb: "opt_dtcmSizeKb coralnpu_defaults = 8" by (simp add: coralnpu_defaults_def)
  show ?thesis
    using configuration_pipeline[OF llvm_ref_ok iree_ref_ok sane an e _ vl]
    unfolding kb one root by auto
qed

text \<open>
  After a fallback the batch loops lose their register tile: the pass
  rewrites the vector level with size 0, which means untiled, for every
  batch loop, whatever the register pass had chosen.
\<close>

theorem fallback_drops_batch_tiles:
  assumes "iree_ok I" "distinct (map fst d)" "ds_fallback st" "loops_wf (length (ds_tiles st)) c"
  shows "\<exists>vp. info_sizes I (dtcm_info I ci d c st) VectorCommonParallelTiles = Some vp \<and>
    (\<forall>i \<in> set (batchLoops c). vp ! i = 0)"
proof -
  have "fallback_parallel_sizes c (ds_tiles st) ! i = 0" if "i \<in> set (batchLoops c)" for i
    using that loops_wfD(7)[OF assms(4) that] loops_wf_disjoint(3)[OF assms(4) that]
    by (simp add: fallback_parallel_nth[OF assms(4)])
  then show ?thesis
    using dtcm_info_levels(3)[OF assms(1,2), of ci c st] assms(3) by auto
qed

text \<open>A batch matmul that fits the DTCM of 1 KB only after the fallback.\<close>

definition fallback_func :: func_op where
  "fallback_func =
    (let b = batch_matmul_example;
         big = (\<lambda>d l. l\<lparr>lin_static_ranges := d\<rparr>);
         l = (case til_iface b of LinalgIface l \<Rightarrow> l | _ \<Rightarrow> matmul_linalg 1 1 1 (IntT 8))
     in \<lparr>fn_target = Some plain_target,
         fn_ops = [Some (b\<lparr>til_domain := [Some 8, Some 8, Some 48, Some 16],
                           til_iface := LinalgIface (big [8, 8, 48, 16] l)\<rparr>)],
         fn_info = \<lambda>_. None\<rparr>)"

lemma fallback_drops_batch_tiles_witness:
  "sizes_of (case runRegisterPass llvm_ref mlir_ref iree_ref register_defaults fallback_func of
      PassOk f \<Rightarrow> Some (PassOk f) | _ \<Rightarrow> None) VectorCommonParallelTiles = Some [4, 4, 24, 0] \<and>
   sizes_of (runConfigurationPipeline llvm_ref mlir_ref iree_ref (coralnpu_defaults\<lparr>opt_dtcmSizeKb := 1\<rparr>)
      fallback_func) VectorCommonParallelTiles = Some [0, 1, 1, 0] \<and>
   (\<exists>vp. info_sizes iree_ref (dtcm_info iree_ref registered_info registered_items
        \<lparr>vectorLoops = [1], unrollLoops = [2], reductionLoops = [3], batchLoops = [0]\<rparr>
        \<lparr>ds_aligns = ones, ds_fallback = True, ds_tiles = [8, 1, 6, 1]\<rparr>) VectorCommonParallelTiles = Some vp \<and>
      vp ! 0 = 0)"
proof (intro conjI)
  show "sizes_of (case runRegisterPass llvm_ref mlir_ref iree_ref register_defaults fallback_func of
      PassOk f \<Rightarrow> Some (PassOk f) | _ \<Rightarrow> None) VectorCommonParallelTiles = Some [4, 4, 24, 0]"
    by code_simp
  show "sizes_of (runConfigurationPipeline llvm_ref mlir_ref iree_ref (coralnpu_defaults\<lparr>opt_dtcmSizeKb := 1\<rparr>)
      fallback_func) VectorCommonParallelTiles = Some [0, 1, 1, 0]"
    by code_simp
  have "loops_wf (length [8, 1, 6, 1 :: int])
      \<lparr>vectorLoops = [1], unrollLoops = [2], reductionLoops = [3], batchLoops = [0]\<rparr>"
    by (auto simp: loops_wf_def)
  then show "\<exists>vp. info_sizes iree_ref (dtcm_info iree_ref registered_info registered_items
        \<lparr>vectorLoops = [1], unrollLoops = [2], reductionLoops = [3], batchLoops = [0]\<rparr>
        \<lparr>ds_aligns = ones, ds_fallback = True, ds_tiles = [8, 1, 6, 1]\<rparr>) VectorCommonParallelTiles = Some vp \<and>
      vp ! 0 = 0"
    using fallback_drops_batch_tiles[of iree_ref registered_items
        "\<lparr>ds_aligns = ones, ds_fallback = True, ds_tiles = [8, 1, 6, 1]\<rparr>"
        "\<lparr>vectorLoops = [1], unrollLoops = [2], reductionLoops = [3], batchLoops = [0]\<rparr>" registered_info]
    by (simp add: registered_items_def)
qed

end
