(* ===== verification/AffinityAnnotation.thy ===== *)
theory AffinityAnnotation
  imports LlvmSupport
begin

text \<open>
  The affinity annotation pass (\<open>CoralNPUAffinityAnnotation.cpp\<close>): compute
  operations of supported types whose operands and results exceed a byte
  threshold are placed on the CoralNPU device. An assertion that fails is the
  value \<open>None\<close>; the lemmas show that none does. The operations of a module are
  listed in the order \<open>walk\<close> visits them.
\<close>

section \<open>Model\<close>

record affinity_attr =
  aff_device :: string
  aff_queue_mask :: int

record module_op =
  mo_class :: op_class
  mo_operands :: "mlir_type list"
  mo_results :: "mlir_type list"
  mo_affinity :: "affinity_attr option"

definition isSupportedComputeOp :: "module_op \<Rightarrow> bool" where
  "isSupportedComputeOp op =
    (if mo_class op = MatmulOp \<or> mo_class op = BatchMatmulOp \<or> mo_class op = Mmt4DOp then True
     else if mo_class op = Conv2DNhwcHwcfOp then True
     else False)"

definition isSupportedElementType :: "elem_type \<Rightarrow> bool" where
  "isSupportedElementType t \<longleftrightarrow> t = IntT 8 \<or> t = IntT 16 \<or> t = IntT 32 \<or> t = FloatT 32"

text \<open>\<open>hasStaticShape()\<close>: no dimension is dynamic.\<close>

definition isSupportedType :: "mlir_api \<Rightarrow> mlir_type \<Rightarrow> bool" where
  "isSupportedType M t =
    (case t of
       RankedTensorT shape e \<Rightarrow> kDynamic M \<notin> set shape \<and> isSupportedElementType e
     | ScalarT e \<Rightarrow> isSupportedElementType e
     | _ \<Rightarrow> False)"

definition isSupportedOperandAndResultTypes :: "mlir_api \<Rightarrow> module_op \<Rightarrow> bool" where
  "isSupportedOperandAndResultTypes M op =
    (if list_ex (\<lambda>t. \<not> isSupportedType M t) (mo_operands op) then False
     else if list_ex (\<lambda>t. \<not> isSupportedType M t) (mo_results op) then False
     else True)"

text \<open>\<open>None\<close> is the assertion that the width is a multiple of 8, or a width asked of a
  type that has none.\<close>

definition estimateBytesForType :: "mlir_api \<Rightarrow> mlir_type \<Rightarrow> int option" where
  "estimateBytesForType M t =
    (case t of
       RankedTensorT shape e \<Rightarrow>
         (let elementBits = getIntOrFloatBitWidth M e
          in if elementBits mod 8 \<noteq> 0 then None
             else Some (prod_list shape * int (elementBits div 8)))
     | ScalarT e \<Rightarrow>
         (let bits = getIntOrFloatBitWidth M e
          in if bits mod 8 \<noteq> 0 then None else Some (int (bits div 8)))
     | _ \<Rightarrow> None)"

fun add_bytes :: "mlir_api \<Rightarrow> mlir_type list \<Rightarrow> int \<Rightarrow> int option" where
  "add_bytes M [] totalBytes = Some totalBytes"
| "add_bytes M (t # ts) totalBytes =
     (case estimateBytesForType M t of None \<Rightarrow> None | Some b \<Rightarrow> add_bytes M ts (totalBytes + b))"

definition estimateIOBytes :: "mlir_api \<Rightarrow> module_op \<Rightarrow> int option" where
  "estimateIOBytes M op =
    (case add_bytes M (mo_operands op) 0 of
       None \<Rightarrow> None
     | Some totalBytes \<Rightarrow> add_bytes M (mo_results op) totalBytes)"

text \<open>The result of the device analysis: \<open>None\<close> when it fails, otherwise the device globals with
  the device ids of their targets (\<open>None\<close>: no target set).\<close>

type_synonym device_analysis = "(string \<times> string list option) list option"

fun find_device :: "(string \<times> string list option) list \<Rightarrow> affinity_attr option" where
  "find_device [] = None"
| "find_device ((globalName, None) # gs) = find_device gs"
| "find_device ((globalName, Some targets) # gs) =
     (if list_ex (\<lambda>deviceID. deviceID = ''coralnpu'') targets
      then Some \<lparr>aff_device = globalName, aff_queue_mask = -1\<rparr>
      else find_device gs)"

definition getCoralNPUDeviceAffinityAttr :: "device_analysis \<Rightarrow> affinity_attr option" where
  "getCoralNPUDeviceAffinityAttr da = (case da of None \<Rightarrow> None | Some gs \<Rightarrow> find_device gs)"

definition shouldExecuteOnCoralNPU :: "mlir_api \<Rightarrow> int \<Rightarrow> module_op \<Rightarrow> bool option" where
  "shouldExecuteOnCoralNPU M ioMinThresholdBytes op =
    (if \<not> isSupportedComputeOp op then Some False
     else if \<not> isSupportedOperandAndResultTypes M op then Some False
     else map_option (\<lambda>bytes. ioMinThresholdBytes < bytes) (estimateIOBytes M op))"

text \<open>The callback of \<open>walk\<close>, and the walk.\<close>

definition annotate_op :: "mlir_api \<Rightarrow> int \<Rightarrow> affinity_attr \<Rightarrow> module_op \<Rightarrow> module_op option" where
  "annotate_op M thr a op =
    (if mo_affinity op \<noteq> None then Some op
     else map_option (\<lambda>b. if b then op\<lparr>mo_affinity := Some a\<rparr> else op) (shouldExecuteOnCoralNPU M thr op))"

fun annotate_walk :: "mlir_api \<Rightarrow> int \<Rightarrow> affinity_attr \<Rightarrow> module_op list \<Rightarrow> module_op list option" where
  "annotate_walk M thr a [] = Some []"
| "annotate_walk M thr a (op # ops) =
     (case annotate_op M thr a op of
        None \<Rightarrow> None
      | Some op' \<Rightarrow> map_option (\<lambda>ops'. op' # ops') (annotate_walk M thr a ops))"

definition runAffinityAnnotation ::
  "mlir_api \<Rightarrow> device_analysis \<Rightarrow> int \<Rightarrow> module_op list \<Rightarrow> module_op list option" where
  "runAffinityAnnotation M da thr ops =
    (case getCoralNPUDeviceAffinityAttr da of
       None \<Rightarrow> Some ops
     | Some a \<Rightarrow> annotate_walk M thr a ops)"

section \<open>Lemmas\<close>

fun type_bytes :: "mlir_type \<Rightarrow> int" where
  "type_bytes (RankedTensorT shape (IntT w)) = prod_list shape * int (w div 8)"
| "type_bytes (RankedTensorT shape (FloatT w)) = prod_list shape * int (w div 8)"
| "type_bytes (ScalarT (IntT w)) = int (w div 8)"
| "type_bytes (ScalarT (FloatT w)) = int (w div 8)"
| "type_bytes _ = 0"

lemma estimateBytes_supported:
  "mlir_ok M \<Longrightarrow> isSupportedType M t \<Longrightarrow> estimateBytesForType M t = Some (type_bytes t)"
  by (auto simp: isSupportedType_def estimateBytesForType_def isSupportedElementType_def mlir_laws Let_def
      split: mlir_type.splits)

lemma add_bytes_supported:
  "mlir_ok M \<Longrightarrow> \<forall>t \<in> set ts. isSupportedType M t \<Longrightarrow>
     add_bytes M ts n = Some (n + sum_list (map type_bytes ts))"
  by (induction ts arbitrary: n) (simp_all add: estimateBytes_supported)

lemma supported_types_iff:
  "isSupportedOperandAndResultTypes M op \<longleftrightarrow>
     (\<forall>t \<in> set (mo_operands op @ mo_results op). isSupportedType M t)"
  by (auto simp: isSupportedOperandAndResultTypes_def list_ex_iff)

text \<open>The specification: the operations the pass is meant to place.\<close>

definition io_bytes :: "module_op \<Rightarrow> int" where
  "io_bytes op = sum_list (map type_bytes (mo_operands op @ mo_results op))"

definition placed :: "mlir_api \<Rightarrow> int \<Rightarrow> module_op \<Rightarrow> bool" where
  "placed M thr op \<longleftrightarrow>
     mo_class op \<in> {MatmulOp, BatchMatmulOp, Mmt4DOp, Conv2DNhwcHwcfOp} \<and>
     list_all (isSupportedType M) (mo_operands op @ mo_results op) \<and> thr < io_bytes op"

lemma shouldExecute_spec:
  "mlir_ok M \<Longrightarrow> shouldExecuteOnCoralNPU M thr op = Some (placed M thr op)"
  by (auto simp: shouldExecuteOnCoralNPU_def placed_def isSupportedComputeOp_def supported_types_iff
      list_all_iff estimateIOBytes_def io_bytes_def add_bytes_supported)

definition place :: "mlir_api \<Rightarrow> int \<Rightarrow> affinity_attr \<Rightarrow> module_op \<Rightarrow> module_op" where
  "place M thr a op =
     (if mo_affinity op = None \<and> placed M thr op then op\<lparr>mo_affinity := Some a\<rparr> else op)"

lemma annotate_walk_spec:
  "mlir_ok M \<Longrightarrow> annotate_walk M thr a ops = Some (map (place M thr a) ops)"
  by (induction ops) (auto simp: annotate_op_def shouldExecute_spec place_def)

lemma placed_affinity [simp]: "placed M thr (op\<lparr>mo_affinity := x\<rparr>) = placed M thr op"
  by (simp add: placed_def io_bytes_def)

lemma place_idem [simp]: "place M thr a (place M thr a op) = place M thr a op"
  by (simp add: place_def)

lemma find_device_spec:
  "find_device gs =
     map_option (\<lambda>g. \<lparr>aff_device = fst g, aff_queue_mask = -1\<rparr>)
       (find (\<lambda>g. case snd g of None \<Rightarrow> False | Some ids \<Rightarrow> ''coralnpu'' \<in> set ids) gs)"
  by (induction gs rule: find_device.induct) (auto simp: list_ex_iff)

section \<open>Properties\<close>

text \<open>
  C37. The pass annotates exactly what it should: when the device analysis
  finds a CoralNPU device, an operation gets its affinity iff it has none
  yet, is a matmul, batch matmul, mmt4d or 2D convolution of supported
  static types, and the bytes of its operands and results exceed the
  threshold; every other operation is unchanged and no assertion fails.
  Without such a device nothing changes.
\<close>

theorem affinity_annotation_spec:
  assumes "mlir_ok M"
  shows "runAffinityAnnotation M da thr ops =
    Some (case getCoralNPUDeviceAffinityAttr da of
            None \<Rightarrow> ops
          | Some a \<Rightarrow> map (place M thr a) ops)"
  using annotate_walk_spec[OF assms] by (simp add: runAffinityAnnotation_def split: option.split)

definition annotation_example :: "module_op list" where
  "annotation_example =
    [\<lparr>mo_class = MatmulOp, mo_operands = [RankedTensorT [4, 4] (IntT 8), RankedTensorT [4, 4] (IntT 8),
        RankedTensorT [4, 4] (IntT 32)], mo_results = [RankedTensorT [4, 4] (IntT 32)], mo_affinity = None\<rparr>,
     \<lparr>mo_class = MatmulOp, mo_operands = [RankedTensorT [4, 4] (FloatT 64)], mo_results = [],
      mo_affinity = None\<rparr>]"

lemma affinity_annotation_spec_witness:
  "map_option (map mo_affinity)
     (runAffinityAnnotation mlir_ref (Some [(''cpu'', Some [''local'']), (''npu'', Some [''coralnpu''])]) 100
        annotation_example) =
   Some [Some \<lparr>aff_device = ''npu'', aff_queue_mask = -1\<rparr>, None]"
proof -
  have "map (\<lambda>op. placed mlir_ref 100 op) annotation_example = [True, False]" by code_simp
  then show ?thesis
    by (simp add: affinity_annotation_spec[OF mlir_ref_ok] getCoralNPUDeviceAffinityAttr_def place_def
        annotation_example_def)
qed

text \<open>
  The pass is idempotent and never overrides an affinity that is
  already there.
\<close>

theorem affinity_annotation_idempotent:
  assumes "mlir_ok M" "runAffinityAnnotation M da thr ops = Some ops'"
  shows "runAffinityAnnotation M da thr ops' = Some ops' \<and> length ops' = length ops \<and>
    list_all2 (\<lambda>op op'. (mo_affinity op \<noteq> None \<longrightarrow> op' = op) \<and> op'\<lparr>mo_affinity := None\<rparr> = op\<lparr>mo_affinity := None\<rparr>)
      ops ops'"
proof -
  have ops': "ops' = (case getCoralNPUDeviceAffinityAttr da of
            None \<Rightarrow> ops | Some a \<Rightarrow> map (place M thr a) ops)"
    using assms annotate_walk_spec[OF assms(1)]
    by (simp add: runAffinityAnnotation_def split: option.splits)
  have "runAffinityAnnotation M da thr ops' = Some ops'"
    using annotate_walk_spec[OF assms(1)]
    by (simp add: runAffinityAnnotation_def ops' split: option.split)
  then show ?thesis
    by (auto simp: ops' place_def list_all2_conv_all_nth split: option.split)
qed

lemma affinity_annotation_idempotent_witness:
  "\<exists>ops'. runAffinityAnnotation mlir_ref None 100 annotation_example = Some ops' \<and>
     runAffinityAnnotation mlir_ref None 100 ops' = Some ops'"
proof -
  have "runAffinityAnnotation mlir_ref None 100 annotation_example = Some annotation_example"
    by (simp add: runAffinityAnnotation_def getCoralNPUDeviceAffinityAttr_def)
  from affinity_annotation_idempotent[OF mlir_ref_ok this] this show ?thesis by blast
qed

text \<open>
  The device alias is the first device global whose target set names
  \<open>coralnpu\<close>, with every queue allowed; there is none exactly when the
  analysis fails or no global has such a target.
\<close>

theorem device_affinity_first:
  "getCoralNPUDeviceAffinityAttr da =
    (case da of None \<Rightarrow> None
     | Some gs \<Rightarrow> map_option (\<lambda>g. \<lparr>aff_device = fst g, aff_queue_mask = -1\<rparr>)
         (find (\<lambda>g. case snd g of None \<Rightarrow> False | Some ids \<Rightarrow> ''coralnpu'' \<in> set ids) gs))"
  by (simp add: getCoralNPUDeviceAffinityAttr_def find_device_spec split: option.split)

end
