(* ===== verification/Decimal.thy ===== *)
theory Decimal
  imports LlvmSupport
begin

text \<open>
  Decimal output of integers, as \<open>operator<<\<close>, \<open>std::to_string\<close> and \<open>formatv\<close> print
  them, and that it is read back by the digits of \<open>LlvmSupport\<close>.
\<close>

definition digit_char :: "nat \<Rightarrow> char" where
  "digit_char d = char_of (48 + d)"

fun show_nat :: "nat \<Rightarrow> string" where
  "show_nat n = (if n < 10 then [digit_char n] else show_nat (n div 10) @ [digit_char (n mod 10)])"

declare show_nat.simps [simp del]

definition show_int :: "int \<Rightarrow> string" where
  "show_int i = (if i < 0 then CHR ''-'' # show_nat (nat (- i)) else show_nat (nat i))"

lemma show_nat_small: "n < 10 \<Longrightarrow> show_nat n = [digit_char n]"
  by (simp add: show_nat.simps)

lemma show_nat_big: "\<not> n < 10 \<Longrightarrow> show_nat n = show_nat (n div 10) @ [digit_char (n mod 10)]"
  by (subst show_nat.simps) (rule if_not_P)

lemma digit_val_char [simp]: "d < 10 \<Longrightarrow> digit_val (digit_char d) = int d"
proof -
  assume d: "d < 10"
  have "(of_char (digit_char d) :: int) = int (of_char (digit_char d))"
    by (rule of_nat_of_char[symmetric])
  also have "\<dots> = int (48 + d)" using d by (simp add: digit_char_def)
  finally show ?thesis by (simp add: digit_val_def)
qed

lemma is_digit_char [simp]: "d < 10 \<Longrightarrow> is_digit (digit_char d)"
  by (simp add: is_digit_def)

lemma dec_value_append: "dec_value acc (xs @ [c]) = 10 * dec_value acc xs + digit_val c"
  by (induction xs arbitrary: acc) simp_all

lemma show_nat_digits: "list_all is_digit (show_nat n) \<and> show_nat n \<noteq> []"
proof (induction n rule: show_nat.induct)
  case (1 n)
  show ?case
  proof (cases "n < 10")
    case False
    with 1 show ?thesis by (simp add: show_nat_big)
  qed (simp add: show_nat_small)
qed

lemma dec_value_show_nat [simp]: "dec_value 0 (show_nat n) = int n"
proof (induction n rule: show_nat.induct)
  case (1 n)
  show ?case
  proof (cases "n < 10")
    case False
    then have "dec_value 0 (show_nat n) = 10 * int (n div 10) + int (n mod 10)"
      using 1 by (simp add: show_nat_big dec_value_append)
    also have "\<dots> = int (10 * (n div 10) + n mod 10)" by (simp only: of_nat_add of_nat_mult of_nat_numeral)
    finally show ?thesis by simp
  qed (simp add: show_nat_small)
qed

lemma show_nat_inj: "show_nat m = show_nat n \<Longrightarrow> m = n"
  by (drule arg_cong[where f = "dec_value 0"]) simp

lemma show_nat_digit: "c \<in> set (show_nat n) \<Longrightarrow> is_digit c"
  using show_nat_digits[of n] by (simp add: list_all_iff)

lemma not_digit [simp]:
  "\<not> is_digit (CHR ''-'')" "\<not> is_digit (CHR '','')" "\<not> is_digit (CHR '':'')" "\<not> is_digit (CHR ''_'')"
  "\<not> is_digit (CHR ''('')" "\<not> is_digit (CHR '')'')" "\<not> is_digit (CHR '' '')" "\<not> is_digit (CHR ''x'')"
  by (simp_all add: is_digit_def digit_val_def)

lemma show_int_inj:
  assumes "show_int i = show_int j"
  shows "i = j"
proof -
  have nd: "show_nat m \<noteq> CHR ''-'' # s" for m s
    using show_nat_digit[of "CHR ''-''" m] by auto
  show ?thesis
    using assms nd nd[symmetric] by (auto simp: show_int_def split: if_splits dest!: show_nat_inj)
qed

end
