(* ===== verification/AffinityProfile.thy ===== *)
theory AffinityProfile
  imports Decimal
begin

text \<open>
  The execution profile pass (\<open>CoralNPUDumpAffinityExecutionProfile.cpp\<close>): the
  dispatched functions are analysed, statistics are collected per affinity in
  a \<open>MapVector\<close>, and a report is printed in one of three formats. Operations
  are listed in the order \<open>walk\<close> visits them; counters of type \<open>size_t\<close> are
  naturals. An assertion that fails is \<open>None\<close>.
\<close>

section \<open>IR\<close>

datatype affinity = DeviceAffinity "string list" | OtherAffinity string

datatype select_elem = SelTarget string | SelOther string

datatype device_init = InitTarget string | InitSelect "select_elem list" | InitOther

text \<open>\<open>IREE::Util::GlobalOp\<close>s by symbol path, with their initial value if there is one.\<close>

type_synonym device_globals = "string list \<Rightarrow> device_init option option"

datatype binding_type = DispatchTensorT "int list" elem_type | PlainBinding mlir_type

record exec_func =
  ef_opCount :: int
  ef_bindings :: "binding_type list"

datatype stream_kind = CmdFill | CmdCopy | CmdDispatch "nat list" | CmdOther

record stream_op =
  so_id :: nat
  so_affinity :: "affinity option"
  so_kind :: stream_kind

section \<open>Analysis of the dispatched functions\<close>

record tensor_info =
  ti_numElements :: int
  ti_elementType :: elem_type
  ti_isDynamic :: bool

definition getTensorInfo :: "mlir_api \<Rightarrow> binding_type \<Rightarrow> tensor_info" where
  "getTensorInfo M t =
    (let mk = (\<lambda>shape e self. if kDynamic M \<in> set shape
                then \<lparr>ti_numElements = 1, ti_elementType = self, ti_isDynamic = True\<rparr>
                else \<lparr>ti_numElements = prod_list shape, ti_elementType = e, ti_isDynamic = False\<rparr>)
     in case t of
          DispatchTensorT shape e \<Rightarrow> mk shape e (OtherElemT ''dispatch.tensor'')
        | PlainBinding (RankedTensorT shape e) \<Rightarrow> mk shape e (OtherElemT ''tensor'')
        | PlainBinding (OtherShapedT (Some shape) e) \<Rightarrow> mk shape e (OtherElemT ''shaped'')
        | PlainBinding (OtherShapedT None e) \<Rightarrow>
            \<lparr>ti_numElements = 1, ti_elementType = OtherElemT ''unranked'', ti_isDynamic = True\<rparr>
        | PlainBinding (ScalarT e) \<Rightarrow> \<lparr>ti_numElements = 1, ti_elementType = e, ti_isDynamic = False\<rparr>
        | PlainBinding (OpaqueT s) \<Rightarrow>
            \<lparr>ti_numElements = 1, ti_elementType = OtherElemT s, ti_isDynamic = False\<rparr>)"

text \<open>\<open>getIntOrFloatBitWidth()\<close> asserts that the type is an integer or a float: \<open>None\<close> on \<open>index\<close>.\<close>

definition getElementTypeBitWidth :: "mlir_api \<Rightarrow> elem_type \<Rightarrow> int option" where
  "getElementTypeBitWidth M elType =
    (if isIntOrFloat elType \<or> elType = IndexT
     then (if isIntOrFloat elType then Some (int (getIntOrFloatBitWidth M elType)) else None)
     else Some 32)"

record func_info =
  fi_opCount :: int
  fi_elementCount :: int
  fi_logicalDataSize :: int
  fi_isDynamic :: bool

fun analyze_bindings :: "llvm_api \<Rightarrow> mlir_api \<Rightarrow> binding_type list \<Rightarrow> func_info \<Rightarrow> func_info option" where
  "analyze_bindings L M [] info = Some info"
| "analyze_bindings L M (b # bs) info =
     (let ti = getTensorInfo M b
      in if ti_isDynamic ti then analyze_bindings L M bs (info\<lparr>fi_isDynamic := True\<rparr>)
         else case getElementTypeBitWidth M (ti_elementType ti) of
           None \<Rightarrow> None
         | Some w \<Rightarrow>
             analyze_bindings L M bs
               (info\<lparr>fi_elementCount := fi_elementCount info + ti_numElements ti,
                     fi_logicalDataSize := fi_logicalDataSize info + divideCeil L (ti_numElements ti * w) 8\<rparr>))"

definition analyzeFunc :: "llvm_api \<Rightarrow> mlir_api \<Rightarrow> exec_func \<Rightarrow> func_info option" where
  "analyzeFunc L M f =
     analyze_bindings L M (ef_bindings f)
       \<lparr>fi_opCount = ef_opCount f, fi_elementCount = 0, fi_logicalDataSize = 0, fi_isDynamic = False\<rparr>"

section \<open>Device names\<close>

fun join_slash :: "string list \<Rightarrow> string" where
  "join_slash [] = []"
| "join_slash [s] = s"
| "join_slash (s # t # ts) = s @ ''/'' @ join_slash (t # ts)"

fun select_name :: "select_elem \<Rightarrow> string" where
  "select_name (SelTarget deviceID) = deviceID"
| "select_name (SelOther printed) = printed"

definition resolveDeviceNameImpl :: "device_globals \<Rightarrow> affinity option \<Rightarrow> string" where
  "resolveDeviceNameImpl G aff =
    (case aff of
       None \<Rightarrow> ''Default''
     | Some (OtherAffinity printed) \<Rightarrow> printed
     | Some (DeviceAffinity deviceSymbol) \<Rightarrow>
       (let deviceName = hd deviceSymbol
        in case G deviceSymbol of
             None \<Rightarrow> deviceName
           | Some None \<Rightarrow> deviceName
           | Some (Some (InitTarget deviceID)) \<Rightarrow> deviceID
           | Some (Some (InitSelect devs)) \<Rightarrow> join_slash (map select_name devs)
           | Some (Some InitOther) \<Rightarrow> deviceName))"

section \<open>Usage analysis\<close>

record usage_info =
  ui_dispatchFuncInfos :: "nat \<Rightarrow> func_info option"
  ui_deviceNames :: "affinity \<Rightarrow> string option"
  ui_executeOps :: "stream_op list list"

definition getDeviceName :: "usage_info \<Rightarrow> affinity option \<Rightarrow> string" where
  "getDeviceName ui aff =
    (case aff of
       None \<Rightarrow> ''Default''
     | Some a \<Rightarrow> (case ui_deviceNames ui a of Some n \<Rightarrow> n | None \<Rightarrow> ''Unknown''))"

definition resolveDeviceName :: "device_globals \<Rightarrow> affinity option \<Rightarrow> usage_info \<Rightarrow> usage_info" where
  "resolveDeviceName G aff ui =
    (case aff of
       None \<Rightarrow> ui
     | Some a \<Rightarrow>
       (if ui_deviceNames ui a \<noteq> None then ui
        else ui\<lparr>ui_deviceNames := (ui_deviceNames ui)(a \<mapsto> resolveDeviceNameImpl G aff)\<rparr>))"

text \<open>\<open>forEachEntryPointAttr\<close>: the function table \<open>F\<close> gives the function an entry point refers
  to, \<open>None\<close> a missing one (an assertion); \<open>cache\<close> is \<open>funcInfos\<close>.\<close>

fun analyze_entries :: "llvm_api \<Rightarrow> mlir_api \<Rightarrow> (nat \<Rightarrow> exec_func option) \<Rightarrow> nat \<Rightarrow> nat list
    \<Rightarrow> (nat \<Rightarrow> func_info option) \<times> usage_info \<Rightarrow> ((nat \<Rightarrow> func_info option) \<times> usage_info) option" where
  "analyze_entries L M F op [] st = Some st"
| "analyze_entries L M F op (e # es) (cache, ui) =
     (case F e of
        None \<Rightarrow> None
      | Some f \<Rightarrow>
        (case (case cache e of Some i \<Rightarrow> Some i | None \<Rightarrow> analyzeFunc L M f) of
           None \<Rightarrow> None
         | Some i \<Rightarrow>
             analyze_entries L M F op es
               (cache(e \<mapsto> i), ui\<lparr>ui_dispatchFuncInfos := (ui_dispatchFuncInfos ui)(op \<mapsto> i)\<rparr>)))"

definition analyze_stream_op :: "llvm_api \<Rightarrow> mlir_api \<Rightarrow> device_globals \<Rightarrow> (nat \<Rightarrow> exec_func option) \<Rightarrow> stream_op
    \<Rightarrow> (nat \<Rightarrow> func_info option) \<times> usage_info \<Rightarrow> ((nat \<Rightarrow> func_info option) \<times> usage_info) option" where
  "analyze_stream_op L M G F op st =
    (let ui = resolveDeviceName G (so_affinity op) (snd st)
     in case so_kind op of
          CmdDispatch es \<Rightarrow> analyze_entries L M F (so_id op) es (fst st, ui)
        | _ \<Rightarrow> Some (fst st, ui))"

fun analyze_ops where
  "analyze_ops L M G F [] st = Some st"
| "analyze_ops L M G F (op # ops) st =
     (case analyze_stream_op L M G F op st of None \<Rightarrow> None | Some st' \<Rightarrow> analyze_ops L M G F ops st')"

text \<open>A module is the list of its functions, each the list of its execute operations.\<close>

definition analyze :: "llvm_api \<Rightarrow> mlir_api \<Rightarrow> device_globals \<Rightarrow> (nat \<Rightarrow> exec_func option)
    \<Rightarrow> stream_op list list list \<Rightarrow> usage_info option" where
  "analyze L M G F funcs =
    (let executeOps = concat funcs;
         ui0 = \<lparr>ui_dispatchFuncInfos = (\<lambda>_. None), ui_deviceNames = (\<lambda>_. None), ui_executeOps = executeOps\<rparr>
     in map_option snd (analyze_ops L M G F (concat executeOps) ((\<lambda>_. None), ui0)))"

section \<open>Statistics\<close>

record affinity_stats =
  st_fillCount :: nat
  st_copyCount :: nat
  st_dispatchCount :: nat
  st_staticDispatchCount :: nat
  st_hasDynamicDispatch :: bool
  st_staticDispatchDataSize :: int
  st_staticDispatchElements :: int
  st_staticWorkBytes :: int
  st_staticWorkElements :: int

definition no_stats :: affinity_stats where
  "no_stats = \<lparr>st_fillCount = 0, st_copyCount = 0, st_dispatchCount = 0, st_staticDispatchCount = 0,
     st_hasDynamicDispatch = False, st_staticDispatchDataSize = 0, st_staticDispatchElements = 0,
     st_staticWorkBytes = 0, st_staticWorkElements = 0\<rparr>"

definition analyzeDispatch :: "func_info \<Rightarrow> affinity_stats \<Rightarrow> affinity_stats" where
  "analyzeDispatch i s =
    (if fi_isDynamic i then s\<lparr>st_hasDynamicDispatch := True\<rparr>
     else s\<lparr>st_staticDispatchDataSize := st_staticDispatchDataSize s + fi_logicalDataSize i,
            st_staticDispatchElements := st_staticDispatchElements s + fi_elementCount i,
            st_staticWorkBytes := st_staticWorkBytes s + fi_logicalDataSize i * fi_opCount i,
            st_staticWorkElements := st_staticWorkElements s + fi_elementCount i * fi_opCount i,
            st_staticDispatchCount := st_staticDispatchCount s + 1\<rparr>)"

definition update_stats :: "usage_info \<Rightarrow> stream_op \<Rightarrow> affinity_stats \<Rightarrow> affinity_stats" where
  "update_stats ui op s =
    (case so_kind op of
       CmdFill \<Rightarrow> s\<lparr>st_fillCount := st_fillCount s + 1\<rparr>
     | CmdCopy \<Rightarrow> s\<lparr>st_copyCount := st_copyCount s + 1\<rparr>
     | CmdDispatch _ \<Rightarrow>
         (let s1 = s\<lparr>st_dispatchCount := st_dispatchCount s + 1\<rparr>
          in case ui_dispatchFuncInfos ui (so_id op) of
               Some i \<Rightarrow> analyzeDispatch i s1
             | None \<Rightarrow> s1)
     | CmdOther \<Rightarrow> s)"

type_synonym stats_map = "(affinity option \<times> affinity_stats) list"

text \<open>\<open>affinityStats[affinity]\<close> inserts a zero entry for an affinity seen first.\<close>

definition stats_step :: "usage_info \<Rightarrow> stream_op \<Rightarrow> stats_map \<Rightarrow> stats_map" where
  "stats_step ui op m =
    (let s = (case map_of m (so_affinity op) of Some s \<Rightarrow> s | None \<Rightarrow> no_stats)
     in assoc_put (so_affinity op) (update_stats ui op s) m)"

definition analyzeStatistics :: "usage_info \<Rightarrow> stats_map" where
  "analyzeStatistics ui = fold (stats_step ui) (concat (ui_executeOps ui)) []"

section \<open>Reports\<close>

text \<open>Subtraction of \<open>size_t\<close> values wraps around.\<close>

definition size_sub :: "nat \<Rightarrow> nat \<Rightarrow> nat" where
  "size_sub a b = nat ((int a - int b) mod 2 ^ 64)"

definition nl :: string where
  "nl = [CHR 0x0A]"

definition quoted :: "string \<Rightarrow> string" where
  "quoted s = CHR 0x22 # s @ [CHR 0x22]"

text \<open>The pretty report is a sequence of pieces: text, integers, and the floating point
  expressions handed to \<open>formatv\<close>: \<open>PctF1 a b\<close> is \<open>{F1}\<close> of \<open>(a / (double)b) * 100.0\<close>,
  \<open>QuotF2 a c\<close> is \<open>{F2}\<close> of \<open>a / c\<close> for the float constant \<open>c\<close>, \<open>RatioF2 a b\<close> is \<open>{F2}\<close> of \<open>(double)a / b\<close>.\<close>

datatype piece = Txt string | Num int | PctF1 int int | ZeroF1 | QuotF2 int string | RatioF2 int int

definition rule_line :: piece where
  "rule_line = Txt (replicate 72 (CHR ''='') @ nl)"

definition dynamic_count :: "affinity_stats \<Rightarrow> nat" where
  "dynamic_count s = size_sub (st_dispatchCount s) (st_staticDispatchCount s)"

definition incomplete_count :: "affinity_stats \<Rightarrow> piece list" where
  "incomplete_count s =
     (if st_hasDynamicDispatch s then [Txt '' (incomplete, '', Num (int (dynamic_count s)), Txt '' dynamic)''] else [])"

definition pct_of :: "int \<Rightarrow> int \<Rightarrow> piece" where
  "pct_of a b = (if b > 0 then PctF1 a b else ZeroF1)"

definition pretty_entry :: "usage_info \<Rightarrow> int \<Rightarrow> int \<Rightarrow> int \<Rightarrow> affinity option \<times> affinity_stats \<Rightarrow> piece list" where
  "pretty_entry ui totalDispatchCount totalStaticWorkBytes totalStaticWorkElements e =
    (let affinity = fst e; s = snd e; dc = int (st_dispatchCount s)
     in [Txt ''  Affinity: '',
         Txt (if affinity \<noteq> None then getDeviceName ui affinity else ''Default (CPU)''), Txt nl,
         Txt ''    Dispatches: '', Num dc, Txt '' ('', PctF1 dc totalDispatchCount, Txt (''%)'' @ nl),
         Txt ''      Static:    '', Num (int (st_staticDispatchCount s)), Txt '' ('',
         pct_of (int (st_staticDispatchCount s)) dc, Txt (''%)'' @ nl),
         Txt ''      Dynamic:   '', Num (int (dynamic_count s)), Txt '' ('',
         pct_of (int (dynamic_count s)) dc, Txt (''%)'' @ nl),
         Txt ''    Estimated Static Data Size: '',
         QuotF2 (st_staticDispatchDataSize s) ''1024.0f * 1024.0f'', Txt '' MB''] @
        incomplete_count s @ [Txt nl, Txt ''    Estimated Static Elements: '',
         QuotF2 (st_staticDispatchElements s) ''1000000.0f'', Txt '' M''] @
        (if st_staticDispatchElements s > 0
         then [Txt '' ('', RatioF2 (st_staticDispatchDataSize s) (st_staticDispatchElements s),
               Txt '' bytes/element)''] else []) @
        incomplete_count s @ [Txt nl, Txt ''    Estimated Static Work (Op-Bytes): '',
         QuotF2 (st_staticWorkBytes s) ''1000000.0f'', Txt '' M ('',
         pct_of (st_staticWorkBytes s) totalStaticWorkBytes, Txt ''%)''] @
        (if st_hasDynamicDispatch s then [Txt '' (incomplete)''] else []) @
        [Txt nl, Txt ''    Estimated Static Work (Op-Elems): '',
         QuotF2 (st_staticWorkElements s) ''1000000.0f'', Txt '' M ('',
         pct_of (st_staticWorkElements s) totalStaticWorkElements, Txt ''%)''] @
        (if st_hasDynamicDispatch s then [Txt '' (incomplete)''] else []) @
        [Txt nl, Txt ''    Fills:  '', Num (int (st_fillCount s)), Txt nl,
         Txt ''    Copies: '', Num (int (st_copyCount s)), Txt nl])"

definition printReportPretty :: "usage_info \<Rightarrow> stats_map \<Rightarrow> piece list" where
  "printReportPretty ui stats =
    (let header = [rule_line, Txt (''Execution Profile by Affinity:'' @ nl), rule_line];
         totalDispatchCount = fold (\<lambda>(_, s) t. t + int (st_dispatchCount s)) stats 0;
         totalStaticWorkBytes = fold (\<lambda>(_, s) t. t + st_staticWorkBytes s) stats 0;
         totalStaticWorkElements = fold (\<lambda>(_, s) t. t + st_staticWorkElements s) stats 0
     in if totalDispatchCount = 0 then header @ [Txt (''  No dispatches'' @ nl), rule_line]
        else header @
          concat (map (pretty_entry ui totalDispatchCount totalStaticWorkBytes totalStaticWorkElements) stats) @
          [rule_line])"

text \<open>Joining with a separator, as the reports print their fields.\<close>

fun join_with :: "char \<Rightarrow> string list \<Rightarrow> string" where
  "join_with c [] = []"
| "join_with c [s] = s"
| "join_with c (s # t # ts) = s @ c # join_with c (t # ts)"

definition csv_header :: "string list" where
  "csv_header = map quoted [''Affinity'', ''Dispatches'', ''Static'', ''Dynamic'',
     ''Estimated Static Data Size (Bytes)'', ''Estimated Static Elements'',
     ''Estimated Static Work (Op-Bytes)'', ''Estimated Static Work (Op-Elems)'', ''Fills'', ''Copies'']"

definition csv_fields :: "usage_info \<Rightarrow> affinity option \<times> affinity_stats \<Rightarrow> string list" where
  "csv_fields ui e =
    (let s = snd e
     in [quoted (getDeviceName ui (fst e)), show_nat (st_dispatchCount s), show_nat (st_staticDispatchCount s),
         show_nat (dynamic_count s), show_int (st_staticDispatchDataSize s),
         show_int (st_staticDispatchElements s), show_int (st_staticWorkBytes s),
         show_int (st_staticWorkElements s), show_nat (st_fillCount s), show_nat (st_copyCount s)])"

definition printReportCSV :: "usage_info \<Rightarrow> stats_map \<Rightarrow> string" where
  "printReportCSV ui stats =
     join_with (CHR '','') csv_header @ nl @
     concat (map (\<lambda>e. join_with (CHR '','') (csv_fields ui e) @ nl) stats)"

definition json_field :: "string \<Rightarrow> string \<Rightarrow> string" where
  "json_field name value = ''      '' @ quoted name @ '': '' @ value"

definition json_entry :: "usage_info \<Rightarrow> affinity option \<times> affinity_stats \<Rightarrow> string" where
  "json_entry ui e =
    (let s = snd e; dyn = (if st_hasDynamicDispatch s then ''true'' else ''false''); sep = '','' @ nl
     in ''    '' @ quoted (getDeviceName ui (fst e)) @ '': {'' @ nl @
        json_field ''dispatch-count'' (show_nat (st_dispatchCount s)) @ sep @
        json_field ''static-dispatch-count'' (show_nat (st_staticDispatchCount s)) @ sep @
        json_field ''dynamic-dispatch-count'' (show_nat (dynamic_count s)) @ sep @
        json_field ''static-data-size-bytes'' (show_int (st_staticDispatchDataSize s)) @ sep @
        json_field ''has-dynamic-data-size'' dyn @ sep @
        json_field ''static-elements-count'' (show_int (st_staticDispatchElements s)) @ sep @
        json_field ''has-dynamic-elements'' dyn @ sep @
        json_field ''static-work-bytes'' (show_int (st_staticWorkBytes s)) @ sep @
        json_field ''static-work-elements'' (show_int (st_staticWorkElements s)) @ sep @
        json_field ''fill-count'' (show_nat (st_fillCount s)) @ sep @
        json_field ''copy-count'' (show_nat (st_copyCount s)) @ nl @ ''    }'')"

text \<open>The loop over the entries with its \<open>firstAffinity\<close> flag.\<close>

fun json_entries :: "usage_info \<Rightarrow> bool \<Rightarrow> stats_map \<Rightarrow> string" where
  "json_entries ui firstAffinity [] = []"
| "json_entries ui firstAffinity (e # es) =
     (if \<not> firstAffinity then '','' @ nl else []) @ json_entry ui e @ json_entries ui False es"

definition printReportJSON :: "usage_info \<Rightarrow> stats_map \<Rightarrow> string" where
  "printReportJSON ui stats =
     ''{'' @ nl @ ''  '' @ quoted ''affinities'' @ '': {'' @ nl @ json_entries ui True stats @
     nl @ ''  }'' @ nl @ ''}'' @ nl"

section \<open>The pass\<close>

datatype dump_format = NoOutput | Pretty | Verbose | CSV | JSON

datatype destination = ToStderr | ToStdout | ToFile string

text \<open>\<open>can_open\<close> says whether the file can be opened; a failure falls back to \<open>stderr\<close>.\<close>

definition openOutputFile :: "(string \<Rightarrow> bool) \<Rightarrow> string \<Rightarrow> destination" where
  "openOutputFile can_open filePath =
    (if filePath = [] then ToStderr
     else if filePath = ''-'' then ToStdout
     else if can_open filePath then ToFile filePath else ToStderr)"

datatype report = NoReport | PrettyReport destination "piece list" | TextReport destination string

text \<open>\<open>None\<close> is a failed assertion of the analysis.\<close>

definition runDumpProfile :: "llvm_api \<Rightarrow> mlir_api \<Rightarrow> device_globals \<Rightarrow> (nat \<Rightarrow> exec_func option)
    \<Rightarrow> (string \<Rightarrow> bool) \<Rightarrow> dump_format \<Rightarrow> string \<Rightarrow> stream_op list list list \<Rightarrow> report option" where
  "runDumpProfile L M G F can_open outputFormat outputFile funcs =
    (if outputFormat = NoOutput then Some NoReport
     else case analyze L M G F funcs of
       None \<Rightarrow> None
     | Some ui \<Rightarrow>
       (let stats = analyzeStatistics ui; os = openOutputFile can_open outputFile
        in case outputFormat of
             Pretty \<Rightarrow> Some (PrettyReport os (printReportPretty ui stats))
           | Verbose \<Rightarrow> Some (PrettyReport os (printReportPretty ui stats))
           | CSV \<Rightarrow> Some (TextReport os (printReportCSV ui stats))
           | JSON \<Rightarrow> Some (TextReport os (printReportJSON ui stats))
           | NoOutput \<Rightarrow> Some NoReport))"

section \<open>Lemmas\<close>

lemma stats_keys_distinct: "distinct (map fst (fold (stats_step ui) ops m))"
  if "distinct (map fst m)" for m
  using that by (induction ops arbitrary: m) (simp_all add: stats_step_def Let_def distinct_assoc_put)

lemma stats_all:
  assumes "P no_stats" "\<And>op s. P s \<Longrightarrow> P (update_stats ui op s)" "\<forall>e \<in> set m. P (snd e)"
  shows "\<forall>e \<in> set (fold (stats_step ui) ops m). P (snd e)"
proof -
  have put: "\<forall>e \<in> set (assoc_put k v m). P (snd e)" if "P v" "\<forall>e \<in> set m. P (snd e)"
    for k v and m :: stats_map
    using that by (induction k v m rule: assoc_put.induct) auto
  show ?thesis
    using assms(3)
  proof (induction ops arbitrary: m)
    case (Cons op ops)
    have "P (case map_of m (so_affinity op) of Some s \<Rightarrow> s | None \<Rightarrow> no_stats)"
      using Cons.prems assms(1) by (auto split: option.split dest!: map_of_SomeD)
    then have "\<forall>e \<in> set (stats_step ui op m). P (snd e)"
      using put[OF assms(2) Cons.prems] by (simp add: stats_step_def Let_def)
    then show ?case using Cons.IH by simp
  qed simp
qed

lemma sum_assoc_put:
  fixes f :: "affinity_stats \<Rightarrow> nat"
  assumes "distinct (map fst m)"
  shows "sum_list (map (f \<circ> snd) (assoc_put k v m)) + (case map_of m k of Some s \<Rightarrow> f s | None \<Rightarrow> 0) =
    sum_list (map (f \<circ> snd) m) + f v"
  using assms
proof (induction k v m rule: assoc_put.induct)
  case (2 k v n a items)
  then show ?case
  proof (cases "n = k")
    case True
    then have "map_of items k = None" using "2.prems" by (auto simp: map_of_eq_None_iff)
    then show ?thesis using True by simp
  qed simp
qed simp

lemma stats_sum:
  fixes f :: "affinity_stats \<Rightarrow> nat"
  assumes f0: "f no_stats = 0" and step: "\<And>op s. f (update_stats ui op s) = f s + d op"
    and dist: "distinct (map fst m)"
  shows "sum_list (map (f \<circ> snd) (fold (stats_step ui) ops m)) =
    sum_list (map (f \<circ> snd) m) + sum_list (map d ops)"
  using dist
proof (induction ops arbitrary: m)
  case (Cons op ops)
  let ?s = "case map_of m (so_affinity op) of Some s \<Rightarrow> s | None \<Rightarrow> no_stats"
  have "sum_list (map (f \<circ> snd) (stats_step ui op m)) = sum_list (map (f \<circ> snd) m) + d op"
    using sum_assoc_put[OF Cons.prems, of f "so_affinity op" "update_stats ui op ?s"] f0
    by (cases "map_of m (so_affinity op)") (simp_all add: stats_step_def Let_def step)
  moreover have "distinct (map fst (stats_step ui op m))"
    using Cons.prems by (simp add: stats_step_def Let_def distinct_assoc_put)
  ultimately show ?case using Cons.IH by (simp add: comp_def)
qed simp

definition is_dispatch :: "stream_op \<Rightarrow> bool" where
  "is_dispatch op = (case so_kind op of CmdDispatch _ \<Rightarrow> True | _ \<Rightarrow> False)"

lemma update_stats_counts:
  "st_dispatchCount (update_stats ui op s) = st_dispatchCount s + (if is_dispatch op then 1 else 0)"
  "st_fillCount (update_stats ui op s) = st_fillCount s + (if so_kind op = CmdFill then 1 else 0)"
  "st_copyCount (update_stats ui op s) = st_copyCount s + (if so_kind op = CmdCopy then 1 else 0)"
  by (auto simp: update_stats_def is_dispatch_def analyzeDispatch_def Let_def
      split: stream_kind.split option.split)

lemma sum_indicator: "sum_list (map (\<lambda>x. if P x then 1 else 0) xs) = length (filter P xs)"
  by (induction xs) simp_all

text \<open>Device names after the analysis.\<close>

lemma analyze_entries_names:
  "analyze_entries L M F op es st = Some st' \<Longrightarrow>
     ui_deviceNames (snd st') = ui_deviceNames (snd st) \<and> ui_executeOps (snd st') = ui_executeOps (snd st)"
  by (induction L M F op es st rule: analyze_entries.induct) (auto split: option.splits)

lemma analyze_stream_op_names:
  assumes "analyze_stream_op L M G F op st = Some st'"
  shows "ui_deviceNames (snd st') = ui_deviceNames (resolveDeviceName G (so_affinity op) (snd st)) \<and>
    ui_executeOps (snd st') = ui_executeOps (snd st)"
proof -
  have "ui_executeOps (resolveDeviceName G a ui) = ui_executeOps ui" for a ui
    by (simp add: resolveDeviceName_def split: option.split)
  then show ?thesis
    using assms analyze_entries_names[of L M F "so_id op"]
    by (cases "so_kind op") (fastforce simp: analyze_stream_op_def Let_def)+
qed

lemma analyze_ops_names:
  assumes "analyze_ops L M G F ops st = Some st'"
    "\<forall>a n. ui_deviceNames (snd st) a = Some n \<longrightarrow> n = resolveDeviceNameImpl G (Some a)"
  shows "(\<forall>a n. ui_deviceNames (snd st') a = Some n \<longrightarrow> n = resolveDeviceNameImpl G (Some a)) \<and>
    (\<forall>a. ui_deviceNames (snd st) a \<noteq> None \<or> Some a \<in> so_affinity ` set ops \<longrightarrow> ui_deviceNames (snd st') a \<noteq> None) \<and>
    ui_executeOps (snd st') = ui_executeOps (snd st)"
  using assms
proof (induction ops arbitrary: st)
  case (Cons op ops)
  from Cons.prems(1) obtain st1 where st1: "analyze_stream_op L M G F op st = Some st1"
    and rest: "analyze_ops L M G F ops st1 = Some st'"
    by (auto split: option.splits)
  note nm = analyze_stream_op_names[OF st1]
  have inv: "\<forall>a n. ui_deviceNames (snd st1) a = Some n \<longrightarrow> n = resolveDeviceNameImpl G (Some a)"
    using nm Cons.prems(2) by (auto simp: resolveDeviceName_def split: option.splits if_splits)
  have dom: "ui_deviceNames (snd st) a \<noteq> None \<or> so_affinity op = Some a \<Longrightarrow> ui_deviceNames (snd st1) a \<noteq> None" for a
    using nm by (auto simp: resolveDeviceName_def split: option.splits)
  note IH = Cons.IH[OF rest inv]
  have "ui_deviceNames (snd st') a \<noteq> None"
    if "ui_deviceNames (snd st) a \<noteq> None \<or> Some a \<in> so_affinity ` set (op # ops)" for a
  proof -
    have "ui_deviceNames (snd st1) a \<noteq> None \<or> Some a \<in> so_affinity ` set ops"
      using that dom[of a] by auto
    then show ?thesis using IH by blast
  qed
  then show ?case using IH nm by simp
qed simp

lemma stats_keys:
  "fst ` set (fold (stats_step ui) ops m) \<subseteq> fst ` set m \<union> so_affinity ` set ops"
proof (induction ops arbitrary: m)
  case (Cons op ops)
  have "fst ` set (stats_step ui op m) \<subseteq> insert (so_affinity op) (fst ` set m)"
    using keys_assoc_put[of "so_affinity op" _ m] by (auto simp: stats_step_def Let_def)
  with Cons.IH[of "stats_step ui op m"] show ?case by auto
qed simp

lemma names_resolved:
  assumes "analyze L M G F funcs = Some ui" "e \<in> set (analyzeStatistics ui)"
  shows "getDeviceName ui (fst e) = resolveDeviceNameImpl G (fst e) \<and>
    (\<forall>a. fst e = Some a \<longrightarrow> ui_deviceNames ui a \<noteq> None)"
proof -
  let ?ui0 = "\<lparr>ui_dispatchFuncInfos = (\<lambda>_. None), ui_deviceNames = (\<lambda>_. None), ui_executeOps = concat funcs\<rparr>"
  from assms(1) obtain st' where
    run: "analyze_ops L M G F (concat (concat funcs)) ((\<lambda>_. None), ?ui0) = Some st'" and ui: "ui = snd st'"
    by (auto simp: analyze_def Let_def)
  have an: "(\<forall>a n. ui_deviceNames (snd st') a = Some n \<longrightarrow> n = resolveDeviceNameImpl G (Some a)) \<and>
    (\<forall>a. Some a \<in> so_affinity ` set (concat (concat funcs)) \<longrightarrow> ui_deviceNames (snd st') a \<noteq> None) \<and>
    ui_executeOps (snd st') = concat funcs"
    using analyze_ops_names[OF run] by simp
  have ex: "ui_executeOps ui = concat funcs" using an ui by simp
  have key: "fst e \<in> so_affinity ` set (concat (concat funcs))"
    using stats_keys[of ui "concat (ui_executeOps ui)" "[]"] assms(2)
    by (auto simp: analyzeStatistics_def ex)
  show ?thesis
  proof (cases "fst e")
    case None
    then show ?thesis by (simp add: getDeviceName_def resolveDeviceNameImpl_def)
  next
    case (Some a)
    then have "Some a \<in> so_affinity ` set (concat (concat funcs))" using key by simp
    then have "ui_deviceNames ui a \<noteq> None" using an ui by blast
    then obtain n where n: "ui_deviceNames ui a = Some n" by blast
    then have "n = resolveDeviceNameImpl G (Some a)" using an ui by simp
    then show ?thesis using Some n by (simp add: getDeviceName_def)
  qed
qed

section \<open>Properties\<close>

text \<open>
  C38. Conservation: the dispatch, fill and copy counts of the affinities add
  up to the numbers of dispatch, fill and copy operations in the module,
  and every affinity has one entry.
\<close>

theorem profile_counts_conserved:
  "sum_list (map (st_dispatchCount \<circ> snd) (analyzeStatistics ui)) =
     length (filter is_dispatch (concat (ui_executeOps ui))) \<and>
   sum_list (map (st_fillCount \<circ> snd) (analyzeStatistics ui)) =
     length (filter (\<lambda>op. so_kind op = CmdFill) (concat (ui_executeOps ui))) \<and>
   sum_list (map (st_copyCount \<circ> snd) (analyzeStatistics ui)) =
     length (filter (\<lambda>op. so_kind op = CmdCopy) (concat (ui_executeOps ui))) \<and>
   distinct (map fst (analyzeStatistics ui))"
proof -
  note sums = stats_sum[where m = "[]" and ui = ui and ops = "concat (ui_executeOps ui)"]
  have "sum_list (map (st_dispatchCount \<circ> snd) (analyzeStatistics ui)) =
      sum_list (map (\<lambda>op. if is_dispatch op then 1 else 0) (concat (ui_executeOps ui)))"
    using sums[of st_dispatchCount] by (simp add: analyzeStatistics_def no_stats_def update_stats_counts)
  moreover have "sum_list (map (st_fillCount \<circ> snd) (analyzeStatistics ui)) =
      sum_list (map (\<lambda>op. if so_kind op = CmdFill then 1 else 0) (concat (ui_executeOps ui)))"
    using sums[of st_fillCount] by (simp add: analyzeStatistics_def no_stats_def update_stats_counts)
  moreover have "sum_list (map (st_copyCount \<circ> snd) (analyzeStatistics ui)) =
      sum_list (map (\<lambda>op. if so_kind op = CmdCopy then 1 else 0) (concat (ui_executeOps ui)))"
    using sums[of st_copyCount] by (simp add: analyzeStatistics_def no_stats_def update_stats_counts)
  moreover have "distinct (map fst (analyzeStatistics ui))"
    unfolding analyzeStatistics_def by (rule stats_keys_distinct) simp
  ultimately show ?thesis by (simp add: sum_indicator)
qed

definition entry_ok :: "affinity_stats \<Rightarrow> bool" where
  "entry_ok s \<longleftrightarrow> st_staticDispatchCount s + (if st_hasDynamicDispatch s then 1 else 0) \<le> st_dispatchCount s"

text \<open>
  No underflow: in every entry the static dispatches are at most the
  dispatches, so the unsigned subtraction that prints the dynamic count
  gives the true difference (counts below \<open>2 ^ 64\<close>), and an entry flagged
  as having dynamic dispatches shows at least one.
\<close>

theorem profile_no_underflow:
  assumes "e \<in> set (analyzeStatistics ui)" "st_dispatchCount (snd e) < 2 ^ 64"
  shows "st_staticDispatchCount (snd e) \<le> st_dispatchCount (snd e) \<and>
    dynamic_count (snd e) = st_dispatchCount (snd e) - st_staticDispatchCount (snd e) \<and>
    (st_hasDynamicDispatch (snd e) \<longrightarrow> 0 < dynamic_count (snd e))"
proof -
  have ok: "\<forall>e \<in> set (analyzeStatistics ui). entry_ok (snd e)"
    unfolding analyzeStatistics_def
  proof (rule stats_all)
    show "entry_ok no_stats" by (simp add: entry_ok_def no_stats_def)
    show "entry_ok (update_stats ui op s)" if "entry_ok s" for op s
      using that by (auto simp: entry_ok_def update_stats_def analyzeDispatch_def Let_def
          split: stream_kind.split option.split if_splits)
  qed simp
  then have le: "st_staticDispatchCount (snd e) + (if st_hasDynamicDispatch (snd e) then 1 else 0)
      \<le> st_dispatchCount (snd e)"
    using assms(1) by (auto simp: entry_ok_def)
  have "dynamic_count (snd e) = st_dispatchCount (snd e) - st_staticDispatchCount (snd e)"
    using le assms(2) by (auto simp: dynamic_count_def size_sub_def nat_diff_distrib split: if_splits)
  with le show ?thesis by (auto split: if_splits)
qed

definition profile_example :: usage_info where
  "profile_example =
    \<lparr>ui_dispatchFuncInfos = (\<lambda>_. None)(1 := Some \<lparr>fi_opCount = 3, fi_elementCount = 4,
        fi_logicalDataSize = 16, fi_isDynamic = False\<rparr>),
     ui_deviceNames = (\<lambda>_. None),
     ui_executeOps = [[\<lparr>so_id = 1, so_affinity = None, so_kind = CmdDispatch [0]\<rparr>,
                       \<lparr>so_id = 2, so_affinity = None, so_kind = CmdDispatch []\<rparr>]]\<rparr>"

lemma profile_no_underflow_witness:
  "\<exists>e \<in> set (analyzeStatistics profile_example).
     dynamic_count (snd e) = st_dispatchCount (snd e) - st_staticDispatchCount (snd e)"
proof -
  let ?s = "no_stats\<lparr>st_dispatchCount := 2, st_staticDispatchCount := 1, st_staticDispatchDataSize := 16,
      st_staticDispatchElements := 4, st_staticWorkBytes := 48, st_staticWorkElements := 12\<rparr>"
  have "(None, ?s) \<in> set (analyzeStatistics profile_example)" by code_simp
  then show ?thesis
    using profile_no_underflow[of "(None, ?s)" profile_example] by (force simp: no_stats_def)
qed

text \<open>
  Names are resolved: after a successful analysis every affinity of the
  report is printed under the name its device resolves to, never under the
  placeholder \<open>Unknown\<close> of a missing entry.
\<close>

theorem profile_names_resolved:
  assumes "analyze L M G F funcs = Some ui" "e \<in> set (analyzeStatistics ui)"
  shows "getDeviceName ui (fst e) = resolveDeviceNameImpl G (fst e) \<and>
    (\<forall>a. fst e = Some a \<longrightarrow> ui_deviceNames ui a \<noteq> None)"
  using assms by (rule names_resolved)

text \<open>A module with one execute operation that dispatches on two devices.\<close>

definition two_devices :: "stream_op list list list" where
  "two_devices =
    [[[\<lparr>so_id = 0, so_affinity = Some (DeviceAffinity [''dev_a'']), so_kind = CmdFill\<rparr>,
       \<lparr>so_id = 1, so_affinity = Some (DeviceAffinity [''dev_b'']), so_kind = CmdCopy\<rparr>]]]"

definition two_globals :: device_globals where
  "two_globals s = (if s = [''dev_a''] \<or> s = [''dev_b''] then Some (Some (InitTarget ''coralnpu'')) else None)"

lemma two_devices_analyze:
  "\<exists>ui. analyze llvm_ref mlir_ref two_globals (\<lambda>_. None) two_devices = Some ui \<and>
     map fst (analyzeStatistics ui) = [Some (DeviceAffinity [''dev_a'']), Some (DeviceAffinity [''dev_b''])] \<and>
     ui_executeOps ui = concat two_devices"
  by (simp add: analyze_def two_devices_def analyze_stream_op_def resolveDeviceName_def Let_def
      analyzeStatistics_def stats_step_def)

lemma profile_names_resolved_witness:
  "\<exists>ui e. analyze llvm_ref mlir_ref two_globals (\<lambda>_. None) two_devices = Some ui \<and>
     e \<in> set (analyzeStatistics ui) \<and> getDeviceName ui (fst e) = ''coralnpu''"
proof -
  obtain ui where ui: "analyze llvm_ref mlir_ref two_globals (\<lambda>_. None) two_devices = Some ui"
    "map fst (analyzeStatistics ui) = [Some (DeviceAffinity [''dev_a'']), Some (DeviceAffinity [''dev_b''])]"
    by (rule exE[OF two_devices_analyze]) (elim conjE, rule that)
  have "Some (DeviceAffinity [''dev_a'']) \<in> set (map fst (analyzeStatistics ui))" unfolding ui(2) by simp
  then obtain e where e: "e \<in> set (analyzeStatistics ui)" "fst e = Some (DeviceAffinity [''dev_a''])"
    unfolding set_map by (elim imageE) (rule that, simp_all)
  have "resolveDeviceNameImpl two_globals (fst e) = ''coralnpu''"
    unfolding e(2) by (simp add: resolveDeviceNameImpl_def two_globals_def Let_def)
  with profile_names_resolved[OF ui(1) e(1)] ui(1) e(1)
  show ?thesis by (intro exI[of _ ui] exI[of _ e] conjI) (simp_all only:)
qed

text \<open>
  The JSON report can repeat a key: two affinities whose device globals
  have the same target are printed under the same name, although their
  entries are distinct, so a JSON reader keeps one of them.
\<close>

theorem json_duplicate_keys:
  "\<exists>ui. analyze llvm_ref mlir_ref two_globals (\<lambda>_. None) two_devices = Some ui \<and>
     distinct (map fst (analyzeStatistics ui)) \<and>
     map (getDeviceName ui \<circ> fst) (analyzeStatistics ui) = [''coralnpu'', ''coralnpu'']"
proof -
  obtain ui where ui: "analyze llvm_ref mlir_ref two_globals (\<lambda>_. None) two_devices = Some ui"
    "map fst (analyzeStatistics ui) = [Some (DeviceAffinity [''dev_a'']), Some (DeviceAffinity [''dev_b''])]"
    by (rule exE[OF two_devices_analyze]) (elim conjE, rule that)
  have "getDeviceName ui (fst e) = resolveDeviceNameImpl two_globals (fst e)"
    if "e \<in> set (analyzeStatistics ui)" for e
    by (rule conjunct1[OF names_resolved[OF ui(1) that]])
  then have "map (getDeviceName ui \<circ> fst) (analyzeStatistics ui) =
      map (resolveDeviceNameImpl two_globals) (map fst (analyzeStatistics ui))"
    by simp
  also have "\<dots> = [''coralnpu'', ''coralnpu'']"
    unfolding ui(2) by (simp add: resolveDeviceNameImpl_def two_globals_def Let_def)
  finally have "map (getDeviceName ui \<circ> fst) (analyzeStatistics ui) = [''coralnpu'', ''coralnpu'']" .
  moreover have "distinct (map fst (analyzeStatistics ui))" unfolding ui(2) by simp
  ultimately show ?thesis by (intro exI[of _ ui] conjI) (rule ui(1))
qed

text \<open>
  A function bound to a static tensor of \<open>index\<close> elements cannot be
  profiled: the width of \<open>index\<close> is asked of \<open>getIntOrFloatBitWidth\<close>, whose
  assertion fails.
\<close>

theorem index_binding_asserts:
  assumes "kDynamic M \<notin> set shape"
  shows "analyzeFunc L M \<lparr>ef_opCount = n, ef_bindings = PlainBinding (RankedTensorT shape IndexT) # bs\<rparr> = None"
  using assms by (simp add: analyzeFunc_def getTensorInfo_def Let_def getElementTypeBitWidth_def)

lemma index_binding_asserts_witness:
  "analyzeFunc llvm_ref mlir_ref \<lparr>ef_opCount = 1, ef_bindings = [PlainBinding (RankedTensorT [4] IndexT)]\<rparr> = None"
  using index_binding_asserts[of mlir_ref "[4]"] by (simp add: mlir_ref_def)

end
