(* ===== verification/MatrixTiles.thy ===== *)
theory MatrixTiles
  imports VectorToMatrix
begin

unbundle bit_operations_syntax

text \<open>
  Correctness of the vector-to-matrix lowering: the value an accumulator chain
  computes, the value its tile program computes, and that they agree for a
  chain through one loop; the loop rewriting, the tile numbers and the
  configuration word.
\<close>

section \<open>The value of a chain\<close>

text \<open>
  The meaning of a vector value, over any commutative monoid of tile values:
  \<open>trips f\<close> is the number of iterations of loop \<open>f\<close>, \<open>lf\<close> the value of a leaf, and
  \<open>P it a b\<close> the product a contraction of the source operands \<open>a\<close> and \<open>b\<close> adds in
  iteration \<open>it\<close>; \<open>cur\<close> is the accumulator argument of the loop being run.
\<close>

function den :: "(nat \<Rightarrow> nat) \<Rightarrow> (vval \<Rightarrow> 'a::comm_monoid_add) \<Rightarrow> (nat \<Rightarrow> vval \<Rightarrow> vval \<Rightarrow> 'a)
    \<Rightarrow> (nat \<times> nat \<times> 'a) option \<Rightarrow> nat \<Rightarrow> vval \<Rightarrow> 'a" where
  "den trips lf P cur it (VContract t c ca lhs rhs acc) =
     den trips lf P cur it acc + P it (traceToSourceValue lhs) (traceToSourceValue rhs)"
| "den trips lf P cur it (VFor t f inits yields r) =
     (if r < length inits \<and> r < length yields
      then fold (\<lambda>i x. den trips lf P (Some (f, r + 1, x)) i (yields ! r)) [0..<trips f]
             (den trips lf P None 0 (inits ! r))
      else lf (VFor t f inits yields r))"
| "den trips lf P cur it (VBlockArg t owner k v) =
     (case (owner, cur) of
        (Some f, Some (f', k', x)) \<Rightarrow> if f = f' \<and> k = k' then x else lf (VBlockArg t owner k v)
      | _ \<Rightarrow> lf (VBlockArg t owner k v))"
| "den trips lf P cur it (VOuterProduct t c) = lf (VOuterProduct t c)"
| "den trips lf P cur it (VConstant t v a) = lf (VConstant t v a)"
| "den trips lf P cur it (VTransferRead t v tr) = lf (VTransferRead t v tr)"
| "den trips lf P cur it (VExtF t v) = lf (VExtF t v)"
| "den trips lf P cur it (VExtSI t v) = lf (VExtSI t v)"
| "den trips lf P cur it (VExtUI t v) = lf (VExtUI t v)"
| "den trips lf P cur it (VBroadcast t v) = lf (VBroadcast t v)"
| "den trips lf P cur it (VShapeCast t v) = lf (VShapeCast t v)"
| "den trips lf P cur it (VOtherVal t v) = lf (VOtherVal t v)"
  by pat_completeness auto

termination
  by (relation "measure (\<lambda>(trips, lf, P, cur, it, v). size v)") (auto dest!: size_nth_vval)

text \<open>The products the updates of a chain add in one iteration.\<close>

definition update_sum :: "(nat \<Rightarrow> vval \<Rightarrow> vval \<Rightarrow> 'a::comm_monoid_add) \<Rightarrow> nat \<Rightarrow> update list \<Rightarrow> 'a" where
  "update_sum P it us =
     sum_list (map (\<lambda>(c, l, r). P it (traceToSourceValue l) (traceToSourceValue r)) us)"

section \<open>The value of a tile program\<close>

text \<open>The tile register machine on one tile: \<open>load\<close> gives the contents of a subview.\<close>

definition exec_tile :: "(subview \<Rightarrow> 'a::comm_monoid_add) \<Rightarrow> (nat \<Rightarrow> vval \<Rightarrow> vval \<Rightarrow> 'a) \<Rightarrow> nat \<Rightarrow> emitted \<Rightarrow> 'a \<Rightarrow> 'a"
where
  "exec_tile load P it e x =
    (case e of
       EZero _ \<Rightarrow> 0
     | ELoad _ sv _ \<Rightarrow> load sv
     | EMatmul _ _ a b \<Rightarrow> x + P it (sc_value a) (sc_value b)
     | EWriteback _ _ _ \<Rightarrow> x)"

definition exec_body :: "(subview \<Rightarrow> 'a::comm_monoid_add) \<Rightarrow> (nat \<Rightarrow> vval \<Rightarrow> vval \<Rightarrow> 'a) \<Rightarrow> (emitted + body_item) list
    \<Rightarrow> nat \<Rightarrow> 'a \<Rightarrow> 'a" where
  "exec_body load P body it x =
     fold (\<lambda>b x. case b of Inl e \<Rightarrow> exec_tile load P it e x | Inr _ \<Rightarrow> x) body x"

definition exec_chain :: "(nat \<Rightarrow> nat) \<Rightarrow> (subview \<Rightarrow> 'a::comm_monoid_add) \<Rightarrow> (nat \<Rightarrow> vval \<Rightarrow> vval \<Rightarrow> 'a)
    \<Rightarrow> lowered_chain \<Rightarrow> 'a" where
  "exec_chain trips load P lc =
    (let x0 = exec_tile load P 0 (lc_initOp lc) 0
     in case lc_update lc of
          LoopUpdate lr \<Rightarrow> fold (exec_body load P (lr_body lr)) [0..<trips (lr_for lr)] x0
        | SingleUpdate e \<Rightarrow> exec_tile load P 0 e x0)"

section \<open>Lemmas on the analysis\<close>

text \<open>Inside a loop the walk only meets supported contractions and ends at the loop's own
  argument, where it goes on with the initial value.\<close>

lemma trace_inside:
  assumes "trace_chain v (Some l) us ty = Some (Some i, us', ty')"
  shows "\<exists>new ty1. trace_chain (al_init l) None (us @ new) ty1 = Some (Some i, us', ty') \<and>
    (\<forall>trips lf P x it. den trips lf P (Some (al_for l, al_arg l, x)) it v =
       (x :: 'a::comm_monoid_add) + update_sum P it new)"
  using assms
proof (induction v arbitrary: us ty)
  case (VBlockArg t owner n w)
  then obtain f where "owner = Some f" "f = al_for l" "n = al_arg l"
    "trace_chain (al_init l) None us ty = Some (Some i, us', ty')"
    by (auto split: option.splits if_splits)
  then show ?case by (intro exI[of _ "[]"] exI[of _ ty]) (simp add: update_sum_def)
next
  case (VContract t c ca lhs rhs acc)
  then have "trace_chain acc (Some l) (us @ [(c, lhs, rhs)]) (Some (snd (traceToSourceType lhs))) =
      Some (Some i, us', ty')"
    by (auto split: if_splits)
  from VContract.IH(3)[OF this] obtain new ty1 where
    n: "trace_chain (al_init l) None ((us @ [(c, lhs, rhs)]) @ new) ty1 = Some (Some i, us', ty')"
      "\<And>trips lf P x it. den trips lf P (Some (al_for l, al_arg l, x)) it acc = (x :: 'a) + update_sum P it new"
    by blast
  show ?case
    by (rule exI[of _ "(c, lhs, rhs) # new"], rule exI[of _ ty1])
      (use n in \<open>simp add: update_sum_def ac_simps\<close>)
qed simp_all

text \<open>An initial value the walk stops at.\<close>

definition chain_leaf :: "vval \<Rightarrow> bool" where
  "chain_leaf v = (case v of VBlockArg _ _ _ _ \<Rightarrow> True | VConstant _ _ _ \<Rightarrow> True
     | VTransferRead _ _ _ \<Rightarrow> True | _ \<Rightarrow> False)"

lemma den_leaf: "chain_leaf v \<Longrightarrow> den trips lf P None it v = lf v"
  by (cases v) (auto simp: chain_leaf_def split: option.split)

lemma trace_leaf:
  assumes "trace_chain v al us ty = Some (Some i, us', ty')"
  shows "trace_chain i None us2 ty2 = Some (Some i, us2, ty2) \<and> chain_leaf i"
  using assms
proof (induction v al us ty arbitrary: i us' ty' rule: trace_chain.induct)
  case (1 t owner n v al us ty)
  then show ?case by (auto simp: chain_leaf_def split: option.splits if_splits)
next
  case (2 t f inits yields r al us ty)
  then show ?case by (auto split: option.splits if_splits)
next
  case (3 t c ca lhs rhs acc al us ty)
  then show ?case by (fastforce split: if_splits)
qed (auto simp: chain_leaf_def split: if_splits)

lemma fold_add_sum:
  "fold (\<lambda>i x. x + s i) xs (x0 :: 'a::comm_monoid_add) = x0 + sum_list (map s xs)"
  by (induction xs arbitrary: x0) (simp_all add: ac_simps)

text \<open>The value of a loop chain: its initial value plus the products of its updates in every
  iteration.\<close>

lemma loop_chain_den:
  assumes ch: "analyzeChain w = Some ch" and v: "tw_vector w = VFor t f inits yields r"
    and init: "inits ! r = ch_init ch"
  shows "den trips lf P None 0 (tw_vector w) =
    (lf (ch_init ch) :: 'a::comm_monoid_add) +
      sum_list (map (\<lambda>it. update_sum P it (ch_updates ch)) [0..<trips f])"
proof -
  from ch v obtain us ty where
    tr: "trace_chain (VFor t f inits yields r) None [] None = Some (Some (ch_init ch), us, ty)"
    and us: "ch_updates ch = rev us"
    by (auto simp: analyzeChain_def Let_def split: if_splits option.splits prod.splits)
  then have r: "r < length inits" "r < length yields"
    and ins: "trace_chain (yields ! r) (Some \<lparr>al_for = f, al_arg = r + 1, al_init = inits ! r\<rparr>) [] None =
      Some (Some (ch_init ch), us, ty)"
    by (auto split: if_splits)
  from trace_inside[OF ins, where 'a = 'a] obtain new ty1 where
    n: "trace_chain (inits ! r) None new ty1 = Some (Some (ch_init ch), us, ty)"
      "\<And>trips lf P x it. den trips lf P (Some (f, r + 1, x)) it (yields ! r) = (x :: 'a) + update_sum P it new"
    by auto
  have "trace_chain (ch_init ch) None new ty1 = Some (Some (ch_init ch), new, ty1)"
    using trace_leaf[OF tr] by blast
  with n(1) init have new: "us = new" by simp
  have leaf: "den trips lf P None 0 (ch_init ch) = lf (ch_init ch)"
    using trace_leaf[OF tr] den_leaf by blast
  have "update_sum P it (rev us) = update_sum P it us" for it
    unfolding update_sum_def rev_map[symmetric] by (rule sum_list_rev)
  then show ?thesis
    using r n(2) init leaf by (simp add: v us new fold_add_sum)
qed

section \<open>Lemmas on the lowering\<close>

lemmas lower_chain_defs = lower_chain_def init_tile_def writeback_tile_def lower_single_def

lemma nth_erase_at:
  "i < length xs - 1 \<Longrightarrow> k < length xs \<Longrightarrow> erase_at k xs ! i = xs ! (if i < k then i else i + 1)"
  by (auto simp: erase_at_def nth_append)

lemma length_erase_at [simp]: "k < length xs \<Longrightarrow> length (erase_at k xs) = length xs - 1"
  by (simp add: erase_at_def)

text \<open>The contractions of a loop body that belong to a chain.\<close>

definition body_updates :: "update list \<Rightarrow> body_item list \<Rightarrow> update list" where
  "body_updates us body =
     concat (map (\<lambda>it. case it of
        BContract c l r \<Rightarrow> if c \<in> set (map fst us) then [(c, l, r)] else [] | BOther _ \<Rightarrow> []) body)"

lemma body_updates_Nil: "body_updates us [] = []"
  by (simp add: body_updates_def)

lemma body_updates_Cons:
  "body_updates us (b # bs) =
     (case b of BContract c l r \<Rightarrow> if c \<in> set (map fst us) then [(c, l, r)] else [] | BOther _ \<Rightarrow> []) @
     body_updates us bs"
  by (simp add: body_updates_def)

lemma exec_body_Nil: "exec_body load P [] it x = x"
  by (simp add: exec_body_def)

lemma exec_body_Cons:
  "exec_body load P (b # bs) it x =
     exec_body load P bs it (case b of Inl e \<Rightarrow> exec_tile load P it e x | Inr _ \<Rightarrow> x)"
  by (simp add: exec_body_def)

lemma update_sum_append: "update_sum P it (us @ vs) = update_sum P it us + update_sum P it vs"
  by (simp add: update_sum_def)

lemma update_sum_single:
  "update_sum P it [(c, l, r)] = P it (traceToSourceValue l) (traceToSourceValue r)"
  by (simp add: update_sum_def)

lemma update_sum_Nil: "update_sum P it [] = 0"
  by (simp add: update_sum_def)

lemma exec_lower_item:
  "(case lower_body_item tid ty us b of Inl e \<Rightarrow> exec_tile load P it e x | Inr _ \<Rightarrow> x) =
     x + update_sum P it (case b of BContract c l r \<Rightarrow> if c \<in> set (map fst us) then [(c, l, r)] else []
                          | BOther _ \<Rightarrow> [])"
  by (cases b) (simp_all add: lower_body_item_def exec_tile_def castToScalable_def Let_def
      update_sum_single update_sum_Nil)

lemma exec_body_sum:
  "exec_body load P (map (lower_body_item tid ty us) body) it x = x + update_sum P it (body_updates us body)"
proof (induction body arbitrary: x)
  case Nil
  show ?case by (simp add: exec_body_Nil body_updates_Nil update_sum_Nil)
next
  case (Cons b bs)
  show ?case
    by (simp only: list.map exec_body_Cons Cons.IH exec_lower_item body_updates_Cons update_sum_append ac_simps)
qed

lemma update_sum_mset:
  assumes "mset us = mset vs"
  shows "update_sum P it us = update_sum P it vs"
proof -
  let ?g = "\<lambda>(c, l, r). P it (traceToSourceValue l) (traceToSourceValue r)"
  have s: "update_sum P it xs = sum_mset (image_mset ?g (mset xs))" for xs
    unfolding update_sum_def mset_map[symmetric] by (rule sum_mset_sum_list[symmetric])
  show ?thesis unfolding s assms ..
qed

text \<open>What \<open>lower_chain\<close> adds for a chain it does not skip.\<close>

lemma lower_chain_loop:
  assumes "lower_chain M bodies ch tid st = PassOk st'" "chain_loop ch = Some (f, inits, yields)"
    "isConstantZero (ch_init ch) \<or> (\<exists>t v tr. ch_init ch = VTransferRead t v tr)"
  shows "\<exists>lc. ms_out st' = ms_out st @ [lc] \<and> lc_tile lc = tid \<and>
    lc_update lc = LoopUpdate (rewrite_loop tid (ch_inputElTy ch) ch (bodies f) f inits yields) \<and>
    (case ch_init ch of
       VTransferRead t v tr \<Rightarrow> \<exists>sv. tile_subview tr (ms_configM st) (ms_configN st) = Some sv \<and>
         lc_initOp lc = ELoad (loadFuncName M (tr_elem tr)) sv tid
     | _ \<Rightarrow> lc_initOp lc = EZero tid)"
proof (cases "ch_init ch")
  case (VTransferRead t v tr)
  then show ?thesis
    using assms(1,2)
    by (auto simp: lower_chain_defs Let_def split: option.splits prod.splits if_splits)
qed (use assms in \<open>auto simp: lower_chain_defs Let_def isConstantZero_def
      split: option.splits prod.splits if_splits const_attr.splits\<close>)

lemma lower_chain_tiles:
  assumes "lower_chain M bodies ch tid st = PassOk st'"
  shows "ms_nextTileId st' = ms_nextTileId st \<and>
    (ms_out st' = ms_out st \<or> (\<exists>lc. ms_out st' = ms_out st @ [lc] \<and> lc_tile lc = tid))"
  using assms by (auto simp: lower_chain_defs Let_def split: option.splits prod.splits if_splits)

definition tiles_ok :: "matrix_state \<Rightarrow> bool" where
  "tiles_ok st \<longleftrightarrow> distinct (map lc_tile (ms_out st)) \<and> list_all (\<lambda>lc. lc_tile lc < ms_nextTileId st \<and> lc_tile lc < 16) (ms_out st)"

lemma process_chain_tiles:
  assumes "process_chain M bodies ch st = PassOk st'" "tiles_ok st"
  shows "tiles_ok st'"
proof -
  let ?st1 = "st\<lparr>ms_configM := fst (val_type (tw_vector (ch_writeback ch))) ! 0,
      ms_configN := fst (val_type (tw_vector (ch_writeback ch))) ! 1,
      ms_inputElTy := Some (ch_inputElTy ch), ms_nextTileId := ms_nextTileId st + 1\<rparr>"
  have lt: "ms_nextTileId st < 16" and lc: "lower_chain M bodies ch (ms_nextTileId st) ?st1 = PassOk st'"
    using assms(1) by (auto simp: process_chain_def Let_def split: if_splits)
  have n: "ms_nextTileId st' = ms_nextTileId st + 1" and
    out: "ms_out st' = ms_out st \<or> (\<exists>l. ms_out st' = ms_out st @ [l] \<and> lc_tile l = ms_nextTileId st)"
    using lower_chain_tiles[OF lc] by simp_all
  have d: "distinct (map lc_tile (ms_out st))"
    and b: "\<And>l. l \<in> set (ms_out st) \<Longrightarrow> lc_tile l < ms_nextTileId st \<and> lc_tile l < 16"
    using assms(2) by (auto simp: tiles_ok_def list_all_iff)
  have b': "lc_tile l < ms_nextTileId st' \<and> lc_tile l < 16" if "l \<in> set (ms_out st)" for l
    using b[OF that] n by simp
  from out show ?thesis
  proof
    assume "ms_out st' = ms_out st"
    then show ?thesis using d b' by (simp add: tiles_ok_def list_all_iff)
  next
    assume "\<exists>l. ms_out st' = ms_out st @ [l] \<and> lc_tile l = ms_nextTileId st"
    then obtain l where l: "ms_out st' = ms_out st @ [l]" "lc_tile l = ms_nextTileId st" by blast
    have "ms_nextTileId st \<notin> lc_tile ` set (ms_out st)" using b by fastforce
    then show ?thesis using d b' l lt n by (simp add: tiles_ok_def list_all_iff)
  qed
qed

lemma process_chains_tiles:
  "process_chains M bodies chs st = PassOk st' \<Longrightarrow> tiles_ok st \<Longrightarrow> tiles_ok st'"
  by (induction M bodies chs st rule: process_chains.induct)
    (auto split: pass_result.splits dest: process_chain_tiles)

lemma process_chains_count:
  "process_chains M bodies chs st = PassOk st' \<Longrightarrow>
     ms_nextTileId st' = ms_nextTileId st + length chs \<and> (chs \<noteq> [] \<longrightarrow> ms_nextTileId st' \<le> 16)"
proof (induction M bodies chs st rule: process_chains.induct)
  case (2 M bodies ch chs st)
  then obtain st1 where st1: "process_chain M bodies ch st = PassOk st1"
    and rest: "process_chains M bodies chs st1 = PassOk st'"
    by (auto split: pass_result.splits)
  have n: "ms_nextTileId st1 = ms_nextTileId st + 1 \<and> ms_nextTileId st < 16"
    using st1 by (auto simp: process_chain_def Let_def split: if_splits dest: lower_chain_tiles)
  show ?case
  proof (cases chs)
    case Nil
    with rest n show ?thesis by simp
  next
    case (Cons c cs)
    with 2(1)[OF st1 rest] n show ?thesis by simp
  qed
qed simp

text \<open>The configuration variables are those of the last chain met, lowered or skipped.\<close>

definition configured_by :: "accumulator_chain \<Rightarrow> matrix_state \<Rightarrow> bool" where
  "configured_by ch st \<longleftrightarrow>
     ms_configM st = fst (val_type (tw_vector (ch_writeback ch))) ! 0 \<and>
     ms_configN st = fst (val_type (tw_vector (ch_writeback ch))) ! 1 \<and>
     ms_inputElTy st = Some (ch_inputElTy ch)"

lemma lower_chain_keeps:
  assumes "lower_chain M bodies ch tid st = PassOk st'"
  shows "ms_configM st' = ms_configM st \<and> ms_configN st' = ms_configN st \<and> ms_inputElTy st' = ms_inputElTy st"
  using assms by (auto simp: lower_chain_defs Let_def split: option.splits prod.splits if_splits)

lemma process_chains_config:
  "process_chains M bodies chs st = PassOk st' \<Longrightarrow> chs \<noteq> [] \<Longrightarrow> configured_by (last chs) st'"
proof (induction M bodies chs st rule: process_chains.induct)
  case (2 M bodies ch chs st)
  then obtain st1 where st1: "process_chain M bodies ch st = PassOk st1"
    and rest: "process_chains M bodies chs st1 = PassOk st'"
    by (auto split: pass_result.splits)
  have "configured_by ch st1"
    using st1 by (auto simp: process_chain_def Let_def configured_by_def split: if_splits dest: lower_chain_keeps)
  then show ?case using 2(1)[OF st1 rest] rest by (cases chs) simp_all
qed simp

lemma process_chains_none_rewritten:
  "process_chains M bodies [] st = PassOk st' \<Longrightarrow> st' = st"
  by simp

lemma accIndex_distinct: "distinct inits \<Longrightarrow> r < length inits \<Longrightarrow> accIndex (inits ! r) inits = r"
proof (induction inits arbitrary: r)
  case (Cons x xs)
  show ?case
  proof (cases r)
    case (Suc k)
    then have "accIndex (xs ! k) xs = k" "xs ! k \<in> set xs" "x \<noteq> xs ! k" using Cons by auto
    moreover obtain i where "index_of (xs ! k) xs = Some i"
      using \<open>xs ! k \<in> set xs\<close> by (cases "index_of (xs ! k) xs") simp_all
    ultimately show ?thesis using Suc by (simp add: accIndex_def)
  qed (simp add: accIndex_def)
qed simp

lemma accIndex_less: "inits \<noteq> [] \<Longrightarrow> accIndex v inits < length inits"
  by (auto simp: accIndex_def split: option.split dest: index_of_SomeD)

text \<open>The bit fields of the configuration word.\<close>

lemma or_pack:
  fixes a b :: int
  assumes "0 \<le> b" "b < 2 ^ n"
  shows "push_bit n a OR b = a * 2 ^ n + b"
proof -
  have "push_bit n a AND b = 0"
  proof (rule bit_eqI)
    fix i
    have "\<not> bit b i" if "n \<le> i"
    proof -
      have "(2::int) ^ n \<le> 2 ^ i" by (rule power_increasing[OF that]) simp
      then have "b < 2 ^ i" using assms(2) by linarith
      then show ?thesis using assms(1) by (simp add: bit_iff_odd)
    qed
    then show "bit (push_bit n a AND b) i = bit 0 i" by (auto simp: bit_and_iff bit_push_bit_iff)
  qed
  then have "push_bit n a OR b = push_bit n a + b" using plus_and_or[of "push_bit n a" b] by simp
  then show ?thesis by (simp add: push_bit_eq_mult)
qed

lemma mtype_word:
  fixes m w :: int
  assumes "0 \<le> w" "w < 32"
  shows "push_bit 10 m OR (push_bit 5 1 OR w) = m * 1024 + 32 + w"
proof -
  have "push_bit 5 1 OR w = 32 + w" using or_pack[of w 5 1] assms by simp
  moreover have "push_bit 10 m OR (32 + w) = m * 1024 + (32 + w)"
    using or_pack[of "32 + w" 10 m] assms by simp
  ultimately show ?thesis by (simp add: or.assoc)
qed

lemma mtype_fields:
  fixes m w :: int
  assumes "0 \<le> w" "w < 32"
  shows "(m * 1024 + 32 + w) div 1024 = m" "(m * 1024 + 32 + w) div 32 mod 32 = 1"
    "(m * 1024 + 32 + w) mod 32 = w"
proof -
  have "(m * 1024 + 32 + w) div 1024 = ((32 + w) + m * 1024) div 1024" by (simp add: ac_simps)
  also have "\<dots> = m" using assms by simp
  finally show "(m * 1024 + 32 + w) div 1024 = m" .
  have e: "m * 1024 + 32 + w = w + (m * 32 + 1) * 32" by simp
  have d: "(w + (m * 32 + 1) * 32) div 32 = m * 32 + 1" using assms by simp
  show "(m * 1024 + 32 + w) div 32 mod 32 = 1" unfolding e d by simp
  show "(m * 1024 + 32 + w) mod 32 = w" unfolding e mod_mult_self1 using assms by simp
qed

definition mtwiden_of :: "elem_type \<Rightarrow> int" where
  "mtwiden_of ty = (if ty = FloatT 32 then 1 else if ty = BF16T then 2 else 3)"

lemma matrixConfiguration_word:
  assumes "matrixConfiguration m n ty = Some c"
  shows "mc_mtype c = m * 1024 + 32 + mtwiden_of ty \<and> mc_tn c = n"
proof -
  have "mc_mtype c = push_bit 10 m OR (push_bit 5 1 OR mtwiden_of ty) \<and> mc_tn c = n"
    using assms unfolding matrixConfiguration_def mtwiden_of_def Let_def or.assoc
    by (simp only: split: if_splits) auto
  then show ?thesis using mtype_word[of "mtwiden_of ty" m] by (simp add: mtwiden_of_def del: push_bit_of_1)
qed

section \<open>Properties\<close>


text \<open>A 4x4 accumulation over a loop: the source operands are single-precision transfer reads.\<close>

definition ex_attrs :: contract_attrs where
  "ex_attrs = \<lparr>ca_iters = [Parallel, Parallel, Reduction], ca_lhs_map = [AffDim 0, AffDim 2], ca_rhs_map = [AffDim 2, AffDim 1]\<rparr>"

definition ex_memref :: "nat \<Rightarrow> transfer" where
  "ex_memref b = \<lparr>tr_base = b, tr_rank = 2, tr_elem = FloatT 32, tr_indices = [0, 0]\<rparr>"

definition ex_lhs :: vval where
  "ex_lhs = VTransferRead ([4, 1], FloatT 32) 1 (ex_memref 1)"

definition ex_rhs :: vval where
  "ex_rhs = VTransferRead ([1, 4], FloatT 32) 2 (ex_memref 2)"

definition ex_acc :: "nat \<Rightarrow> vval" where
  "ex_acc n = VBlockArg ([4, 4], FloatT 32) (Some 10) n (100 + n)"

definition ex_contract :: "nat \<Rightarrow> vval \<Rightarrow> vval" where
  "ex_contract c acc = VContract ([4, 4], FloatT 32) c ex_attrs ex_lhs ex_rhs acc"

definition ex_zero :: vval where
  "ex_zero = VConstant ([4, 4], FloatT 32) 50 (SplatFloat True)"

definition ex_write :: transfer_write where
  "ex_write = \<lparr>tw_id = 90, tw_vector = VFor ([4, 4], FloatT 32) 10 [ex_zero] [ex_contract 20 (ex_acc 1)] 0,
     tw_dest = ex_memref 3\<rparr>"

definition ex_bodies :: "nat \<Rightarrow> body_item list" where
  "ex_bodies f = [BOther 1, BContract 20 ex_lhs ex_rhs]"

definition ex_chain :: accumulator_chain where
  "ex_chain = \<lparr>ch_init = ex_zero, ch_updates = [(20, ex_lhs, ex_rhs)], ch_writeback = ex_write, ch_inputElTy = FloatT 32\<rparr>"

lemmas ex_defs = ex_attrs_def ex_memref_def ex_lhs_def ex_rhs_def ex_acc_def ex_contract_def ex_zero_def
  ex_write_def ex_bodies_def ex_chain_def

definition ex_state :: matrix_state where
  "ex_state = \<lparr>ms_nextTileId = 1, ms_configM = 4, ms_configN = 4, ms_inputElTy = Some (FloatT 32),
     ms_rewritten = False, ms_funcs = [], ms_loops = [], ms_out = []\<rparr>"

definition ex_func :: vector_func where
  "ex_func = \<lparr>vf_target = Some \<lparr>tgt_backend = ''coralnpu'', tgt_config = Some \<lparr>cfg_cpu_features = Some ''+v,+zvtbase''\<rparr>\<rparr>,
     vf_isFuncOp = True, vf_writes = [ex_write], vf_bodies = ex_bodies, vf_declared = []\<rparr>"

lemma ex_analyze: "analyzeChain ex_write = Some ex_chain"
  by (simp add: ex_defs analyzeChain_def isSupportedVectorContraction_def traceToSourceType_def
      getDimPosition_def)


text \<open>
  Tile registers are allocated without clash: when the pass succeeds the
  lowered chains use pairwise different tile numbers below sixteen, and the
  function had at most sixteen chains.
\<close>

theorem matrix_tiles_distinct:
  assumes "runVectorToMatrix L M f = PassOk r" "hasZvtFeature L (vf_target f)"
  shows "distinct (map lc_tile (mr_chains r)) \<and> list_all (\<lambda>lc. lc_tile lc < 16) (mr_chains r) \<and>
    length (List.map_filter analyzeChain (vf_writes f)) \<le> 16"
proof -
  let ?st0 = "\<lparr>ms_nextTileId = 0, ms_configM = 4, ms_configN = 4, ms_inputElTy = None,
                     ms_rewritten = False, ms_funcs = vf_declared f, ms_loops = [], ms_out = []\<rparr>"
  from assms obtain st where st: "process_chains M (vf_bodies f) (List.map_filter analyzeChain (vf_writes f)) ?st0 = PassOk st"
    and out: "mr_chains r = ms_out st"
    by (auto simp: runVectorToMatrix_def Let_def split: pass_result.splits if_splits option.splits)
  have "tiles_ok st" by (rule process_chains_tiles[OF st]) (simp add: tiles_ok_def)
  moreover have "length (List.map_filter analyzeChain (vf_writes f)) \<le> 16"
    using process_chains_count[OF st] by (cases "List.map_filter analyzeChain (vf_writes f)") simp_all
  ultimately show ?thesis by (simp add: out tiles_ok_def list_all_iff)
qed

theorem matrix_tiles_distinct_witness:
  "\<exists>r. runVectorToMatrix llvm_ref mlir_ref ex_func = PassOk r \<and> length (mr_chains r) = 1 \<and>
     distinct (map lc_tile (mr_chains r))"
proof -
  have zvt: "hasZvtFeature llvm_ref (vf_target ex_func)" by code_simp
  have "case runVectorToMatrix llvm_ref mlir_ref ex_func of PassOk r \<Rightarrow> length (mr_chains r) = 1 | _ \<Rightarrow> False"
    by code_simp
  then obtain r where r: "runVectorToMatrix llvm_ref mlir_ref ex_func = PassOk r" "length (mr_chains r) = 1"
    by (auto split: pass_result.splits)
  then show ?thesis using matrix_tiles_distinct [OF r(1) zvt] by auto
qed

text \<open>
  Rewriting a loop keeps its other arguments together: when the initial
  values of the loop are distinct, exactly the result the chain writes back
  is replaced by a zero constant, and every other result is the result of the
  new loop whose initial value, block argument and yielded value are the ones
  that belonged to it.
\<close>

theorem loop_rewrite_consistent:
  assumes "length yields = length inits" "distinct inits" "r < length inits" "ch_init ch = inits ! r"
  shows "let lr = rewrite_loop tid ty ch body f inits yields in
    lr_results lr ! r = DummyZero \<and>
    (\<forall>j < length inits. j \<noteq> r \<longrightarrow> (\<exists>i. lr_results lr ! j = NewResult i \<and> i < length (lr_inits lr) \<and>
        lr_inits lr ! i = inits ! j \<and> lr_args lr ! i = j + 1 \<and> lr_yields lr ! i = yields ! j))"
proof -
  let ?lr = "rewrite_loop tid ty ch body f inits yields"
  have k: "accIndex (ch_init ch) inits = r" using accIndex_distinct assms by simp
  have "\<exists>i. lr_results ?lr ! j = NewResult i \<and> i < length (lr_inits ?lr) \<and>
      lr_inits ?lr ! i = inits ! j \<and> lr_args ?lr ! i = j + 1 \<and> lr_yields ?lr ! i = yields ! j"
    if j: "j < length inits" "j \<noteq> r" for j
  proof (rule exI[of _ "if j < r then j else j - 1"])
    show "lr_results ?lr ! j = NewResult (if j < r then j else j - 1) \<and>
        (if j < r then j else j - 1) < length (lr_inits ?lr) \<and>
        lr_inits ?lr ! (if j < r then j else j - 1) = inits ! j \<and>
        lr_args ?lr ! (if j < r then j else j - 1) = j + 1 \<and>
        lr_yields ?lr ! (if j < r then j else j - 1) = yields ! j"
      using j assms(1,3)
      by (auto simp: rewrite_loop_def Let_def k result_use_of_def oldArgIndex_def nth_erase_at)
  qed
  moreover have "lr_results ?lr ! r = DummyZero"
    using assms(3) by (simp add: rewrite_loop_def Let_def k result_use_of_def)
  ultimately show ?thesis by (simp add: Let_def)
qed

theorem loop_rewrite_consistent_witness:
  "let lr = rewrite_loop 0 (FloatT 32) ex_chain [] 10 [ex_lhs, ex_zero] [ex_rhs, ex_acc 2] in
     lr_results lr ! 1 = DummyZero \<and> (\<exists>i. lr_results lr ! 0 = NewResult i \<and> lr_inits lr ! i = ex_lhs)"
proof -
  have d: "distinct [ex_lhs, ex_zero]" by (simp add: ex_lhs_def ex_zero_def)
  have c: "ch_init ex_chain = [ex_lhs, ex_zero] ! 1" by (simp add: ex_chain_def)
  show ?thesis
    using loop_rewrite_consistent [where yields = "[ex_rhs, ex_acc 2]" and inits = "[ex_lhs, ex_zero]"
        and r = 1 and ch = ex_chain and tid = 0 and ty = "FloatT 32" and body = "[]" and f = 10, OF _ d _ c]
    by (auto simp: Let_def)
qed

text \<open>
  The matrix unit is configured for the last accumulation chain of the
  function: its rows, the depth one and the widening factor of its input type
  are recovered from the bit fields of the configuration word, and the column
  count is passed unchanged.
\<close>

theorem matrix_config_last_chain:
  assumes "runVectorToMatrix L M f = PassOk r" "mr_config r = Some c"
    "ch = last (List.map_filter analyzeChain (vf_writes f))" "shape = fst (val_type (tw_vector (ch_writeback ch)))"
  shows "matrixConfiguration (shape ! 0) (shape ! 1) (ch_inputElTy ch) = Some c \<and>
    mc_mtype c div 1024 = shape ! 0 \<and> mc_mtype c div 32 mod 32 = 1 \<and>
    mc_mtype c mod 32 = mtwiden_of (ch_inputElTy ch) \<and>
    mc_tn c = shape ! 1"
proof -
  let ?chs = "List.map_filter analyzeChain (vf_writes f)"
  let ?st0 = "\<lparr>ms_nextTileId = 0, ms_configM = 4, ms_configN = 4, ms_inputElTy = None,
                     ms_rewritten = False, ms_funcs = vf_declared f, ms_loops = [], ms_out = []\<rparr>"
  from assms(1,2) obtain st ty where st: "process_chains M (vf_bodies f) ?chs ?st0 = PassOk st"
    and rw: "ms_rewritten st"
    and cfg: "ms_inputElTy st = Some ty" "matrixConfiguration (ms_configM st) (ms_configN st) ty = Some c"
    by (auto simp: runVectorToMatrix_def Let_def split: pass_result.splits if_splits option.splits)
  have ne: "?chs \<noteq> []" using st rw by auto
  from process_chains_config[OF st ne] cfg
  have m: "matrixConfiguration (shape ! 0) (shape ! 1) (ch_inputElTy ch) = Some c"
    by (simp add: configured_by_def assms(3,4))
  have "0 \<le> mtwiden_of (ch_inputElTy ch)" "mtwiden_of (ch_inputElTy ch) < 32" by (simp_all add: mtwiden_of_def)
  from mtype_fields[OF this, of "shape ! 0"] m matrixConfiguration_word[OF m] show ?thesis by simp
qed

theorem matrix_config_last_chain_witness:
  "\<exists>r c. runVectorToMatrix llvm_ref mlir_ref ex_func = PassOk r \<and> mr_config r = Some c \<and> mc_mtype c = 4129 \<and>
     mc_mtype c div 1024 = 4 \<and> mc_tn c = 4"
proof -
  have "case runVectorToMatrix llvm_ref mlir_ref ex_func of
      PassOk r \<Rightarrow> (case mr_config r of Some c \<Rightarrow> mc_mtype c = 4129 | None \<Rightarrow> False) | _ \<Rightarrow> False"
    by code_simp
  then obtain r c where r: "runVectorToMatrix llvm_ref mlir_ref ex_func = PassOk r" "mr_config r = Some c"
    "mc_mtype c = 4129"
    by (auto split: pass_result.splits option.splits)
  have ch: "ex_chain = last (List.map_filter analyzeChain (vf_writes ex_func))"
    by (simp add: ex_func_def List.map_filter_def ex_analyze)
  have "[4, 4] = fst (val_type (tw_vector (ch_writeback ex_chain)))"
    by (simp add: ex_chain_def ex_write_def)
  from matrix_config_last_chain [OF r(1,2) ch this] r show ?thesis by auto
qed

text \<open>
  A chain without a loop keeps only its first update: the tile ends with
  the initial zero plus the product of the operands of the first contraction
  as they stand (not traced through extensions), whatever updates follow.
\<close>

theorem straight_line_first_update:
  fixes P :: "nat \<Rightarrow> vval \<Rightarrow> vval \<Rightarrow> 'a::comm_monoid_add"
  assumes "lower_chain M bodies ch tid st = PassOk st'" "chain_loop ch = None" "isConstantZero (ch_init ch)"
    "ch_updates ch = (c, lhs, rhs) # us"
  shows "\<exists>lc. ms_out st' = ms_out st @ [lc] \<and> exec_chain trips load P lc = P 0 lhs rhs"
proof -
  obtain t v a where "ch_init ch = VConstant t v a"
    using assms(3) by (auto simp: isConstantZero_def split: vval.splits)
  then show ?thesis
    using assms by (auto simp: lower_chain_defs Let_def exec_chain_def exec_tile_def castToScalable_def
        split: option.splits if_splits)
qed

definition ex_pair_write :: transfer_write where
  "ex_pair_write = \<lparr>tw_id = 91, tw_vector = ex_contract 22 (ex_contract 21 ex_zero), tw_dest = ex_memref 3\<rparr>"

theorem straight_line_first_update_witness:
  "\<exists>ch st' lc. analyzeChain ex_pair_write = Some ch \<and> length (ch_updates ch) = 2 \<and>
     lower_chain mlir_ref ex_bodies ch 0 ex_state = PassOk st' \<and> ms_out st' = [lc] \<and>
     exec_chain (\<lambda>_. 1) (\<lambda>_. 0) (\<lambda>_ _ _. 5::int) lc = 5 \<and>
     den (\<lambda>_. 1) (\<lambda>_. 0) (\<lambda>_ _ _. 5::int) None 0 (tw_vector ex_pair_write) = 10"
proof -
  define ch where "ch = \<lparr>ch_init = ex_zero, ch_updates = [(21, ex_lhs, ex_rhs), (22, ex_lhs, ex_rhs)],
    ch_writeback = ex_pair_write, ch_inputElTy = FloatT 32\<rparr>"
  have an: "analyzeChain ex_pair_write = Some ch"
    by (simp add: ch_def ex_pair_write_def ex_defs analyzeChain_def isSupportedVectorContraction_def
        traceToSourceType_def getDimPosition_def)
  obtain st' where st': "lower_chain mlir_ref ex_bodies ch 0 ex_state = PassOk st'"
    by (simp add: lower_chain_defs Let_def chain_loop_def ch_def ex_pair_write_def ex_contract_def ex_state_def
        tile_subview_def ex_memref_def isConstantZero_def ex_zero_def)
  have n: "chain_loop ch = None" by (simp add: chain_loop_def ch_def ex_pair_write_def ex_contract_def)
  have z: "isConstantZero (ch_init ch)" by (simp add: ch_def isConstantZero_def ex_zero_def)
  have u: "ch_updates ch = (21, ex_lhs, ex_rhs) # [(22, ex_lhs, ex_rhs)]" by (simp add: ch_def)
  obtain lc where "ms_out st' = ms_out ex_state @ [lc]"
    "exec_chain (\<lambda>_. 1) (\<lambda>_. 0) (\<lambda>_ _ _. 5::int) lc = 5"
    using straight_line_first_update [OF st' n z u, of "\<lambda>_. 1" "\<lambda>_. 0" "\<lambda>_ _ _. 5::int"] by blast
  with an st' show ?thesis
    by (auto simp: ch_def ex_state_def ex_pair_write_def ex_contract_def ex_zero_def)
qed

text \<open>
  Two accumulators that start from one shared zero are confused: in a loop
  whose two initial values are the same constant, lowering the chain of the
  second result removes the first argument, so the vector the chain wrote back
  is still computed by the new loop and the first result becomes zero.
\<close>

theorem shared_zero_accumulator:
  "let w = \<lparr>tw_id = 92, tw_vector = VFor ([4, 4], FloatT 32) 10 [ex_zero, ex_zero]
               [ex_contract 20 (ex_acc 1), ex_contract 21 (ex_acc 2)] 1, tw_dest = ex_memref 3\<rparr> in
     case analyzeChain w of
       None \<Rightarrow> False
     | Some ch \<Rightarrow>
         (let lr = rewrite_loop 0 (FloatT 32) ch [BContract 20 ex_lhs ex_rhs, BContract 21 ex_lhs ex_rhs] 10
                     [ex_zero, ex_zero] [ex_contract 20 (ex_acc 1), ex_contract 21 (ex_acc 2)]
          in lr_results lr = [DummyZero, NewResult 0] \<and> lr_yields lr = [ex_contract 21 (ex_acc 2)] \<and>
             lr_body lr ! 0 = Inr (BContract 20 ex_lhs ex_rhs))"
  by code_simp

text \<open>
  A skipped chain still configures the matrix unit: of a single-precision
  chain that is lowered and a later integer chain that is skipped for its
  initial value, the function gets the configuration of the integer one.
\<close>

theorem skipped_chain_configures:
  "let lhs = VTransferRead ([4, 1], IntT 8) 5 (ex_memref 5); rhs = VTransferRead ([1, 4], IntT 8) 6 (ex_memref 6);
       w = \<lparr>tw_id = 93, tw_vector = VContract ([4, 4], IntT 32) 30 ex_attrs lhs rhs
               (VConstant ([4, 4], IntT 32) 51 (SplatInt 1)), tw_dest = ex_memref 7\<rparr>
   in case runVectorToMatrix llvm_ref mlir_ref (ex_func\<lparr>vf_writes := [ex_write, w]\<rparr>) of
        PassOk r \<Rightarrow> map lc_tile (mr_chains r) = [0] \<and> mr_config r = matrixConfiguration 4 4 (IntT 8) \<and>
          mr_config r \<noteq> matrixConfiguration 4 4 (ch_inputElTy ex_chain)
      | _ \<Rightarrow> False"
  by code_simp
text \<open>
  The name of a placeholder function has the width of the element type but not its kind:
  a chain that writes integers after one that writes floating-point numbers of the same
  width calls the function declared for the memref of the other.
\<close>

lemma placeholder_declared_once:
  "let lhs = VTransferRead ([4, 1], IntT 8) 5 (ex_memref 5); rhs = VTransferRead ([1, 4], IntT 8) 6 (ex_memref 6);
       w = \<lparr>tw_id = 93, tw_vector = VContract ([4, 4], IntT 32) 30 ex_attrs lhs rhs
               (VConstant ([4, 4], IntT 32) 51 (SplatInt 0)), tw_dest = (ex_memref 7)\<lparr>tr_elem := IntT 32\<rparr>\<rparr>
   in case runVectorToMatrix llvm_ref mlir_ref (ex_func\<lparr>vf_writes := [ex_write, w]\<rparr>) of
        PassOk r \<Rightarrow> mr_funcs r = [(''coralnpu.matrix.writeback.w32'', FloatT 32)] \<and>
          list_all (\<lambda>lc. case lc_write lc of EWriteback name _ _ \<Rightarrow> name = ''coralnpu.matrix.writeback.w32'' | _ \<Rightarrow> False)
            (mr_chains r) \<and> length (mr_chains r) = 2
      | _ \<Rightarrow> False"
  by code_simp

end
