(* ===== verification/MatrixToLLVM.thy ===== *)
theory MatrixToLLVM
  imports LlvmSupport
begin

unbundle bit_operations_syntax

text \<open>
  The pass \<open>CoralNPUMatrixToLLVM.cpp\<close>: every placeholder call that loads or
  writes back a matrix tile becomes one intrinsic call per row, with the tile
  descriptor \<open>(tileId << 27) | row\<close> and the address of the row. Operations the
  pass creates are expression trees over the operands of the call; their
  value is given by \<open>eval\<close> at the width of their type.
\<close>

section \<open>Model\<close>

text \<open>SSA values of the LLVM dialect: one the pass does not look into, a constant with an
  integer attribute, another constant, and the operations the pass creates.\<close>

datatype mval =
    MVar nat
  | MConst int
  | MOtherConst nat
  | MMul mval mval
  | MAdd mval mval
  | MShl mval mval
  | MOr mval mval

datatype gep_type = GepI8 | GepI16 | GepF32 | GepI64

datatype llvm_item =
    ICall "string option" "mval list"
  | IIntrinsic string mval gep_type mval mval
  | IFunc string
  | IOtherItem nat

text \<open>\<open>IIntrinsic name tss elem ptr offset\<close> calls the intrinsic on \<open>tss\<close> and on
  \<open>getelementptr elem, ptr[offset]\<close>.\<close>

definition totalOffset :: "mval list \<Rightarrow> mval" where
  "totalOffset ops =
    (let offset = ops ! 2; stride0 = ops ! 5; stride1 = ops ! 6; idx0 = ops ! 7; idx1 = ops ! 8
     in MAdd (MAdd offset (MMul idx0 stride0)) (MMul idx1 stride1))"

definition num_rows :: "mval list \<Rightarrow> int" where
  "num_rows ops = (case ops ! 3 of MConst n \<Rightarrow> n | _ \<Rightarrow> 4)"

definition isLoadCallee :: "llvm_api \<Rightarrow> string \<Rightarrow> bool" where
  "isLoadCallee L callee \<longleftrightarrow> sr_find L callee ''load'' \<noteq> None"

text \<open>Lines 94-97: the width is read behind a fixed number of characters; when that is not a
  number the variable keeps the value 32.\<close>

definition callee_width :: "llvm_api \<Rightarrow> string \<Rightarrow> nat" where
  "callee_width L callee =
    (let widthStr = (if isLoadCallee L callee then drop 19 callee else drop 24 callee)
     in case getAsUnsigned10 L widthStr of Some w \<Rightarrow> w | None \<Rightarrow> 32)"

definition width_intrinsic :: "nat \<Rightarrow> bool \<Rightarrow> (gep_type \<times> string) option" where
  "width_intrinsic width isLoad =
    (if width = 8 then Some (GepI8, if isLoad then ''llvm.riscv.zvt.vtle8'' else ''llvm.riscv.zvt.vtse8'')
     else if width = 16 then Some (GepI16, if isLoad then ''llvm.riscv.zvt.vtle16'' else ''llvm.riscv.zvt.vtse16'')
     else if width = 32 then Some (GepF32, if isLoad then ''llvm.riscv.zvt.vtle32'' else ''llvm.riscv.zvt.vtse32'')
     else if width = 64 then Some (GepI64, if isLoad then ''llvm.riscv.zvt.vtle64'' else ''llvm.riscv.zvt.vtse64'')
     else None)"

text \<open>The body of the loop over the rows.\<close>

definition row_intrinsic :: "gep_type \<Rightarrow> string \<Rightarrow> mval list \<Rightarrow> int \<Rightarrow> llvm_item" where
  "row_intrinsic elem name ops row =
    (let alignedPtr = ops ! 1; stride0 = ops ! 5; tileId = ops ! 9;
         tss = MOr (MShl tileId (MConst 27)) (MConst row);
         finalOffset = MAdd (totalOffset ops) (MMul (MConst row) stride0)
     in IIntrinsic name tss elem alignedPtr finalOffset)"

definition lowerMatrixMemOp :: "llvm_api \<Rightarrow> string \<Rightarrow> mval list \<Rightarrow> string + llvm_item list" where
  "lowerMatrixMemOp L callee ops =
    (if length ops \<noteq> 10 then Inl ''expected 10 operands after LLVM conversion''
     else case width_intrinsic (callee_width L callee) (isLoadCallee L callee) of
       None \<Rightarrow> Inl ''unsupported width''
     | Some (elem, name) \<Rightarrow> Inr (map (row_intrinsic elem name ops) [0..num_rows ops - 1]))"

definition isWritebackCall :: "llvm_api \<Rightarrow> llvm_item \<Rightarrow> bool" where
  "isWritebackCall L it =
    (case it of ICall (Some callee) _ \<Rightarrow> sr_starts_with L callee ''coralnpu.matrix.writeback.w'' | _ \<Rightarrow> False)"

definition isLoadCall :: "llvm_api \<Rightarrow> llvm_item \<Rightarrow> bool" where
  "isLoadCall L it =
    (case it of
       ICall (Some callee) _ \<Rightarrow> \<not> sr_starts_with L callee ''coralnpu.matrix.writeback.w'' \<and>
         sr_starts_with L callee ''coralnpu.matrix.load.w''
     | _ \<Rightarrow> False)"

text \<open>One of the two loops over the collected calls: every call of the class is replaced in
  place; the first failure ends the pass.\<close>

fun lower_calls :: "llvm_api \<Rightarrow> (llvm_item \<Rightarrow> bool) \<Rightarrow> llvm_item list \<Rightarrow> string + llvm_item list" where
  "lower_calls L P [] = Inr []"
| "lower_calls L P (it # its) =
     (case (case it of
              ICall (Some callee) ops \<Rightarrow> if P it then lowerMatrixMemOp L callee ops else Inr [it]
            | _ \<Rightarrow> Inr [it]) of
        Inl e \<Rightarrow> Inl e
      | Inr new \<Rightarrow>
        (case lower_calls L P its of Inl e \<Rightarrow> Inl e | Inr rest \<Rightarrow> Inr (new @ rest)))"

definition isPlaceholderFunc :: "llvm_api \<Rightarrow> llvm_item \<Rightarrow> bool" where
  "isPlaceholderFunc L it =
    (case it of
       IFunc name \<Rightarrow> sr_starts_with L name ''coralnpu.matrix.writeback'' \<or>
         sr_starts_with L name ''coralnpu.matrix.load''
     | _ \<Rightarrow> False)"

definition runMatrixToLLVM :: "llvm_api \<Rightarrow> llvm_item list \<Rightarrow> llvm_item list pass_result" where
  "runMatrixToLLVM L its =
    (case lower_calls L (isWritebackCall L) its of
       Inl e \<Rightarrow> PassFailure e
     | Inr its1 \<Rightarrow>
       (case lower_calls L (isLoadCall L) its1 of
          Inl e \<Rightarrow> PassFailure e
        | Inr its2 \<Rightarrow> PassOk (filter (\<lambda>it. \<not> isPlaceholderFunc L it) its2)))"

section \<open>Values\<close>

fun eval :: "(nat \<Rightarrow> 'w::len word) \<Rightarrow> mval \<Rightarrow> 'w word" where
  "eval env (MVar v) = env v"
| "eval env (MConst n) = word_of_int n"
| "eval env (MOtherConst v) = env v"
| "eval env (MMul a b) = eval env a * eval env b"
| "eval env (MAdd a b) = eval env a + eval env b"
| "eval env (MShl a b) = push_bit (unat (eval env b)) (eval env a)"
| "eval env (MOr a b) = eval env a OR eval env b"

text \<open>The tile and row fields of a 32-bit descriptor.\<close>

definition tss_tile :: "32 word \<Rightarrow> 32 word" where
  "tss_tile w = drop_bit 27 w"

definition tss_row :: "32 word \<Rightarrow> 32 word" where
  "tss_row w = take_bit 27 w"

section \<open>Lemmas\<close>

lemma tss_fields:
  fixes t r :: "32 word"
  assumes "unat t < 32" "unat r < 2 ^ 27"
  shows "tss_tile (push_bit 27 t OR r) = t" "tss_row (push_bit 27 t OR r) = r"
proof -
  have r: "take_bit 27 r = r"
    using assms(2) by (simp add: word_unat_eq_iff take_bit_eq_mod unat_mod_distrib)
  have t: "take_bit 5 t = t"
    using assms(1) by (simp add: word_unat_eq_iff take_bit_eq_mod unat_mod_distrib)
  have rb: "bit r n \<Longrightarrow> n < 27" for n
    using r by (metis bit_take_bit_iff)
  have tb: "bit t n \<Longrightarrow> n < 5" for n
    using t by (metis bit_take_bit_iff)
  show "tss_tile (push_bit 27 t OR r) = t"
    unfolding tss_tile_def
    by (rule bit_word_eqI) (auto simp: bit_simps dest: rb tb)
  show "tss_row (push_bit 27 t OR r) = r"
    unfolding tss_row_def
    by (rule bit_word_eqI) (auto simp: bit_simps dest: rb)
qed

lemma take_prefix_append: "take (length p) s = p \<Longrightarrow> \<exists>rest. s = p @ rest"
  by (metis append_take_drop_id)

lemma starts_with_append:
  "llvm_ok L \<Longrightarrow> sr_starts_with L s p \<Longrightarrow> \<exists>rest. s = p @ rest"
  using take_prefix_append string_ref_laws(6) by blast

text \<open>The width suffix of a placeholder name is never reached: the fixed offsets 19 and 24 lie
  inside the prefix.\<close>

lemma callee_width_32:
  assumes "llvm_ok L"
    "sr_starts_with L callee ''coralnpu.matrix.writeback.w'' \<or> sr_starts_with L callee ''coralnpu.matrix.load.w''"
  shows "callee_width L callee = 32"
proof -
  have nd: "\<not> is_digit (CHR ''w'')" by (simp add: is_digit_def digit_val_def)
  have wb: "CHR ''w'' \<in> set (drop k (''coralnpu.matrix.writeback.w'' @ rest))" if "k \<le> 26" for k rest
  proof -
    have "drop k (''coralnpu.matrix.writeback.'' @ ''w'' @ rest) =
        drop k ''coralnpu.matrix.writeback.'' @ ''w'' @ rest"
      using that by (simp only: drop_append) simp
    then show ?thesis by simp
  qed
  have ld: "CHR ''w'' \<in> set (drop 19 (''coralnpu.matrix.load.w'' @ rest))" for rest by simp
  have isld: "isLoadCallee L (''coralnpu.matrix.load.w'' @ rest)" for rest
    by (simp add: isLoadCallee_def string_ref_laws(1)[OF assms(1)])
  have "CHR ''w'' \<in> set (if isLoadCallee L callee then drop 19 callee else drop 24 callee)"
    using assms(2)
  proof
    assume "sr_starts_with L callee ''coralnpu.matrix.writeback.w''"
    from starts_with_append[OF assms(1) this] obtain rest where
      c: "callee = ''coralnpu.matrix.writeback.w'' @ rest" by (rule exE)
    have "CHR ''w'' \<in> set (drop 19 callee)" "CHR ''w'' \<in> set (drop 24 callee)"
      unfolding c by (rule wb, simp)+
    then show ?thesis by (cases "isLoadCallee L callee") (simp_all only: if_True if_False)
  next
    assume "sr_starts_with L callee ''coralnpu.matrix.load.w''"
    from starts_with_append[OF assms(1) this] obtain rest where
      c: "callee = ''coralnpu.matrix.load.w'' @ rest" by (rule exE)
    have i: "isLoadCallee L callee" unfolding c by (rule isld)
    show ?thesis unfolding if_P[OF i] unfolding c by (rule ld)
  qed
  from string_ref_laws(5)[OF assms(1) this nd] show ?thesis
    by (simp add: callee_width_def Let_def)
qed

definition placeholder_callee :: "llvm_api \<Rightarrow> string \<Rightarrow> bool" where
  "placeholder_callee L callee \<longleftrightarrow>
     sr_starts_with L callee ''coralnpu.matrix.writeback.w'' \<or> sr_starts_with L callee ''coralnpu.matrix.load.w''"

lemma lowerMatrixMemOp_placeholder:
  assumes "llvm_ok L" "placeholder_callee L callee" "length ops = 10"
  shows "lowerMatrixMemOp L callee ops = Inr (map
    (row_intrinsic GepF32 (if isLoadCallee L callee then ''llvm.riscv.zvt.vtle32'' else ''llvm.riscv.zvt.vtse32'') ops)
    [0..num_rows ops - 1])"
  using callee_width_32[OF assms(1)] assms(2,3)
  by (simp add: lowerMatrixMemOp_def placeholder_callee_def width_intrinsic_def)

text \<open>Lowering of a list of items, item by item.\<close>

definition lowered_item :: "llvm_api \<Rightarrow> (llvm_item \<Rightarrow> bool) \<Rightarrow> llvm_item \<Rightarrow> string + llvm_item list" where
  "lowered_item L P it =
    (case it of
       ICall (Some callee) ops \<Rightarrow> if P it then lowerMatrixMemOp L callee ops else Inr [it]
     | _ \<Rightarrow> Inr [it])"

lemma lower_calls_Cons:
  "lower_calls L P (it # its) =
     (case lowered_item L P it of
        Inl e \<Rightarrow> Inl e
      | Inr new \<Rightarrow> (case lower_calls L P its of Inl e \<Rightarrow> Inl e | Inr rest \<Rightarrow> Inr (new @ rest)))"
  by (simp add: lowered_item_def)

declare lower_calls.simps(2) [simp del]

lemma lower_calls_result:
  assumes "\<And>it. it \<in> set its \<Longrightarrow> lowered_item L P it = Inr (g it)"
  shows "lower_calls L P its = Inr (concat (map g its))"
  using assms by (induction its) (simp_all add: lower_calls_Cons)

lemma lower_calls_error:
  assumes "it \<in> set its" "lowered_item L P it = Inl e"
  shows "\<exists>e. lower_calls L P its = Inl e"
  using assms by (induction its) (auto simp: lower_calls_Cons split: sum.splits)

text \<open>What an item becomes when its operands are as expected.\<close>

definition rows_of :: "llvm_api \<Rightarrow> llvm_item \<Rightarrow> llvm_item list" where
  "rows_of L it =
    (case it of
       ICall (Some callee) ops \<Rightarrow>
         map (row_intrinsic GepF32 (if isLoadCallee L callee then ''llvm.riscv.zvt.vtle32''
           else ''llvm.riscv.zvt.vtse32'') ops) [0..num_rows ops - 1]
     | _ \<Rightarrow> [it])"

definition is_placeholder :: "llvm_api \<Rightarrow> llvm_item \<Rightarrow> bool" where
  "is_placeholder L it \<longleftrightarrow> isWritebackCall L it \<or> isLoadCall L it"

definition ten_operands :: "llvm_item \<Rightarrow> bool" where
  "ten_operands it = (case it of ICall _ ops \<Rightarrow> length ops = 10 | _ \<Rightarrow> True)"

lemma is_placeholder_callee:
  "is_placeholder L it \<longleftrightarrow> (\<exists>callee ops. it = ICall (Some callee) ops \<and> placeholder_callee L callee)"
  by (auto simp: is_placeholder_def isWritebackCall_def isLoadCall_def placeholder_callee_def
      split: llvm_item.splits option.splits)

lemma lowered_item_ok:
  assumes "llvm_ok L" "P it \<longrightarrow> is_placeholder L it \<and> ten_operands it" "\<And>it. P it \<Longrightarrow> is_placeholder L it"
  shows "lowered_item L P it = Inr (if P it then rows_of L it else [it])"
proof (cases "P it")
  case True
  then obtain callee ops where it: "it = ICall (Some callee) ops" "placeholder_callee L callee"
    using assms(3) is_placeholder_callee by blast
  moreover have "length ops = 10" using assms(2) True it(1) by (simp add: ten_operands_def)
  ultimately show ?thesis
    using True lowerMatrixMemOp_placeholder[OF assms(1)] by (simp add: lowered_item_def rows_of_def)
qed (auto simp: lowered_item_def split: llvm_item.split option.split)

lemma lowered_item_error:
  assumes "P it" "is_placeholder L it" "\<not> ten_operands it"
  shows "\<exists>e. lowered_item L P it = Inl e"
  using assms by (auto simp: is_placeholder_callee lowered_item_def ten_operands_def lowerMatrixMemOp_def)

lemma rows_of_placeholder:
  assumes "is_placeholder L it" "y \<in> set (rows_of L it)"
  shows "\<not> is_placeholder L y \<and> ten_operands y \<and> \<not> isPlaceholderFunc L y \<and> \<not> isLoadCall L y \<and> \<not> isWritebackCall L y"
  using assms
  by (auto simp: is_placeholder_callee rows_of_def row_intrinsic_def Let_def ten_operands_def
      isPlaceholderFunc_def isLoadCall_def isWritebackCall_def)

lemma runMatrixToLLVM_ok:
  assumes L: "llvm_ok L" and ten: "\<forall>it \<in> set its. is_placeholder L it \<longrightarrow> ten_operands it"
  shows "runMatrixToLLVM L its = PassOk
    (filter (\<lambda>it. \<not> isPlaceholderFunc L it) (concat (map (\<lambda>it. if is_placeholder L it then rows_of L it else [it]) its)))"
proof -
  let ?w = "\<lambda>it. if isWritebackCall L it then rows_of L it else [it]"
  let ?l = "\<lambda>it. if isLoadCall L it then rows_of L it else [it]"
  have wb: "lower_calls L (isWritebackCall L) its = Inr (concat (map ?w its))"
    using ten by (intro lower_calls_result lowered_item_ok[OF L]) (auto simp: is_placeholder_def)
  have ld: "lower_calls L (isLoadCall L) (concat (map ?w its)) = Inr (concat (map ?l (concat (map ?w its))))"
  proof (intro lower_calls_result lowered_item_ok[OF L] impI)
    fix y assume y: "y \<in> set (concat (map ?w its))" and ly: "isLoadCall L y"
    from y obtain it where it: "it \<in> set its" "y \<in> set (?w it)" by auto
    show "is_placeholder L y \<and> ten_operands y"
    proof (cases "isWritebackCall L it")
      case True
      then have "is_placeholder L it" "y \<in> set (rows_of L it)" using it(2) by (simp_all add: is_placeholder_def)
      with rows_of_placeholder ly show ?thesis by blast
    next
      case False
      then have "y = it" using it(2) by simp
      moreover have "is_placeholder L y" using ly by (simp add: is_placeholder_def)
      ultimately show ?thesis using ten it(1) by blast
    qed
  qed (simp add: is_placeholder_def)
  have once: "concat (map ?l (rows_of L it)) = rows_of L it" if "is_placeholder L it" for it
  proof -
    have "map ?l (rows_of L it) = map (\<lambda>y. [y]) (rows_of L it)"
      by (rule map_cong[OF refl]) (use rows_of_placeholder[OF that] in simp)
    then have "concat (map ?l (rows_of L it)) = concat (map (\<lambda>y. [y]) (rows_of L it))" by (rule arg_cong)
    then show ?thesis by simp
  qed
  have excl: "isWritebackCall L it \<Longrightarrow> \<not> isLoadCall L it" for it
    by (auto simp: isWritebackCall_def isLoadCall_def split: llvm_item.splits option.splits)
  have each: "concat (map ?l (?w it)) = (if is_placeholder L it then rows_of L it else [it])" for it
    using once[of it] excl[of it] by (auto simp: is_placeholder_def)
  have "concat (map ?l (concat (map ?w its))) = concat (map (\<lambda>it. concat (map ?l (?w it))) its)"
    by (induction its) simp_all
  then show ?thesis using wb ld by (simp only: runMatrixToLLVM_def sum.case each)
qed

lemma lower_calls_keeps: "lower_calls L P its = Inr its1 \<Longrightarrow> it \<in> set its \<Longrightarrow> \<not> P it \<Longrightarrow> it \<in> set its1"
proof (induction its arbitrary: its1)
  case (Cons x xs)
  have "lowered_item L P it = Inr [it]" using Cons.prems(3) by (auto simp: lowered_item_def split: llvm_item.split option.split)
  with Cons show ?case by (auto simp: lower_calls_Cons split: sum.splits)
qed simp

text \<open>A placeholder call without its ten operands ends the pass.\<close>

lemma runMatrixToLLVM_fails:
  assumes "it \<in> set its" "is_placeholder L it" "\<not> ten_operands it"
  shows "\<exists>e. runMatrixToLLVM L its = PassFailure e"
proof (cases "isWritebackCall L it")
  case True
  from lower_calls_error[OF assms(1)] lowered_item_error[of "isWritebackCall L", OF True assms(2,3)]
  show ?thesis by (fastforce simp: runMatrixToLLVM_def)
next
  case False
  show ?thesis
  proof (cases "lower_calls L (isWritebackCall L) its")
    case (Inr its1)
    have "isLoadCall L it" using assms(2) False by (simp add: is_placeholder_def)
    from lowered_item_error[of "isLoadCall L", OF this assms(2,3)] lower_calls_error[OF lower_calls_keeps[OF Inr assms(1) False]]
    obtain e where "lower_calls L (isLoadCall L) its1 = Inl e" by metis
    then show ?thesis using Inr by (simp add: runMatrixToLLVM_def)
  qed (simp add: runMatrixToLLVM_def)
qed

section \<open>Properties\<close>

text \<open>
  A placeholder call on a tile with \<open>n\<close> rows becomes \<open>n\<close> intrinsic calls.
  The descriptor of call \<open>k\<close> decodes to the tile number and row \<open>k\<close>, and its
  address is the aligned pointer indexed by
  \<open>offset + idx0 * stride0 + idx1 * stride1 + k * stride0\<close>, in machine arithmetic
  of the index width.
\<close>

theorem matrix_rows_lowered:
  fixes env :: "nat \<Rightarrow> 'w::len word" and env32 :: "nat \<Rightarrow> 32 word"
  assumes "llvm_ok L" "placeholder_callee L callee" "length ops = 10"
    "0 \<le> num_rows ops" "num_rows ops \<le> 2 ^ 27" "unat (eval env32 (ops ! 9)) < 32"
  shows "\<exists>its. lowerMatrixMemOp L callee ops = Inr its \<and> length its = nat (num_rows ops) \<and>
    (\<forall>k < length its. \<exists>name tss elem off. its ! k = IIntrinsic name tss elem (ops ! 1) off \<and>
       tss_tile (eval env32 tss) = eval env32 (ops ! 9) \<and> tss_row (eval env32 tss) = of_nat k \<and>
       eval env off = eval env (ops ! 2) + eval env (ops ! 7) * eval env (ops ! 5) +
         eval env (ops ! 8) * eval env (ops ! 6) + of_nat k * eval env (ops ! 5))"
proof -
  let ?name = "if isLoadCallee L callee then ''llvm.riscv.zvt.vtle32'' else ''llvm.riscv.zvt.vtse32''"
  let ?its = "map (row_intrinsic GepF32 ?name ops) [0..num_rows ops - 1]"
  have len: "length ?its = nat (num_rows ops)" using assms(4) by simp
  have row: "\<exists>name tss elem off. ?its ! k = IIntrinsic name tss elem (ops ! 1) off \<and>
       tss_tile (eval env32 tss) = eval env32 (ops ! 9) \<and> tss_row (eval env32 tss) = of_nat k \<and>
       eval env off = eval env (ops ! 2) + eval env (ops ! 7) * eval env (ops ! 5) +
         eval env (ops ! 8) * eval env (ops ! 6) + of_nat k * eval env (ops ! 5)"
    if "k < length ?its" for k
  proof -
    have k: "int k < num_rows ops" using that len by simp
    then have nth: "?its ! k = row_intrinsic GepF32 ?name ops (int k)" by simp
    have "int k < 2 ^ 27" using k assms(5) by linarith
    then have "k < 2 ^ 27" by simp
    then have "unat (of_nat k :: 32 word) < 2 ^ 27"
      by (simp add: unat_of_nat take_bit_nat_eq_self)
    note f = tss_fields[OF assms(6) this]
    show ?thesis
      unfolding nth using f by (simp add: row_intrinsic_def Let_def totalOffset_def)
  qed
  show ?thesis
    using lowerMatrixMemOp_placeholder[OF assms(1-3)] len row by blast
qed

definition example_operands :: "mval list" where
  "example_operands = [MVar 0, MVar 1, MConst 0, MConst 4, MConst 4, MConst 4, MConst 1, MConst 0, MConst 0, MConst 3]"

lemma matrix_rows_lowered_witness:
  "\<exists>its. lowerMatrixMemOp llvm_ref ''coralnpu.matrix.load.w32'' example_operands = Inr its \<and> length its = 4 \<and>
    (\<forall>k < length its. \<exists>name tss elem off. its ! k = IIntrinsic name tss elem (MVar 1) off \<and>
       tss_tile (eval (\<lambda>_. 0 :: 32 word) tss) = 3 \<and> tss_row (eval (\<lambda>_. 0 :: 32 word) tss) = of_nat k \<and>
       eval (\<lambda>_. 0 :: 64 word) off = of_nat k * 4)"
proof -
  have "placeholder_callee llvm_ref ''coralnpu.matrix.load.w32''" by code_simp
  then show ?thesis
    using matrix_rows_lowered[of llvm_ref "''coralnpu.matrix.load.w32''" example_operands
        "\<lambda>_. 0 :: 32 word" "\<lambda>_. 0 :: 64 word"]
    by (simp add: example_operands_def num_rows_def)
qed

text \<open>
  The element width of a placeholder is ignored: whatever follows the
  \<open>w\<close> of its name, the call is lowered to the 32-bit intrinsic, because the
  substring offsets 19 and 24 point into the prefix and the number never
  parses. The branch for unsupported widths is dead.
\<close>

theorem matrix_width_ignored:
  assumes "llvm_ok L" "placeholder_callee L callee" "length ops = 10"
  shows "\<exists>its. lowerMatrixMemOp L callee ops = Inr its \<and>
    list_all (\<lambda>it. case it of IIntrinsic name _ elem _ _ \<Rightarrow> elem = GepF32 \<and>
        (name = ''llvm.riscv.zvt.vtle32'' \<or> name = ''llvm.riscv.zvt.vtse32'') | _ \<Rightarrow> False) its"
  using lowerMatrixMemOp_placeholder[OF assms]
  by (simp add: list_all_iff row_intrinsic_def Let_def)

lemma matrix_width_ignored_witness:
  "\<exists>its. lowerMatrixMemOp llvm_ref ''coralnpu.matrix.load.w8'' example_operands = Inr its \<and>
    list_all (\<lambda>it. case it of IIntrinsic name _ elem _ _ \<Rightarrow> elem = GepF32 \<and>
        (name = ''llvm.riscv.zvt.vtle32'' \<or> name = ''llvm.riscv.zvt.vtse32'') | _ \<Rightarrow> False) its"
proof -
  have "placeholder_callee llvm_ref ''coralnpu.matrix.load.w8''" by code_simp
  from matrix_width_ignored[OF llvm_ref_ok this, of example_operands] show ?thesis
    by (simp add: example_operands_def)
qed

text \<open>
  The pass succeeds exactly when every placeholder call has its 10
  operands, and then no placeholder call and no placeholder declaration is
  left; everything else stays in place and in order.
\<close>

theorem matrix_placeholders_removed:
  assumes "llvm_ok L"
  shows "(\<exists>its'. runMatrixToLLVM L its = PassOk its' \<and>
      filter (\<lambda>it. is_placeholder L it \<or> isPlaceholderFunc L it) its' = []) \<longleftrightarrow>
    (\<forall>it \<in> set its. is_placeholder L it \<longrightarrow> ten_operands it)"
proof
  assume ten: "\<forall>it \<in> set its. is_placeholder L it \<longrightarrow> ten_operands it"
  let ?out = "filter (\<lambda>it. \<not> isPlaceholderFunc L it)
      (concat (map (\<lambda>it. if is_placeholder L it then rows_of L it else [it]) its))"
  have "filter (\<lambda>it. is_placeholder L it \<or> isPlaceholderFunc L it) ?out = []"
    using rows_of_placeholder by (auto simp: filter_empty_conv split: if_splits)
  then show "\<exists>its'. runMatrixToLLVM L its = PassOk its' \<and>
      filter (\<lambda>it. is_placeholder L it \<or> isPlaceholderFunc L it) its' = []"
    using runMatrixToLLVM_ok[OF assms ten] by blast
next
  assume "\<exists>its'. runMatrixToLLVM L its = PassOk its' \<and>
      filter (\<lambda>it. is_placeholder L it \<or> isPlaceholderFunc L it) its' = []"
  then show "\<forall>it \<in> set its. is_placeholder L it \<longrightarrow> ten_operands it"
    using runMatrixToLLVM_fails[of _ its L] by (metis pass_result.distinct(1))
qed

lemma matrix_placeholders_removed_witness:
  "\<exists>its'. runMatrixToLLVM llvm_ref [IFunc ''coralnpu.matrix.load.w32'',
      ICall (Some ''coralnpu.matrix.load.w32'') example_operands, IOtherItem 7] = PassOk its' \<and>
    filter (\<lambda>it. is_placeholder llvm_ref it \<or> isPlaceholderFunc llvm_ref it) its' = []"
  unfolding matrix_placeholders_removed[OF llvm_ref_ok]
  by (simp add: ten_operands_def example_operands_def)

end
