(* ===== verification/MatrixMemory.thy ===== *)
theory MatrixMemory
  imports MatrixTiles MatrixToLLVM
begin

text \<open>
  The two matrix passes together. \<open>CoralNPUVectorToMatrix.cpp\<close> replaces the transfers of
  a chain by placeholder calls on a subview of the memref, MLIR converts the calls and the
  memrefs, which become descriptors, and \<open>CoralNPUMatrixToLLVM.cpp\<close> turns each call into
  one row operation per row of the tile. What the conversion does to a call is stated by
  \<open>descriptor_call\<close>; the theorem says which elements of the original memref the rows are
  at.
\<close>

section \<open>Memref descriptors\<close>

text \<open>The descriptor of the memref a transfer names: its aligned pointer, its offset and one
  stride per dimension, all in elements.\<close>

record memref_desc =
  md_ptr :: mval
  md_offset :: mval
  md_strides :: "mval list"

text \<open>Where MLIR's strided layout puts the element at some indices.\<close>

definition element_offset :: "(nat \<Rightarrow> 'w::len word) \<Rightarrow> memref_desc \<Rightarrow> 'w word list \<Rightarrow> 'w word" where
  "element_offset env d idx = eval env (md_offset d) + sum_list (map2 (*) idx (map (eval env) (md_strides d)))"

text \<open>
  The operands of a placeholder call after MLIR's conversion to LLVM: the pointers, offset,
  two sizes and two strides of the descriptor of the subview cast to \<open>memref<?x?>\<close>, the
  two indices, which the first pass made zero, and the tile number. A subview keeps the
  pointer, its offset is that of the element at its offsets, and its strides are
  multiplied; dropping unit dimensions leaves the last two. The first size is a constant
  operation with its value or no constant operation.
\<close>

definition descriptor_call ::
  "(nat \<Rightarrow> 'w::len word) \<Rightarrow> (nat \<Rightarrow> 32 word) \<Rightarrow> memref_desc \<Rightarrow> subview \<Rightarrow> nat \<Rightarrow> mval list \<Rightarrow> bool" where
  "descriptor_call env env32 d sv tileId ops \<longleftrightarrow>
     (let n = length (md_strides d); stride = (\<lambda>i. eval env (md_strides d ! i) * of_int (sv_strides sv ! i))
      in length ops = 10 \<and> ops ! 1 = md_ptr d \<and>
         eval env (ops ! 2) = element_offset env d (map env (sv_offsets sv)) \<and>
         (case ops ! 3 of MConst m \<Rightarrow> m = sv_sizes sv ! (n - 2) | _ \<Rightarrow> True) \<and>
         eval env (ops ! 5) = stride (n - 2) \<and> eval env (ops ! 6) = stride (n - 1) \<and>
         eval env (ops ! 7) = 0 \<and> eval env (ops ! 8) = 0 \<and> eval env32 (ops ! 9) = of_nat tileId)"

text \<open>The indices of a transfer moved down by some rows.\<close>

definition row_index :: "'w::len word list \<Rightarrow> nat \<Rightarrow> 'w word list" where
  "row_index idx k = idx[length idx - 2 := idx ! (length idx - 2) + of_nat k]"

section \<open>Lemmas\<close>

lemma map2_update_sum:
  fixes xs ss :: "'w::len word list"
  assumes "i < length xs" "length xs = length ss"
  shows "sum_list (map2 (*) (xs[i := xs ! i + c]) ss) = sum_list (map2 (*) xs ss) + c * ss ! i"
  using assms
proof (induction xs arbitrary: i ss)
  case (Cons x xs)
  obtain s ss1 where "ss = s # ss1" using Cons.prems(2) by (cases ss) auto
  then show ?case using Cons.IH[of "i - 1" ss1] Cons.prems by (cases i) (simp_all add: algebra_simps)
qed simp

lemma element_offset_row:
  assumes "2 \<le> length idx" "length idx = length (md_strides d)"
  shows "element_offset env d (row_index idx k) = element_offset env d idx + of_nat k * eval env (md_strides d ! (length idx - 2))"
  using map2_update_sum[of "length idx - 2" idx "map (eval env) (md_strides d)" "of_nat k"] assms
  by (simp add: element_offset_def row_index_def)

lemma find_load_digits: "list_all is_digit s \<Longrightarrow> find_sub s ''load'' = None"
proof (induction s)
  case (Cons c s)
  have "c \<noteq> CHR ''l''" using Cons.prems by (auto simp: is_digit_def digit_val_def)
  then show ?case using Cons by simp
qed simp

text \<open>The names of the first pass are the names the second looks for.\<close>

lemma placeholder_names:
  assumes "llvm_ok L"
  shows "placeholder_callee L (loadFuncName M e)" "isLoadCallee L (loadFuncName M e)"
    "placeholder_callee L (writebackFuncName M e)" "\<not> isLoadCallee L (writebackFuncName M e)"
proof -
  have "find_sub (show_nat (getIntOrFloatBitWidth M e)) ''load'' = None"
    by (rule find_load_digits) (use show_nat_digits in blast)
  then show "\<not> isLoadCallee L (writebackFuncName M e)"
    by (simp add: isLoadCallee_def string_ref_laws(1)[OF assms] writebackFuncName_def)
  show "placeholder_callee L (loadFuncName M e)" "placeholder_callee L (writebackFuncName M e)"
    by (simp_all add: placeholder_callee_def string_ref_laws(6)[OF assms] loadFuncName_def writebackFuncName_def)
  show "isLoadCallee L (loadFuncName M e)"
    by (simp add: isLoadCallee_def string_ref_laws(1)[OF assms] loadFuncName_def)
qed

lemma descriptor_rows:
  fixes env :: "nat \<Rightarrow> 'w::len word" and env32 :: "nat \<Rightarrow> 32 word"
  assumes sv: "tile_subview tr 4 N = Some sv" and c: "descriptor_call env env32 d sv tileId ops"
    and rank: "length (md_strides d) = tr_rank tr" "length (tr_indices tr) = tr_rank tr" and t: "tileId < 16" and k: "k < 4"
  shows "num_rows ops = 4"
    "\<exists>tss off. row_intrinsic elem name ops (int k) = IIntrinsic name tss elem (md_ptr d) off \<and>
       tss_tile (eval env32 tss) = of_nat tileId \<and> tss_row (eval env32 tss) = of_nat k \<and>
       eval env off = element_offset env d (row_index (map env (tr_indices tr)) k)"
proof -
  have r: "2 \<le> tr_rank tr" and s: "sv_offsets sv = tr_indices tr" "sv_strides sv = replicate (tr_rank tr) 1"
    "sv_sizes sv = replicate (tr_rank tr - 2) 1 @ [4, N]"
    using sv by (auto simp: tile_subview_def Let_def split: if_splits)
  have one: "sv_strides sv ! (tr_rank tr - 2) = 1" "sv_strides sv ! (tr_rank tr - 1) = 1"
    "sv_sizes sv ! (tr_rank tr - 2) = 4" using r by (simp_all add: s nth_append)
  show "num_rows ops = 4" using c by (auto simp: descriptor_call_def Let_def num_rows_def rank(1) one split: mval.splits)
  have ut: "unat (of_nat tileId :: 32 word) < 32" using t by (simp add: unat_of_nat take_bit_nat_eq_self)
  have uk: "unat (of_nat k :: 32 word) < 2 ^ 27" using k by (simp add: unat_of_nat take_bit_nat_eq_self)
  have o5: "eval env (ops ! 5) = eval env (md_strides d ! (tr_rank tr - 2))" "eval env (ops ! 7) = 0" "eval env (ops ! 8) = 0"
    "eval env (ops ! 2) = element_offset env d (map env (tr_indices tr))" "ops ! 1 = md_ptr d" "eval env32 (ops ! 9) = of_nat tileId"
    using c by (simp_all add: descriptor_call_def Let_def rank(1) one s(1))
  show "\<exists>tss off. row_intrinsic elem name ops (int k) = IIntrinsic name tss elem (md_ptr d) off \<and>
       tss_tile (eval env32 tss) = of_nat tileId \<and> tss_row (eval env32 tss) = of_nat k \<and>
       eval env off = element_offset env d (row_index (map env (tr_indices tr)) k)"
    using tss_fields[OF ut uk] element_offset_row[of "map env (tr_indices tr)" d env k] r rank
    unfolding row_intrinsic_def Let_def totalOffset_def o5 by (simp add: o5)
qed

text \<open>The pass on a module with one call singled out.\<close>

lemma run_at_call:
  assumes "llvm_ok L" "placeholder_callee L name" "\<forall>it \<in> set (pre @ ICall (Some name) ops # post). is_placeholder L it \<longrightarrow> ten_operands it"
  shows "\<exists>pre1 post1. runMatrixToLLVM L (pre @ ICall (Some name) ops # post) = PassOk (pre1 @ rows_of L (ICall (Some name) ops) @ post1)"
proof -
  have p: "is_placeholder L (ICall (Some name) ops)" using assms(2) by (auto simp: is_placeholder_callee)
  have "filter (\<lambda>it. \<not> isPlaceholderFunc L it) (rows_of L (ICall (Some name) ops)) = rows_of L (ICall (Some name) ops)"
    using rows_of_placeholder[OF p] by (simp add: filter_id_conv)
  then show ?thesis using runMatrixToLLVM_ok[OF assms(1,3)] p by auto
qed

section \<open>Property\<close>

text \<open>
  C15. The two matrix passes agree on memory: for a chain of 4-row tiles, the placeholder call the
  first pass emits for the transfer read it starts from, or for its transfer write,
  becomes in the second exactly four row operations, loads for the first and stores for
  the other, on rows 0 to 3 of the chain's tile, row \<open>k\<close> at the element of the original
  memref, of any rank, whose indices are those of the transfer with \<open>k\<close> added to the row
  index, in the machine arithmetic of the index width.
\<close>

theorem tile_rows_at_transfer:
  fixes env :: "nat \<Rightarrow> 'w::len word" and env32 :: "nat \<Rightarrow> 32 word"
  assumes "llvm_ok L"
    "init_tile M ch 4 N tileId = Some (ELoad name sv tileId) \<and> ch_init ch = VTransferRead ty v tr \<and> instr = ''llvm.riscv.zvt.vtle32'' \<or>
     writeback_tile M tr 4 N tileId = Some (EWriteback name sv tileId) \<and> instr = ''llvm.riscv.zvt.vtse32''"
    "descriptor_call env env32 d sv tileId ops" "length (md_strides d) = tr_rank tr" "length (tr_indices tr) = tr_rank tr" "tileId < 16"
    "\<forall>it \<in> set (pre @ ICall (Some name) ops # post). is_placeholder L it \<longrightarrow> ten_operands it"
  shows "\<exists>pre1 rows post1. runMatrixToLLVM L (pre @ ICall (Some name) ops # post) = PassOk (pre1 @ rows @ post1) \<and>
    length rows = 4 \<and>
    (\<forall>k < 4. \<exists>tss off. rows ! k = IIntrinsic instr tss GepF32 (md_ptr d) off \<and>
       tss_tile (eval env32 tss) = of_nat tileId \<and> tss_row (eval env32 tss) = of_nat k \<and>
       eval env off = element_offset env d (row_index (map env (tr_indices tr)) k))"
proof -
  have sv: "tile_subview tr 4 N = Some sv" and n: "placeholder_callee L name"
    and i: "instr = (if isLoadCallee L name then ''llvm.riscv.zvt.vtle32'' else ''llvm.riscv.zvt.vtse32'')"
    using assms(2) placeholder_names[OF assms(1)] by (auto simp: init_tile_def writeback_tile_def)
  note rows = descriptor_rows[OF sv assms(3-6)]
  have e: "rows_of L (ICall (Some name) ops) = map (row_intrinsic GepF32 instr ops) [0..3]"
    using rows(1)[of 0] by (simp add: rows_of_def i)
  have "[0..3] ! k = int k" if "k < 4" for k using that by (simp add: nth_upto)
  then have "map (row_intrinsic GepF32 instr ops) [0..3] ! k = row_intrinsic GepF32 instr ops (int k)" if "k < 4" for k
    using that by simp
  moreover have "length (map (row_intrinsic GepF32 instr ops) [0..3]) = 4" by simp
  moreover obtain pre1 post1 where "runMatrixToLLVM L (pre @ ICall (Some name) ops # post) =
      PassOk (pre1 @ map (row_intrinsic GepF32 instr ops) [0..3] @ post1)"
    using run_at_call[OF assms(1) n assms(7)] unfolding e by blast
  ultimately show ?thesis using rows(2) by metis
qed

text \<open>A row in the middle of a memref of rank 3, with a dynamic size.\<close>

definition ex_desc :: memref_desc where
  "ex_desc = \<lparr>md_ptr = MVar 1, md_offset = MVar 2, md_strides = [MVar 3, MConst 16, MConst 1]\<rparr>"

definition ex_dest :: transfer where
  "ex_dest = \<lparr>tr_base = 0, tr_rank = 3, tr_elem = FloatT 32, tr_indices = [4, 5, 6]\<rparr>"

definition ex_env :: "nat \<Rightarrow> 32 word" where
  "ex_env i = [0, 4096, 8, 256, 2, 3, 7, 575, 0] ! i"

definition ex_call :: "mval list" where
  "ex_call = [MVar 0, MVar 1, MVar 7, MVar 8, MConst 4, MConst 16, MConst 1, MConst 0, MConst 0, MConst 3]"

lemma tile_rows_at_transfer_witness:
  "\<exists>pre1 rows post1. runMatrixToLLVM llvm_ref [ICall (Some ''coralnpu.matrix.writeback.w32'') ex_call] = PassOk (pre1 @ rows @ post1) \<and>
    length rows = 4 \<and>
    (\<forall>k < 4. \<exists>tss off. rows ! k = IIntrinsic ''llvm.riscv.zvt.vtse32'' tss GepF32 (MVar 1) off \<and>
       tss_tile (eval ex_env tss) = 3 \<and> eval ex_env off = 575 + of_nat k * 16)"
proof -
  define sv where "sv = \<lparr>sv_base = 0, sv_offsets = [4, 5, 6], sv_sizes = [1, 4, 4], sv_strides = [1, 1, 1]\<rparr>"
  have w: "writeback_tile mlir_ref ex_dest 4 4 3 = Some (EWriteback ''coralnpu.matrix.writeback.w32'' sv 3)"
    unfolding sv_def by code_simp
  have c: "descriptor_call ex_env ex_env ex_desc sv 3 ex_call"
    by (simp add: descriptor_call_def ex_desc_def sv_def ex_call_def ex_env_def element_offset_def numeral_eq_Suc)
  have n: "ten_operands (ICall (Some name) ex_call)" for name by (simp add: ten_operands_def ex_call_def)
  have e: "element_offset ex_env ex_desc (row_index (map ex_env (tr_indices ex_dest)) k) = 575 + of_nat k * 16" for k
    by (simp add: element_offset_def ex_desc_def row_index_def ex_dest_def ex_env_def)
  have l: "length (md_strides ex_desc) = tr_rank ex_dest" "length (tr_indices ex_dest) = tr_rank ex_dest" "(3::nat) < 16"
    by (simp_all add: ex_desc_def ex_dest_def)
  have f: "\<forall>it \<in> set ([] @ ICall (Some ''coralnpu.matrix.writeback.w32'') ex_call # []).
      is_placeholder llvm_ref it \<longrightarrow> ten_operands it" using n by simp
  note result = tile_rows_at_transfer[OF llvm_ref_ok disjI2[OF conjI[OF w refl]] c l f]
  have p: "md_ptr ex_desc = MVar 1" by (simp add: ex_desc_def)
  obtain pre1 rows post1 where r: "runMatrixToLLVM llvm_ref [ICall (Some ''coralnpu.matrix.writeback.w32'') ex_call] = PassOk (pre1 @ rows @ post1)"
      "length rows = 4"
    and k: "\<forall>k < 4. \<exists>tss off. rows ! k = IIntrinsic ''llvm.riscv.zvt.vtse32'' tss GepF32 (MVar 1) off \<and>
       tss_tile (eval ex_env tss) = of_nat 3 \<and> tss_row (eval ex_env tss) = of_nat k \<and> eval ex_env off = 575 + of_nat k * 16"
    using result unfolding e p append_Nil by (elim exE conjE) (rule that)
  have "\<exists>tss off. rows ! k = IIntrinsic ''llvm.riscv.zvt.vtse32'' tss GepF32 (MVar 1) off \<and>
       tss_tile (eval ex_env tss) = 3 \<and> eval ex_env off = 575 + of_nat k * 16" if "k < 4" for k
    using k[rule_format, OF that] unfolding of_nat_numeral by (elim exE conjE) (intro exI conjI)
  then show ?thesis using r by (intro exI[of _ pre1] exI[of _ rows] exI[of _ post1] conjI allI impI)
qed

end
