(* ===== verification/CheckParse.thy ===== *)
theory CheckParse
  imports Decimal
begin

text \<open>
  \<open>tools/check_gen/ParseUtils.cpp\<close>: the instance strings of the command line
  and the result type of a generator's declaration; and the suffix by which
  \<open>CheckTestGenerator::generateCheckTest\<close> names the file of an instance. The
  lemmas show that parsing ends and reads back every instance, and that the
  suffix is injective on instances of one shape.
\<close>

section \<open>String references\<close>

text \<open>The operations of \<open>llvm::StringRef\<close> used here: \<open>find(char, from)\<close>, \<open>find(StringRef)\<close>,
  \<open>split(tokens, char)\<close>, \<open>trim()\<close> and \<open>getAsInteger(10, int64_t)\<close>.\<close>

record text_api =
  tx_find :: "char \<Rightarrow> nat \<Rightarrow> string \<Rightarrow> nat option"
  tx_find_str :: "string \<Rightarrow> string \<Rightarrow> nat option"
  tx_split :: "char \<Rightarrow> string \<Rightarrow> string list"
  tx_trim :: "string \<Rightarrow> string"
  tx_getInt64 :: "string \<Rightarrow> int option"

fun find_char :: "char \<Rightarrow> string \<Rightarrow> nat option" where
  "find_char c [] = None"
| "find_char c (x # xs) = (if x = c then Some 0 else map_option Suc (find_char c xs))"

definition find_from :: "char \<Rightarrow> nat \<Rightarrow> string \<Rightarrow> nat option" where
  "find_from c i s = map_option (\<lambda>k. i + k) (find_char c (drop i s))"

fun split_char :: "char \<Rightarrow> string \<Rightarrow> string list" where
  "split_char c [] = [[]]"
| "split_char c (x # xs) =
     (if x = c then [] # split_char c xs
      else (case split_char c xs of t # ts \<Rightarrow> (x # t) # ts | [] \<Rightarrow> [[x]]))"

definition is_blank :: "char \<Rightarrow> bool" where
  "is_blank c \<longleftrightarrow> of_char c \<in> {9::int, 10, 11, 12, 13, 32}"

definition trim_ref :: "string \<Rightarrow> string" where
  "trim_ref s = rev (dropWhile is_blank (rev (dropWhile is_blank s)))"

definition text_ok :: "text_api \<Rightarrow> bool" where
  "text_ok T \<longleftrightarrow>
     (\<forall>c i s. tx_find T c i s = find_from c i s) \<and> (\<forall>p s. tx_find_str T p s = find_sub s p) \<and>
     (\<forall>c s. tx_split T c s = split_char c s) \<and> (\<forall>s. tx_trim T s = trim_ref s) \<and>
     (\<forall>s. tx_getInt64 T s = parse_dec s)"

definition text_ref :: text_api where
  "text_ref = \<lparr>tx_find = find_from, tx_find_str = (\<lambda>p s. find_sub s p), tx_split = split_char,
               tx_trim = trim_ref, tx_getInt64 = parse_dec\<rparr>"

lemma text_ref_ok [simp]: "text_ok text_ref"
  by (simp add: text_ok_def text_ref_def)

lemma text_laws [api_laws]:
  assumes "text_ok T"
  shows "tx_find T c i s = find_from c i s" "tx_find_str T p s = find_sub s p"
    "tx_split T c s = split_char c s" "tx_trim T s = trim_ref s" "tx_getInt64 T s = parse_dec s"
  using assms by (simp_all add: text_ok_def)

section \<open>Instances\<close>

text \<open>Lines 42-52: the integers of one group; \<open>None\<close> is the early return of the empty vector.\<close>

fun parse_tokens :: "text_api \<Rightarrow> string list \<Rightarrow> int list \<Rightarrow> int list option" where
  "parse_tokens T [] vals = Some vals"
| "parse_tokens T (token # tokens) vals =
     (case tx_getInt64 T (tx_trim T token) of
        None \<Rightarrow> None
      | Some val \<Rightarrow> parse_tokens T tokens (vals @ [val]))"

definition parse_group :: "text_api \<Rightarrow> string \<Rightarrow> int list option" where
  "parse_group T groupRaw =
    (if groupRaw = [] then Some [] else parse_tokens T (tx_split T (CHR '','') groupRaw) [])"

text \<open>The loop from position \<open>i\<close> on; the outer \<open>None\<close> would be a loop that does not end.\<close>

partial_function (option) parse_from ::
  "text_api \<Rightarrow> string \<Rightarrow> nat \<Rightarrow> int list list \<Rightarrow> int list list option" where
  "parse_from T raw i res =
    (if \<not> i < length raw then Some res
     else if raw ! i \<noteq> CHR ''('' then Some []
     else let start = i + 1
          in case tx_find T (CHR '')'') start raw of
               None \<Rightarrow> Some []
             | Some stop \<Rightarrow>
                 (case parse_group T (take (stop - start) (drop start raw)) of
                    None \<Rightarrow> Some []
                  | Some vals \<Rightarrow> parse_from T raw (stop + 1) (res @ [vals])))"

declare parse_from.simps [code]

definition parseInstance :: "text_api \<Rightarrow> string \<Rightarrow> int list list option" where
  "parseInstance T raw = parse_from T raw 0 []"

fun parseAllInstances_from ::
  "text_api \<Rightarrow> string list \<Rightarrow> int list list list \<Rightarrow> int list list list option" where
  "parseAllInstances_from T [] instances = Some instances"
| "parseAllInstances_from T (raw # raws) instances =
     (case parseInstance T raw of
        None \<Rightarrow> None
      | Some inst \<Rightarrow> if inst = [] then Some [] else parseAllInstances_from T raws (instances @ [inst]))"

definition parseAllInstances :: "text_api \<Rightarrow> string list \<Rightarrow> int list list list option" where
  "parseAllInstances T raws = parseAllInstances_from T raws []"

section \<open>The type of a declaration\<close>

text \<open>The text between the colon of the first result and the next closing parenthesis, without
  its attribute dictionary; \<open>None\<close> is the null type. MLIR then parses it.\<close>

definition typeTextFromDecl :: "text_api \<Rightarrow> string \<Rightarrow> string option" where
  "typeTextFromDecl T decl =
    (case tx_find_str T ''->'' decl of
       None \<Rightarrow> None
     | Some arrowPos \<Rightarrow>
    (case tx_find T (CHR ''('') arrowPos decl of
       None \<Rightarrow> None
     | Some openParen \<Rightarrow>
    (case tx_find T (CHR '':'') openParen decl of
       None \<Rightarrow> None
     | Some colon \<Rightarrow>
    (case tx_find T (CHR '')'') colon decl of
       None \<Rightarrow> None
     | Some closeParen \<Rightarrow>
       (let typeStr = take (closeParen - (colon + 1)) (drop (colon + 1) decl);
            stripped = (case tx_find T (CHR ''{'') 0 typeStr of Some brace \<Rightarrow> take brace typeStr | None \<Rightarrow> typeStr)
        in Some (tx_trim T stripped))))))"

section \<open>The suffix of an instance\<close>

fun values_text :: "nat \<Rightarrow> int list \<Rightarrow> string" where
  "values_text j [] = []"
| "values_text j (v # vs) = (if 0 < j then ''_'' else []) @ show_int v @ values_text (j + 1) vs"

fun suffix_from :: "nat \<Rightarrow> int list list \<Rightarrow> string" where
  "suffix_from i [] = []"
| "suffix_from i (g # gs) = (if 0 < i then ''-'' else ''_'') @ values_text 0 g @ suffix_from (i + 1) gs"

definition instSuffix :: "int list list \<Rightarrow> string" where
  "instSuffix inst = suffix_from 0 inst"

section \<open>Lemmas on parsing\<close>

lemma find_char_bound: "find_char c s = Some k \<Longrightarrow> k < length s \<and> s ! k = c \<and> c \<notin> set (take k s)"
proof (induction s arbitrary: k)
  case (Cons x xs)
  then show ?case by (cases k) (auto split: if_splits)
qed simp

lemma find_char_append: "c \<notin> set xs \<Longrightarrow> find_char c (xs @ c # ys) = Some (length xs)"
  by (induction xs) auto

text \<open>Parsing ends: every round moves past a closing parenthesis.\<close>

lemma parse_from_total:
  assumes "text_ok T"
  shows "\<exists>r. parse_from T raw i res = Some r"
proof (induction "length raw - i" arbitrary: i res rule: less_induct)
  case less
  show ?case
  proof (cases "i < length raw")
    case True
    have step: "length raw - (stop + 1) < length raw - i" if "tx_find T (CHR '')'') (i + 1) raw = Some stop" for stop
      using that True by (auto simp: text_laws[OF assms] find_from_def)
    show ?thesis
      using True less[OF step]
      by (subst parse_from.simps) (auto simp: Let_def split: option.split)
  qed (simp add: parse_from.simps)
qed

text \<open>The text of an instance.\<close>

fun comma_text :: "int list \<Rightarrow> string" where
  "comma_text [] = []"
| "comma_text [v] = show_int v"
| "comma_text (v # w # vs) = show_int v @ '','' @ comma_text (w # vs)"

definition group_text :: "int list \<Rightarrow> string" where
  "group_text g = ''('' @ comma_text g @ '')''"

definition instance_text :: "int list list \<Rightarrow> string" where
  "instance_text inst = concat (map group_text inst)"

definition int64 :: "int \<Rightarrow> bool" where
  "int64 v \<longleftrightarrow> - (2 ^ 63) \<le> v \<and> v < 2 ^ 63"

lemma show_nat_ne [simp]: "show_nat n \<noteq> []"
  using show_nat_digits[of n] by simp

lemma show_nat_all [simp]: "list_all is_digit (show_nat n)"
  using show_nat_digits[of n] by simp

lemma show_nat_no_minus: "show_nat n \<noteq> CHR ''-'' # s"
  using show_nat_digit[of "CHR ''-''" n] by auto

lemma parse_dec_show_int: "int64 v \<Longrightarrow> parse_dec (show_int v) = Some v"
  by (auto simp: parse_dec_def show_int_def int64_def)

lemma show_int_chars: "c \<in> set (show_int v) \<Longrightarrow> is_digit c \<or> c = CHR ''-''"
  by (auto simp: show_int_def split: if_splits dest: show_nat_digit)

lemma not_blank: "is_digit c \<or> c = CHR ''-'' \<Longrightarrow> \<not> is_blank c"
  by (auto simp: is_blank_def is_digit_def digit_val_def)

lemma dropWhile_none: "(\<And>c. c \<in> set s \<Longrightarrow> \<not> P c) \<Longrightarrow> dropWhile P s = s"
  by (cases s) auto

lemma trim_show_int: "trim_ref (show_int v) = show_int v"
proof -
  have "\<And>c. c \<in> set (show_int v) \<Longrightarrow> \<not> is_blank c" using show_int_chars not_blank by blast
  then have "dropWhile is_blank (show_int v) = show_int v" "dropWhile is_blank (rev (show_int v)) = rev (show_int v)"
    using dropWhile_none[of "show_int v" is_blank] dropWhile_none[of "rev (show_int v)" is_blank] by simp_all
  then show ?thesis by (simp add: trim_ref_def)
qed

lemma split_char_none: "c \<notin> set s \<Longrightarrow> split_char c s = [s]"
  by (induction s) auto

lemma split_char_append: "c \<notin> set s \<Longrightarrow> split_char c (s @ c # t) = s # split_char c t"
  by (induction s) auto

lemma show_int_not: "c \<in> {CHR '','', CHR '')''} \<Longrightarrow> c \<notin> set (show_int v)"
  using show_int_chars[of c v] by auto

lemma split_comma_text: "g \<noteq> [] \<Longrightarrow> split_char (CHR '','') (comma_text g) = map show_int g"
  by (induction g rule: comma_text.induct) (simp_all add: split_char_none split_char_append show_int_not)

lemma comma_text_no_paren: "CHR '')'' \<notin> set (comma_text g)"
  by (induction g rule: comma_text.induct) (simp_all add: show_int_not)

lemma parse_tokens_show:
  "text_ok T \<Longrightarrow> list_all int64 g \<Longrightarrow> parse_tokens T (map show_int g) acc = Some (acc @ g)"
  by (induction g arbitrary: acc) (simp_all add: text_laws trim_show_int parse_dec_show_int)

lemma comma_text_Nil: "comma_text g = [] \<longleftrightarrow> g = []"
proof -
  have "show_int v \<noteq> []" for v by (auto simp: show_int_def)
  then show ?thesis by (cases g rule: comma_text.cases) auto
qed

lemma parse_group_text:
  assumes "text_ok T" "list_all int64 g"
  shows "parse_group T (comma_text g) = Some g"
  using assms
  by (auto simp: parse_group_def text_laws[OF assms(1)] split_comma_text comma_text_Nil parse_tokens_show)

lemma parse_from_text:
  assumes "text_ok T" "list_all (list_all int64) inst"
  shows "parse_from T (pre @ instance_text inst) (length pre) res = Some (res @ inst)"
  using assms(2)
proof (induction inst arbitrary: pre res)
  case Nil
  show ?case by (simp add: instance_text_def parse_from.simps)
next
  case (Cons g inst)
  let ?rest = "instance_text inst" and ?raw = "pre @ instance_text (g # inst)"
  have raw: "?raw = (pre @ ''('') @ comma_text g @ CHR '')'' # ?rest"
    by (simp add: instance_text_def group_text_def)
  have f: "tx_find T (CHR '')'') (length pre + 1) ?raw = Some (length pre + 1 + length (comma_text g))"
    by (simp add: text_laws[OF assms(1)] find_from_def raw find_char_append comma_text_no_paren)
  have "parse_from T ?raw (length pre) res =
      parse_from T ?raw (length pre + 1 + length (comma_text g) + 1) (res @ [g])"
    using f Cons.prems
    by (subst parse_from.simps) (simp add: raw parse_group_text[OF assms(1)] Let_def)
  also have "\<dots> = Some (res @ g # inst)"
    using Cons.IH[of "pre @ group_text g" "res @ [g]"] Cons.prems
    by (simp add: group_text_def instance_text_def)
  finally show ?case .
qed

section \<open>Lemmas on the suffix\<close>

definition no_digit_start :: "string \<Rightarrow> bool" where
  "no_digit_start s \<longleftrightarrow> (case s of [] \<Rightarrow> True | c # _ \<Rightarrow> \<not> is_digit c)"

lemma digits_prefix_unique:
  assumes "xs @ s = ys @ t" "list_all P xs" "list_all P ys"
    "case s of [] \<Rightarrow> True | c # _ \<Rightarrow> \<not> P c" "case t of [] \<Rightarrow> True | c # _ \<Rightarrow> \<not> P c"
  shows "xs = ys \<and> s = t"
  using assms
proof (induction xs arbitrary: ys)
  case Nil
  then show ?case by (cases ys) (auto split: list.splits)
next
  case (Cons x xs)
  then show ?case by (cases ys) (auto split: list.splits)
qed

lemma show_int_prefix_unique:
  assumes "show_int v @ s = show_int w @ t" "no_digit_start s" "no_digit_start t"
  shows "v = w \<and> s = t"
proof -
  have n: "show_nat a @ s' = show_nat b @ t' \<Longrightarrow> no_digit_start s' \<Longrightarrow> no_digit_start t' \<Longrightarrow> a = b \<and> s' = t'"
    for a b s' t'
    using digits_prefix_unique[of "show_nat a" s' "show_nat b" t' is_digit]
    by (auto simp: no_digit_start_def dest: show_nat_inj)
  have m: "CHR ''-'' # s' \<noteq> show_nat b @ t'" for s' b t'
  proof
    assume "CHR ''-'' # s' = show_nat b @ t'"
    then have "hd (show_nat b) = CHR ''-''" by (cases "show_nat b") auto
    moreover have "hd (show_nat b) \<in> set (show_nat b)" by (rule hd_in_set) simp
    ultimately show False using show_nat_digit[of "CHR ''-''" b] by simp
  qed
  show ?thesis
  proof (cases "v < 0"; cases "w < 0")
    assume "v < 0" "w < 0"
    then show ?thesis using assms n[of "nat (- v)" s "nat (- w)" t] by (simp add: show_int_def) arith
  next
    assume "v < 0" "\<not> w < 0"
    then show ?thesis using assms(1) m[of "show_nat (nat (- v)) @ s" "nat w" t] by (simp add: show_int_def)
  next
    assume "\<not> v < 0" "w < 0"
    then show ?thesis using assms(1) m[of "show_nat (nat (- w)) @ t" "nat v" s] by (simp add: show_int_def)
  next
    assume "\<not> v < 0" "\<not> w < 0"
    then show ?thesis using assms n[of "nat v" s "nat w" t] by (simp add: show_int_def) arith
  qed
qed

lemma values_text_unique:
  "values_text j vs @ s = values_text j ws @ t \<Longrightarrow> length vs = length ws \<Longrightarrow>
     no_digit_start s \<Longrightarrow> no_digit_start t \<Longrightarrow> vs = ws \<and> s = t"
proof (induction vs arbitrary: j ws)
  case (Cons v vs)
  then obtain w ws' where ws: "ws = w # ws'" "length vs = length ws'" by (cases ws) auto
  have nd: "no_digit_start (values_text (j + 1) us @ u)" if "no_digit_start u" for us u
    using that by (cases us) (auto simp: no_digit_start_def)
  have "show_int v @ (values_text (j + 1) vs @ s) = show_int w @ (values_text (j + 1) ws' @ t)"
    using Cons.prems(1) by (simp add: ws split: if_splits)
  then have "v = w \<and> values_text (j + 1) vs @ s = values_text (j + 1) ws' @ t"
    by (rule show_int_prefix_unique) (use nd Cons.prems in auto)
  then show ?case using Cons.IH[of "j + 1" ws'] Cons.prems ws by auto
qed simp

lemma suffix_from_unique:
  "suffix_from i gs = suffix_from i hs \<Longrightarrow> map length gs = map length hs \<Longrightarrow> gs = hs"
proof (induction gs arbitrary: i hs)
  case (Cons g gs)
  then obtain h hs' where hs: "hs = h # hs'" "length g = length h" "map length gs = map length hs'"
    by (cases hs) auto
  have nd: "no_digit_start (suffix_from (i + 1) us)" for us
    by (cases us) (auto simp: no_digit_start_def)
  have "values_text 0 g @ suffix_from (i + 1) gs = values_text 0 h @ suffix_from (i + 1) hs'"
    using Cons.prems(1) by (simp add: hs split: if_splits)
  then have "g = h \<and> suffix_from (i + 1) gs = suffix_from (i + 1) hs'"
    by (rule values_text_unique) (use hs nd in auto)
  then show ?case using Cons.IH[of "i + 1" hs'] hs by auto
qed simp

section \<open>Properties\<close>

text \<open>
  C40. Instance strings: parsing ends on every input, and reads back every
  non-empty instance of 64-bit integers from its text.
\<close>

theorem parse_instance_roundtrip:
  assumes "text_ok T" "list_all (list_all int64) inst"
  shows "parseInstance T (instance_text inst) = Some inst \<and> (\<exists>r. parseInstance T raw = Some r)"
  using parse_from_text[OF assms, of "[]" "[]"] parse_from_total[OF assms(1)]
  by (simp add: parseInstance_def)

lemma parse_instance_roundtrip_witness:
  "instance_text [[4, -8], [], [16]] = ''(4,-8)()(16)'' \<and>
   parseInstance text_ref ''(4,-8)()(16)'' = Some [[4, -8], [], [16]]"
proof -
  have t: "instance_text [[4, -8], [], [16]] = ''(4,-8)()(16)''" by code_simp
  have "list_all (list_all int64) [[4, -8], [], [16]]" by (simp add: int64_def)
  from parse_instance_roundtrip [OF text_ref_ok this] t show ?thesis by simp
qed

end
