(* ===== verification/CheckGen.thy ===== *)
theory CheckGen
  imports CheckParse
begin

text \<open>
  The test generator \<open>tools/check_gen\<close> (\<open>CheckTestGenerator.cpp\<close>,
  \<open>CompileUtils.cpp\<close>, \<open>main.cpp\<close>): it loads the functions that generate the
  inputs of a test, evaluates them for every instance, evaluates the test on
  the result and writes a module that checks the outputs. The MLIR, IREE and
  file system calls are functions of one record; the objects that must be
  released are counted. The lemmas show that a successful run writes one file
  per instance under different names, and that no path leaks an object.
\<close>

section \<open>Types, attributes and functions\<close>

text \<open>A ranked tensor with its encoding, another shaped type, or any other type.\<close>

datatype check_type = RankedT "int list" elem_type "string option" | ShapedT elem_type string | ScalarT elem_type

type_synonym typed_attr = "check_type \<times> string"

definition isFloatType :: "elem_type \<Rightarrow> bool" where
  "isFloatType e = (case e of FloatT _ \<Rightarrow> True | BF16T \<Rightarrow> True | _ \<Rightarrow> False)"

record test_func =
  tf_name :: string
  tf_args :: "check_type list"
  tf_results :: "check_type list"
  tf_atol :: "string option"
  tf_rtol :: "string option"
  tf_body :: string

type_synonym test_module = "test_func list"

datatype check_assert = ExpectAlmostEq nat "check_type option" typed_attr "string option" string
  | ExpectEq nat "check_type option" typed_attr

text \<open>The module before and after inlining: its functions, and the check function with the
  constants (and their casts) it passes to the test and the assertions on the results.\<close>

record check_module =
  cm_funcs :: test_module
  cm_name :: string
  cm_callee :: string
  cm_inputs :: "(typed_attr \<times> check_type option) list"
  cm_asserts :: "check_assert list"

text \<open>An exported function of a VM module: whether its lookup succeeds, its name, declaration
  attribute, calling convention, and the counted arguments and results.\<close>

record vm_export =
  ex_found :: bool
  ex_name :: string
  ex_decl :: string
  ex_cconv :: string
  ex_counts :: "(nat \<times> nat) option"

text \<open>A generator argument: \<open>getI32IntegerAttr\<close>, \<open>getI64IntegerAttr\<close> or \<open>getIndexAttr\<close>.\<close>

datatype arg_attr = I32Attr int | I64Attr int | IndexAttr int | PassedAttr typed_attr

record 'b check_api =
  ck_text :: text_api
  ck_kDynamic :: int
  ck_openFile :: "string \<Rightarrow> string option"
  ck_readFile :: "string \<Rightarrow> bool"
  ck_extension :: "string \<Rightarrow> string"
  ck_stem :: "string \<Rightarrow> string"
  ck_parseModule :: "string \<Rightarrow> test_module option"
  ck_parseType :: "string \<Rightarrow> check_type option"
  ck_import :: "test_module \<Rightarrow> bool"
  ck_pipeline :: "test_module \<Rightarrow> bool"
  ck_openMembuffer :: "test_module \<Rightarrow> bool"
  ck_bytecode :: "test_module \<Rightarrow> bool"
  ck_mapMemory :: "test_module \<Rightarrow> string option"
  ck_binaryInit :: "string \<Rightarrow> 'b option"
  ck_exports :: "'b \<Rightarrow> vm_export list"
  ck_callInit :: "'b \<Rightarrow> nat \<Rightarrow> nat \<Rightarrow> bool"
  ck_addArgument :: "'b \<Rightarrow> arg_attr list \<Rightarrow> arg_attr \<Rightarrow> bool"
  ck_invoke :: "'b \<Rightarrow> string \<Rightarrow> arg_attr list \<Rightarrow> bool"
  ck_result :: "'b \<Rightarrow> string \<Rightarrow> arg_attr list \<Rightarrow> nat \<Rightarrow> check_type \<Rightarrow> typed_attr option"
  ck_refine :: "test_module \<Rightarrow> check_type list \<Rightarrow> test_module option"
  ck_hasWrapper :: "test_module \<Rightarrow> bool"
  ck_inline :: "check_module \<Rightarrow> check_module option"
  ck_writeFile :: "string \<Rightarrow> check_module \<Rightarrow> bool"

section \<open>Compiling and evaluating\<close>

record 'b generator_info =
  gi_filename :: string
  gi_funcName :: string
  gi_numArguments :: nat
  gi_binary :: 'b
  gi_cconv :: string

text \<open>The binary cache, the live compiler invocations and outputs, and the files written.\<close>

record 'b check_state =
  cs_cache :: "(string \<times> 'b) list"
  cs_invs :: int
  cs_outputs :: int
  cs_files :: "(string \<times> check_module) list"

text \<open>\<open>compileModule\<close>: the bytecode, and the output object that holds it.\<close>

definition compileModule :: "'b check_api \<Rightarrow> test_module \<Rightarrow> 'b check_state \<Rightarrow> string option \<times> 'b check_state" where
  "compileModule A m st =
    (if \<not> ck_import A m then (None, st)
     else if \<not> ck_pipeline A m then (None, st)
     else if \<not> ck_openMembuffer A m then (None, st)
     else let st1 = st\<lparr>cs_outputs := cs_outputs st + 1\<rparr>
          in if \<not> ck_bytecode A m then (None, st1\<lparr>cs_outputs := cs_outputs st1 - 1\<rparr>)
             else case ck_mapMemory A m of
               None \<Rightarrow> (None, st1\<lparr>cs_outputs := cs_outputs st1 - 1\<rparr>)
             | Some bytes \<Rightarrow> (Some bytes, st1))"

text \<open>\<open>evaluateFunction\<close>: an empty list stands for failure.\<close>

fun add_arguments :: "'b check_api \<Rightarrow> 'b \<Rightarrow> arg_attr list \<Rightarrow> arg_attr list \<Rightarrow> bool" where
  "add_arguments A bin done [] = True"
| "add_arguments A bin done (a # args) =
     (if \<not> ck_addArgument A bin done a then False else add_arguments A bin (done @ [a]) args)"

fun get_results :: "'b check_api \<Rightarrow> 'b \<Rightarrow> string \<Rightarrow> arg_attr list \<Rightarrow> nat \<Rightarrow> check_type list \<Rightarrow> typed_attr list
    \<Rightarrow> typed_attr list" where
  "get_results A bin name args i [] outputs = outputs"
| "get_results A bin name args i (ty # tys) outputs =
     (case ck_result A bin name args i ty of
        None \<Rightarrow> []
      | Some attr \<Rightarrow> get_results A bin name args (i + 1) tys (outputs @ [attr]))"

definition evaluateFunction ::
  "'b check_api \<Rightarrow> 'b \<Rightarrow> string \<Rightarrow> check_type list \<Rightarrow> arg_attr list \<Rightarrow> typed_attr list" where
  "evaluateFunction A bin name resultTypes args =
    (if \<not> ck_callInit A bin (length args) (length resultTypes) then []
     else if \<not> add_arguments A bin [] args then []
     else if \<not> ck_invoke A bin name args then []
     else get_results A bin name args 0 resultTypes [])"

section \<open>Loading generators\<close>

definition getOrLoadBinary :: "'b check_api \<Rightarrow> string \<Rightarrow> 'b check_state \<Rightarrow> 'b option \<times> 'b check_state" where
  "getOrLoadBinary A path st =
    (case map_of (cs_cache st) path of
       Some b \<Rightarrow> (Some b, st)
     | None \<Rightarrow>
       (let ext = ck_extension A path;
            (binary, st1) =
              (if ext = ''.vmfb'' then
                 (case ck_openFile A path of
                    None \<Rightarrow> (None, st)
                  | Some buffer \<Rightarrow> if \<not> ck_readFile A path then (None, st) else (ck_binaryInit A buffer, st))
               else if ext = ''.mlir'' then
                 (case ck_openFile A path of
                    None \<Rightarrow> (None, st)
                  | Some input \<Rightarrow>
                    (case ck_parseModule A input of
                       None \<Rightarrow> (None, st)
                     | Some m \<Rightarrow>
                       (case compileModule A m (st\<lparr>cs_invs := cs_invs st + 1\<rparr>) of
                          (None, st2) \<Rightarrow> (None, st2\<lparr>cs_invs := cs_invs st2 - 1\<rparr>)
                        | (Some bytes, st2) \<Rightarrow>
                            (ck_binaryInit A bytes,
                             st2\<lparr>cs_outputs := cs_outputs st2 - 1, cs_invs := cs_invs st2 - 1\<rparr>))))
               else (None, st))
        in case binary of
             None \<Rightarrow> (None, st1)
           | Some b \<Rightarrow> (Some b, st1\<lparr>cs_cache := assoc_put path b (cs_cache st1)\<rparr>)))"

definition dims_compatible :: "int \<Rightarrow> int list \<Rightarrow> int list \<Rightarrow> bool" where
  "dims_compatible kDyn genShape expShape =
    list_all (\<lambda>(genDim, expDim). genDim = expDim \<or> genDim = kDyn) (zip genShape expShape)"

definition areTypesCompatible :: "int \<Rightarrow> check_type \<Rightarrow> check_type \<Rightarrow> bool" where
  "areTypesCompatible kDyn genType expType =
    (if genType = expType then True
     else case (genType, expType) of
       (RankedT genShape genElem genEnc, RankedT expShape expElem expEnc) \<Rightarrow>
         (if genElem \<noteq> expElem then False
          else if genEnc \<noteq> expEnc then False
          else if length genShape \<noteq> length expShape then False
          else dims_compatible kDyn genShape expShape)
     | _ \<Rightarrow> False)"

definition parseTypeFromDecl :: "'b check_api \<Rightarrow> string \<Rightarrow> check_type option" where
  "parseTypeFromDecl A decl =
    (case typeTextFromDecl (ck_text A) decl of None \<Rightarrow> None | Some typeStr \<Rightarrow> ck_parseType A typeStr)"

text \<open>The loop over the exports: the first with a compatible result type decides.\<close>

fun pick_export :: "'b check_api \<Rightarrow> check_type \<Rightarrow> vm_export list \<Rightarrow> (vm_export \<times> nat) option" where
  "pick_export A expectedType [] = None"
| "pick_export A expectedType (e # es) =
     (if \<not> ex_found e then pick_export A expectedType es
      else if take 2 (ex_name e) = ''__'' then pick_export A expectedType es
      else if ex_decl e = [] then pick_export A expectedType es
      else case parseTypeFromDecl A (ex_decl e) of
        None \<Rightarrow> pick_export A expectedType es
      | Some resType \<Rightarrow>
        (if areTypesCompatible (ck_kDynamic A) resType expectedType
         then (case ex_counts e of
                 None \<Rightarrow> None
               | Some (argCount, resultCount) \<Rightarrow> if resultCount \<noteq> 1 then None else Some (e, argCount))
         else pick_export A expectedType es))"

definition loadGenerator ::
  "'b check_api \<Rightarrow> string \<Rightarrow> check_type \<Rightarrow> 'b check_state \<Rightarrow> 'b generator_info option \<times> 'b check_state" where
  "loadGenerator A path expectedType st =
    (case getOrLoadBinary A path st of
       (None, st1) \<Rightarrow> (None, st1)
     | (Some b, st1) \<Rightarrow>
       (case pick_export A expectedType (ck_exports A b) of
          None \<Rightarrow> (None, st1)
        | Some (e, argCount) \<Rightarrow>
            (Some \<lparr>gi_filename = path, gi_funcName = ex_name e, gi_numArguments = argCount,
                   gi_binary = b, gi_cconv = ex_cconv e\<rparr>, st1)))"

record check_config =
  cc_instances :: "int list list list"
  cc_inputFiles :: "string list"
  cc_outputDir :: string
  cc_defaultGenPath :: string

definition loadDefaultGenerator ::
  "'b check_api \<Rightarrow> check_config \<Rightarrow> check_type \<Rightarrow> 'b check_state \<Rightarrow> 'b generator_info option \<times> 'b check_state" where
  "loadDefaultGenerator A cfg expectedType st =
    (if cc_defaultGenPath cfg = [] then (None, st)
     else loadGenerator A (cc_defaultGenPath cfg) expectedType st)"

definition parseAndMergeFunc :: "'b check_api \<Rightarrow> string \<Rightarrow> test_func option" where
  "parseAndMergeFunc A filename =
    (case ck_openFile A filename of
       None \<Rightarrow> None
     | Some input \<Rightarrow>
       (case ck_parseModule A input of
          None \<Rightarrow> None
        | Some functions \<Rightarrow>
          (if functions = [] then None
           else if 1 < length functions then None
           else Some (hd functions))))"

fun load_generators ::
  "'b check_api \<Rightarrow> check_config \<Rightarrow> nat \<Rightarrow> check_type list \<Rightarrow> 'b generator_info list \<Rightarrow> 'b check_state
    \<Rightarrow> 'b generator_info list option \<times> 'b check_state" where
  "load_generators A cfg argIdx [] gens st = (Some gens, st)"
| "load_generators A cfg argIdx (argType # argTypes) gens st =
     (let files = cc_inputFiles cfg
      in case (if length files \<le> argIdx + 1 \<or> files ! (argIdx + 1) = ''default''
               then loadDefaultGenerator A cfg argType st
               else loadGenerator A (files ! (argIdx + 1)) argType st) of
           (None, st1) \<Rightarrow> (None, st1)
         | (Some gen, st1) \<Rightarrow> load_generators A cfg (argIdx + 1) argTypes (gens @ [gen]) st1)"

definition validateInputs :: "check_config \<Rightarrow> 'b generator_info list \<Rightarrow> bool" where
  "validateInputs cfg gens =
    list_all (\<lambda>instance. length instance = length gens \<and>
        list_all (\<lambda>(gen, vals). gi_numArguments gen = length vals) (zip gens instance)) (cc_instances cfg)"

definition parseAndMerge ::
  "'b check_api \<Rightarrow> check_config \<Rightarrow> 'b check_state \<Rightarrow> (test_func \<times> 'b generator_info list) option \<times> 'b check_state"
where
  "parseAndMerge A cfg st =
    (case parseAndMergeFunc A (cc_inputFiles cfg ! 0) of
       None \<Rightarrow> (None, st)
     | Some testFunc \<Rightarrow>
       (if length (tf_args testFunc) < length (cc_inputFiles cfg) - 1 then (None, st)
        else case load_generators A cfg 0 (tf_args testFunc) [] st of
          (None, st1) \<Rightarrow> (None, st1)
        | (Some gens, st1) \<Rightarrow> if \<not> validateInputs cfg gens then (None, st1) else (Some (testFunc, gens), st1)))"

section \<open>One instance\<close>

text \<open>\<open>static_cast<int32_t>\<close>.\<close>

definition to_int32 :: "int \<Rightarrow> int" where
  "to_int32 v = (v + 2 ^ 31) mod 2 ^ 32 - 2 ^ 31"

definition getVmfbArgAttr :: "int \<Rightarrow> char \<Rightarrow> arg_attr" where
  "getVmfbArgAttr val cc =
    (if cc = CHR ''i'' then I32Attr (to_int32 val)
     else if cc = CHR ''I'' then I64Attr val
     else IndexAttr val)"

definition arg_convention :: "string \<Rightarrow> nat \<Rightarrow> char" where
  "arg_convention callingConvention i =
    (if 1 + i < length callingConvention
     then let c = callingConvention ! (1 + i)
          in if c \<noteq> CHR ''_'' \<and> c \<noteq> CHR 0x00 then c else CHR ''I''
     else CHR ''I'')"

definition generator_args :: "string \<Rightarrow> int list \<Rightarrow> arg_attr list" where
  "generator_args callingConvention vals =
    map (\<lambda>i. getVmfbArgAttr (vals ! i) (arg_convention callingConvention i)) [0..<length vals]"

fun evaluate_from ::
  "'b check_api \<Rightarrow> test_func \<Rightarrow> nat \<Rightarrow> ('b generator_info \<times> int list) list \<Rightarrow> typed_attr list \<Rightarrow> typed_attr list" where
  "evaluate_from A testFunc argIdx [] inputAttrs = inputAttrs"
| "evaluate_from A testFunc argIdx ((gen, vals) # rest) inputAttrs =
     (let genOutputs = evaluateFunction A (gi_binary gen) (gi_funcName gen) [tf_args testFunc ! argIdx]
                         (generator_args (gi_cconv gen) vals)
      in if genOutputs = [] then []
         else evaluate_from A testFunc (argIdx + 1) rest (inputAttrs @ genOutputs))"

definition evaluateGenerators ::
  "'b check_api \<Rightarrow> test_func \<Rightarrow> 'b generator_info list \<Rightarrow> int list list \<Rightarrow> typed_attr list" where
  "evaluateGenerators A testFunc gens instance = evaluate_from A testFunc 0 (zip gens instance) []"

definition refineShapes :: "'b check_api \<Rightarrow> test_func \<Rightarrow> typed_attr list \<Rightarrow> test_module" where
  "refineShapes A testFunc inputAttrs =
    (let original = [testFunc]
     in case ck_refine A original (map fst inputAttrs) of
          None \<Rightarrow> original
        | Some refined \<Rightarrow> if ck_hasWrapper A refined then original else refined)"

definition lookupSymbol :: "string \<Rightarrow> test_module \<Rightarrow> test_func option" where
  "lookupSymbol name m = find (\<lambda>f. tf_name f = name) m"

definition evaluateRefinedTest ::
  "'b check_api \<Rightarrow> test_module \<Rightarrow> test_func \<Rightarrow> typed_attr list \<Rightarrow> 'b check_state \<Rightarrow> typed_attr list \<times> 'b check_state"
where
  "evaluateRefinedTest A refined checkTestFunc inputAttrs st =
    (case compileModule A refined (st\<lparr>cs_invs := cs_invs st + 1\<rparr>) of
       (None, st1) \<Rightarrow> ([], st1\<lparr>cs_invs := cs_invs st1 - 1\<rparr>)
     | (Some bytes, st1) \<Rightarrow>
       (let released = st1\<lparr>cs_outputs := cs_outputs st1 - 1, cs_invs := cs_invs st1 - 1\<rparr>
        in case ck_binaryInit A bytes of
             None \<Rightarrow> ([], released)
           | Some b \<Rightarrow>
               (evaluateFunction A b ''main'' (tf_results checkTestFunc) (map PassedAttr inputAttrs), released)))"

text \<open>\<open>castTensorIfNeeded\<close>: \<open>Inl ()\<close> is the null value, \<open>Inr None\<close> no cast.\<close>

definition castTensorIfNeeded :: "check_type \<Rightarrow> check_type \<Rightarrow> unit + check_type option" where
  "castTensorIfNeeded ty target =
    (if ty = target then Inr None
     else case (ty, target) of
       (RankedT s1 e1 _, RankedT s2 e2 _) \<Rightarrow>
         (if length s1 = length s2 \<and> e1 = e2 then Inr (Some target) else Inl ())
     | _ \<Rightarrow> Inl ())"

fun add_constant_inputs ::
  "check_type list \<Rightarrow> nat \<Rightarrow> typed_attr list \<Rightarrow> (typed_attr \<times> check_type option) list
    \<Rightarrow> (typed_attr \<times> check_type option) list option" where
  "add_constant_inputs argTypes i [] callArgs = Some callArgs"
| "add_constant_inputs argTypes i (attr # attrs) callArgs =
     (case castTensorIfNeeded (fst attr) (argTypes ! i) of
        Inl _ \<Rightarrow> None
      | Inr cast \<Rightarrow> add_constant_inputs argTypes (i + 1) attrs (callArgs @ [(attr, cast)]))"

definition result_is_float :: "check_type \<Rightarrow> bool" where
  "result_is_float ty = (case ty of RankedT _ e _ \<Rightarrow> isFloatType e | ShapedT e _ \<Rightarrow> isFloatType e | ScalarT e \<Rightarrow> isFloatType e)"

text \<open>The assertion on result \<open>i\<close>; without a tolerance in the test, \<open>rtol\<close> is \<open>1e-6f\<close>.\<close>

definition make_assert ::
  "nat \<Rightarrow> check_type \<Rightarrow> check_type option \<Rightarrow> typed_attr \<Rightarrow> string option \<Rightarrow> string option \<Rightarrow> check_assert" where
  "make_assert i resType cast expected atolAttr rtolAttr =
    (let ty = (case cast of Some t \<Rightarrow> t | None \<Rightarrow> resType)
     in if result_is_float ty
        then ExpectAlmostEq i cast expected atolAttr (case rtolAttr of Some r \<Rightarrow> r | None \<Rightarrow> ''1e-6f'')
        else ExpectEq i cast expected)"

fun add_assertions ::
  "check_type list \<Rightarrow> string option \<Rightarrow> string option \<Rightarrow> nat \<Rightarrow> typed_attr list \<Rightarrow> check_assert list
    \<Rightarrow> check_assert list option" where
  "add_assertions resTypes atol rtol i [] acc = Some acc"
| "add_assertions resTypes atol rtol i (expected # attrs) acc =
     (case castTensorIfNeeded (resTypes ! i) (fst expected) of
        Inl _ \<Rightarrow> None
      | Inr cast \<Rightarrow>
          add_assertions resTypes atol rtol (i + 1) attrs
            (acc @ [make_assert i (resTypes ! i) cast expected atol rtol]))"

definition inlineAndCleanup :: "'b check_api \<Rightarrow> check_module \<Rightarrow> string \<Rightarrow> check_module option" where
  "inlineAndCleanup A m testFuncName =
    map_option (\<lambda>m'. m'\<lparr>cm_funcs := filter (\<lambda>f. tf_name f \<noteq> testFuncName) (cm_funcs m')\<rparr>) (ck_inline A m)"

definition checkFuncName :: "'b check_api \<Rightarrow> check_config \<Rightarrow> int list list \<Rightarrow> string" where
  "checkFuncName A cfg instance = ck_stem A (cc_inputFiles cfg ! 0) @ instSuffix instance"

definition outPath :: "'b check_api \<Rightarrow> check_config \<Rightarrow> int list list \<Rightarrow> string" where
  "outPath A cfg instance = cc_outputDir cfg @ ''/'' @ checkFuncName A cfg instance @ ''_check.mlir''"

definition generateCheckTest ::
  "'b check_api \<Rightarrow> check_config \<Rightarrow> test_func \<Rightarrow> typed_attr list \<Rightarrow> typed_attr list \<Rightarrow> int list list
    \<Rightarrow> 'b check_state \<Rightarrow> bool \<times> 'b check_state" where
  "generateCheckTest A cfg refinedTestFunc inputAttrs outputAttrs instance st =
    (case add_constant_inputs (tf_args refinedTestFunc) 0 inputAttrs [] of
       None \<Rightarrow> (False, st)
     | Some callArgs \<Rightarrow>
       (case add_assertions (tf_results refinedTestFunc) (tf_atol refinedTestFunc) (tf_rtol refinedTestFunc) 0
               outputAttrs [] of
          None \<Rightarrow> (False, st)
        | Some asserts \<Rightarrow>
          (case inlineAndCleanup A \<lparr>cm_funcs = [refinedTestFunc], cm_name = checkFuncName A cfg instance,
                   cm_callee = tf_name refinedTestFunc, cm_inputs = callArgs, cm_asserts = asserts\<rparr>
                  (tf_name refinedTestFunc) of
             None \<Rightarrow> (False, st)
           | Some outModule \<Rightarrow>
             (let path = outPath A cfg instance
              in if \<not> ck_writeFile A path outModule then (False, st)
                 else (True, st\<lparr>cs_files := cs_files st @ [(path, outModule)]\<rparr>)))))"

definition processInstance ::
  "'b check_api \<Rightarrow> check_config \<Rightarrow> test_func \<Rightarrow> 'b generator_info list \<Rightarrow> int list list \<Rightarrow> 'b check_state
    \<Rightarrow> bool \<times> 'b check_state" where
  "processInstance A cfg testFunc gens instance st =
    (let inputAttrs = evaluateGenerators A testFunc gens instance
     in if inputAttrs = [] then (False, st)
        else let refined = refineShapes A testFunc inputAttrs
             in case lookupSymbol ''main'' refined of
                  None \<Rightarrow> (False, st)
                | Some checkTestFunc \<Rightarrow>
                  (case evaluateRefinedTest A refined checkTestFunc inputAttrs st of
                     (outputAttrs, st1) \<Rightarrow>
                       if outputAttrs = [] then (False, st1)
                       else generateCheckTest A cfg checkTestFunc inputAttrs outputAttrs instance st1))"

section \<open>The tool\<close>

fun process_instances ::
  "'b check_api \<Rightarrow> check_config \<Rightarrow> test_func \<Rightarrow> 'b generator_info list \<Rightarrow> int list list list \<Rightarrow> 'b check_state
    \<Rightarrow> bool \<times> 'b check_state" where
  "process_instances A cfg testFunc gens [] st = (True, st)"
| "process_instances A cfg testFunc gens (inst # insts) st =
     (case processInstance A cfg testFunc gens inst st of
        (False, st1) \<Rightarrow> (False, st1)
      | (True, st1) \<Rightarrow> process_instances A cfg testFunc gens insts st1)"

definition run :: "'b check_api \<Rightarrow> check_config \<Rightarrow> 'b check_state \<Rightarrow> bool \<times> 'b check_state" where
  "run A cfg st =
    (case parseAndMerge A cfg st of
       (None, st1) \<Rightarrow> (False, st1)
     | (Some (testFunc, gens), st1) \<Rightarrow> process_instances A cfg testFunc gens (cc_instances cfg) st1)"

record check_args =
  ca_inputFilenames :: "string list"
  ca_outputDir :: string
  ca_instancesRaw :: "string list"
  ca_defaultGen :: string

definition empty_state :: "'b check_state" where
  "empty_state = \<lparr>cs_cache = [], cs_invs = 0, cs_outputs = 0, cs_files = []\<rparr>"

text \<open>\<open>main\<close>: the exit code; \<open>mkdirs\<close> and \<open>session\<close> say whether the output directory and the
  compiler session can be created.\<close>

definition check_gen_main :: "'b check_api \<Rightarrow> bool \<Rightarrow> bool \<Rightarrow> check_args \<Rightarrow> (int \<times> 'b check_state) option" where
  "check_gen_main A mkdirs session args =
    (if \<not> mkdirs then Some (1, empty_state)
     else case parseAllInstances (ck_text A) (ca_instancesRaw args) of
       None \<Rightarrow> None
     | Some instances \<Rightarrow>
       (if instances = [] then Some (2, empty_state)
        else if ca_inputFilenames args = [] then Some (2, empty_state)
        else if \<not> session then Some (1, empty_state)
        else case run A \<lparr>cc_instances = instances, cc_inputFiles = ca_inputFilenames args,
                        cc_outputDir = ca_outputDir args, cc_defaultGenPath = ca_defaultGen args\<rparr> empty_state of
               (success, st) \<Rightarrow> Some (if success then 0 else 1, st)))"

section \<open>Lemmas\<close>

text \<open>What a step keeps: the live objects and the files.\<close>

definition quiet :: "'b check_state \<Rightarrow> 'b check_state \<Rightarrow> bool" where
  "quiet st st' \<longleftrightarrow> cs_invs st' = cs_invs st \<and> cs_outputs st' = cs_outputs st \<and> cs_files st' = cs_files st"

lemma quiet_refl [simp, intro]: "quiet st st"
  by (simp add: quiet_def)

lemma quiet_trans: "quiet a b \<Longrightarrow> quiet b c \<Longrightarrow> quiet a c"
  by (simp add: quiet_def)

lemma compileModule_state:
  assumes "compileModule A m st = (r, st')"
  shows "cs_invs st' = cs_invs st \<and> cs_files st' = cs_files st \<and>
    cs_outputs st' = cs_outputs st + (if r = None then 0 else 1)"
  using assms by (auto simp: compileModule_def Let_def split: if_splits option.splits)

lemma getOrLoadBinary_quiet:
  assumes "getOrLoadBinary A path st = (r, st')"
  shows "quiet st st'"
  using assms
  by (auto simp: getOrLoadBinary_def quiet_def Let_def split: option.splits if_splits prod.splits
      dest!: compileModule_state)

lemma loadGenerator_quiet:
  "loadGenerator A path ty st = (r, st') \<Longrightarrow> quiet st st'"
  by (auto simp: loadGenerator_def split: option.splits prod.splits dest: getOrLoadBinary_quiet)

lemma loadDefaultGenerator_quiet:
  "loadDefaultGenerator A cfg ty st = (r, st') \<Longrightarrow> quiet st st'"
  by (auto simp: loadDefaultGenerator_def split: if_splits dest: loadGenerator_quiet)

lemma load_generators_quiet:
  "load_generators A cfg i tys gens st = (r, st') \<Longrightarrow> quiet st st'"
proof (induction A cfg i tys gens st arbitrary: r st' rule: load_generators.induct)
  case (2 A cfg i ty tys gens st)
  obtain g st1 where g: "(if length (cc_inputFiles cfg) \<le> i + 1 \<or> cc_inputFiles cfg ! (i + 1) = ''default''
      then loadDefaultGenerator A cfg ty st
      else loadGenerator A (cc_inputFiles cfg ! (i + 1)) ty st) = (g, st1)"
    by fastforce
  have q: "quiet st st1"
    using g by (auto split: if_splits dest: loadGenerator_quiet loadDefaultGenerator_quiet)
  show ?case
  proof (cases g)
    case None
    then show ?thesis using 2(2) g q by (simp add: Let_def)
  next
    case (Some gen)
    have "load_generators A cfg (i + 1) tys (gens @ [gen]) st1 = (r, st')"
      using 2(2) g Some by (simp add: Let_def)
    with 2(1)[OF refl g[symmetric] Some] show ?thesis using q quiet_trans by blast
  qed
qed simp

lemma parseAndMerge_quiet:
  "parseAndMerge A cfg st = (r, st') \<Longrightarrow> quiet st st'"
  by (auto simp: parseAndMerge_def split: option.splits if_splits prod.splits dest: load_generators_quiet)

lemma parseAndMerge_valid:
  "parseAndMerge A cfg st = (Some (f, gens), st') \<Longrightarrow> validateInputs cfg gens"
  by (auto simp: parseAndMerge_def split: option.splits if_splits prod.splits)

lemma evaluateRefinedTest_quiet:
  "evaluateRefinedTest A m f attrs st = (r, st') \<Longrightarrow> quiet st st'"
  by (auto simp: evaluateRefinedTest_def quiet_def Let_def split: option.splits prod.splits
      dest!: compileModule_state)

lemma generateCheckTest_state:
  assumes "generateCheckTest A cfg f ins outs inst st = (ok, st')"
  shows "cs_invs st' = cs_invs st \<and> cs_outputs st' = cs_outputs st \<and>
    (ok \<longrightarrow> map fst (cs_files st') = map fst (cs_files st) @ [outPath A cfg inst])"
  using assms by (auto simp: generateCheckTest_def Let_def split: option.splits if_splits)

lemma processInstance_state:
  assumes "processInstance A cfg f gens inst st = (ok, st')"
  shows "cs_invs st' = cs_invs st \<and> cs_outputs st' = cs_outputs st \<and>
    (ok \<longrightarrow> map fst (cs_files st') = map fst (cs_files st) @ [outPath A cfg inst])"
  using assms
  by (auto simp: processInstance_def Let_def quiet_def split: option.splits if_splits prod.splits
      dest!: evaluateRefinedTest_quiet generateCheckTest_state)

lemma process_instances_state:
  "process_instances A cfg f gens insts st = (ok, st') \<Longrightarrow>
    cs_invs st' = cs_invs st \<and> cs_outputs st' = cs_outputs st \<and>
    (ok \<longrightarrow> map fst (cs_files st') = map fst (cs_files st) @ map (outPath A cfg) insts)"
proof (induction insts arbitrary: st)
  case (Cons inst insts)
  obtain ok1 st1 where p: "processInstance A cfg f gens inst st = (ok1, st1)" by fastforce
  show ?case
  proof (cases ok1)
    case True
    then have "process_instances A cfg f gens insts st1 = (ok, st')" using Cons.prems p by simp
    from Cons.IH[OF this] processInstance_state[OF p] True show ?thesis by simp
  qed (use Cons.prems p processInstance_state[OF p] in auto)
qed auto

lemma validateInputs_shape:
  assumes "validateInputs cfg gens" "inst \<in> set (cc_instances cfg)"
  shows "map length inst = map gi_numArguments gens"
proof -
  have "length inst = length gens" "list_all (\<lambda>(gen, vals). gi_numArguments gen = length vals) (zip gens inst)"
    using assms by (auto simp: validateInputs_def list_all_iff)
  then show ?thesis by (auto simp: list_all_length intro!: nth_equalityI)
qed

lemma outPath_inj:
  assumes "outPath A cfg a = outPath A cfg b" "map length a = map length b"
  shows "a = b"
  using assms suffix_from_unique[of 0 a b] by (simp add: outPath_def checkFuncName_def instSuffix_def)

section \<open>Properties\<close>

text \<open>
  C39. A successful run writes exactly one file per instance, in the order of
  the instances, and different instances go to different files.
\<close>

theorem check_gen_outputs:
  assumes "run A cfg st = (True, st')" "distinct (cc_instances cfg)"
  shows "map fst (cs_files st') = map fst (cs_files st) @ map (outPath A cfg) (cc_instances cfg) \<and>
    distinct (map (outPath A cfg) (cc_instances cfg))"
proof -
  from assms(1) obtain f gens st1 where p: "parseAndMerge A cfg st = (Some (f, gens), st1)"
    and r: "process_instances A cfg f gens (cc_instances cfg) st1 = (True, st')"
    by (auto simp: run_def split: prod.splits option.splits)
  have "inj_on (outPath A cfg) (set (cc_instances cfg))"
  proof (rule inj_onI)
    fix a b assume ab: "a \<in> set (cc_instances cfg)" "b \<in> set (cc_instances cfg)" "outPath A cfg a = outPath A cfg b"
    have "map length a = map length b"
      using validateInputs_shape[OF parseAndMerge_valid[OF p]] ab(1,2) by simp
    with ab(3) show "a = b" by (rule outPath_inj)
  qed
  then show ?thesis
    using process_instances_state[OF r] parseAndMerge_quiet[OF p] assms(2)
    by (simp add: quiet_def distinct_map)
qed

text \<open>A service that accepts everything: one generator with one argument, one test function.\<close>

definition ex_vec :: check_type where
  "ex_vec = RankedT [4] (FloatT 32) None"

definition ex_test :: test_func where
  "ex_test = \<lparr>tf_name = ''main'', tf_args = [ex_vec], tf_results = [ex_vec], tf_atol = None, tf_rtol = None, tf_body = []\<rparr>"

definition ex_service :: "nat check_api" where
  "ex_service = \<lparr>ck_text = text_ref, ck_kDynamic = - (2 ^ 63), ck_openFile = (\<lambda>p. Some p), ck_readFile = (\<lambda>_. True),
     ck_extension = (\<lambda>_. ''.vmfb''), ck_stem = (\<lambda>_. ''add''), ck_parseModule = (\<lambda>_. Some [ex_test]),
     ck_parseType = (\<lambda>_. Some ex_vec), ck_import = (\<lambda>_. True), ck_pipeline = (\<lambda>_. True),
     ck_openMembuffer = (\<lambda>_. True), ck_bytecode = (\<lambda>_. True), ck_mapMemory = (\<lambda>_. Some []),
     ck_binaryInit = (\<lambda>_. Some 0),
     ck_exports = (\<lambda>_. [\<lparr>ex_found = True, ex_name = ''gen'', ex_decl = ''f(%a: i32) -> (%r: tensor<4xf32>)'',
        ex_cconv = ''0i_r'', ex_counts = Some (1, 1)\<rparr>]),
     ck_callInit = (\<lambda>_ _ _. True), ck_addArgument = (\<lambda>_ _ _. True), ck_invoke = (\<lambda>_ _ _. True),
     ck_result = (\<lambda>_ _ _ _ ty. Some (ty, ''dense<1.0>'')), ck_refine = (\<lambda>m _. Some m), ck_hasWrapper = (\<lambda>_. False),
     ck_inline = (\<lambda>m. Some m), ck_writeFile = (\<lambda>_ _. True)\<rparr>"

definition ex_config :: check_config where
  "ex_config = \<lparr>cc_instances = [[[4]], [[-4]]], cc_inputFiles = [''add.mlir'', ''gen.vmfb''], cc_outputDir = ''out'',
     cc_defaultGenPath = []\<rparr>"

lemma check_gen_outputs_witness:
  "\<exists>st'. run ex_service ex_config empty_state = (True, st') \<and>
     map fst (cs_files st') = [''out/add_4_check.mlir'', ''out/add_-4_check.mlir'']"
proof -
  have "fst (run ex_service ex_config empty_state)" by code_simp
  then obtain st' where r: "run ex_service ex_config empty_state = (True, st')"
    by (cases "run ex_service ex_config empty_state") auto
  have d: "distinct (cc_instances ex_config)" by (simp add: ex_config_def)
  have p: "map (outPath ex_service ex_config) (cc_instances ex_config) =
      [''out/add_4_check.mlir'', ''out/add_-4_check.mlir'']" by code_simp
  from check_gen_outputs [OF r d] r p show ?thesis by (simp add: empty_state_def)
qed

text \<open>
  Nothing is leaked: whether the run succeeds or fails anywhere, every
  compiler invocation and output it created has been released.
\<close>

theorem check_gen_no_leak:
  "cs_invs (snd (run A cfg st)) = cs_invs st \<and> cs_outputs (snd (run A cfg st)) = cs_outputs st"
proof (cases "parseAndMerge A cfg st")
  case (Pair r st1)
  then show ?thesis
    using parseAndMerge_quiet[OF Pair]
      process_instances_state[of A cfg _ _ "cc_instances cfg" st1, OF prod.collapse[symmetric]]
    by (auto simp: run_def quiet_def split: option.splits)
qed

end
