(* ===== verification/HalStatus.thy ===== *)
theory HalStatus
  imports Prelude "HOL-Library.Word"
begin

text \<open>
  Status values of the runtime: \<open>iree_status_t\<close> by its code, with the value a
  successful call leaves in its out parameters, and the trap of a read outside
  an object. \<open>sbind\<close> is \<open>IREE_RETURN_IF_ERROR\<close>.
\<close>

datatype status_code = CANCELLED | UNKNOWN | INVALID_ARGUMENT | DEADLINE_EXCEEDED | NOT_FOUND | RESOURCE_EXHAUSTED
  | FAILED_PRECONDITION | ABORTED | OUT_OF_RANGE | UNIMPLEMENTED | INTERNAL | UNAVAILABLE | DATA_LOSS | DEFERRED
  | INCOMPATIBLE

datatype 'a status = OkS 'a | ErrS status_code | TrapS

fun sbind :: "'a status \<Rightarrow> ('a \<Rightarrow> 'b status) \<Rightarrow> 'b status" where
  "sbind (OkS x) f = f x"
| "sbind (ErrS e) f = ErrS e"
| "sbind TrapS f = TrapS"

fun map_status :: "('a \<Rightarrow> 'b) \<Rightarrow> 'a status \<Rightarrow> 'b status" where
  "map_status f (OkS x) = OkS (f x)"
| "map_status f (ErrS e) = ErrS e"
| "map_status f TrapS = TrapS"

lemma sbind_OkS: "sbind s f = OkS y \<longleftrightarrow> (\<exists>x. s = OkS x \<and> f x = OkS y)"
  by (cases s) auto

lemma sbind_not_trap:
  "s \<noteq> TrapS \<Longrightarrow> (\<And>x. s = OkS x \<Longrightarrow> f x \<noteq> TrapS) \<Longrightarrow> sbind s f \<noteq> TrapS"
  by (cases s) auto

lemma sbind_trap: "sbind s f = TrapS \<longleftrightarrow> s = TrapS \<or> (\<exists>x. s = OkS x \<and> f x = TrapS)"
  by (cases s) auto

lemma map_status_simps [simp]:
  "map_status f s = OkS y \<longleftrightarrow> (\<exists>x. s = OkS x \<and> y = f x)" "map_status f s = TrapS \<longleftrightarrow> s = TrapS"
  by (cases s; auto)+

end
