(* ===== verification/Semaphore.thy ===== *)
theory Semaphore
  imports HalStatus
begin

text \<open>
  Timeline semaphores (\<open>runtime/driver/coralnpu_semaphore.c\<close>). A region under the
  mutex of a semaphore is one step on a store of semaphores; \<open>FAILURE_VALUE\<close>, a
  constant of IREE, is a parameter. The first half models the operations as
  functions, the second as an interleaving of threads around the notification
  all semaphores share, of which only its contract is used: a waiter evaluates its
  condition when it starts to wait and again after every post, an infinite wait
  ends only when the condition held, any other may end at any time.
\<close>

section \<open>One semaphore\<close>

record sem =
  current_value :: "64 word"
  failure_status :: "status_code option"

definition semaphore_create :: "64 word \<Rightarrow> sem" where
  "semaphore_create initial_value = \<lparr>current_value = initial_value, failure_status = None\<rparr>"

text \<open>The out value and the status, \<open>None\<close> for ok.\<close>

definition semaphore_query :: "64 word \<Rightarrow> sem \<Rightarrow> 64 word \<times> status_code option" where
  "semaphore_query failure_value s =
     (current_value s, if failure_value \<le> current_value s then failure_status s else None)"

definition signal_unsafe :: "sem \<Rightarrow> 64 word \<Rightarrow> status_code option \<times> sem" where
  "signal_unsafe s new_value =
     (if new_value \<le> current_value s then (Some OUT_OF_RANGE, s)
      else (None, s\<lparr>current_value := new_value\<rparr>))"

text \<open>The first failure wins; the result says whether waiters are notified.\<close>

definition semaphore_fail :: "64 word \<Rightarrow> status_code \<Rightarrow> sem \<Rightarrow> bool \<times> sem" where
  "semaphore_fail failure_value e s =
     (if failure_status s \<noteq> None then (False, s)
      else (True, s\<lparr>current_value := failure_value, failure_status := Some e\<rparr>))"

definition is_signaled :: "sem \<Rightarrow> 64 word \<Rightarrow> bool" where
  "is_signaled s v \<longleftrightarrow> v \<le> current_value s \<or> failure_status s \<noteq> None"

datatype timeout = Immediate | Deadline | Infinite

text \<open>Before the wait: the status to return at once, or \<open>None\<close> to go on and wait.\<close>

definition wait_enter :: "sem \<Rightarrow> 64 word \<Rightarrow> timeout \<Rightarrow> status_code option option" where
  "wait_enter s v t =
     (if failure_status s \<noteq> None then Some (Some ABORTED)
      else if v \<le> current_value s then Some None
      else if t = Immediate then Some (Some DEADLINE_EXCEEDED)
      else None)"

definition wait_result :: "sem \<Rightarrow> 64 word \<Rightarrow> status_code option" where
  "wait_result s v =
     (if failure_status s \<noteq> None then Some ABORTED
      else if current_value s < v then Some DEADLINE_EXCEEDED
      else None)"

section \<open>Lists of semaphores\<close>

type_synonym store = "nat \<Rightarrow> sem"
type_synonym sem_list = "(nat \<times> 64 word) list"

text \<open>The loop of \<open>multi_signal\<close>; the list holds the semaphores signaled, in order.\<close>

fun signal_all :: "store \<Rightarrow> sem_list \<Rightarrow> status_code option \<times> store \<times> sem_list" where
  "signal_all \<sigma> [] = (None, \<sigma>, [])"
| "signal_all \<sigma> ((i, v) # l) =
     (case signal_unsafe (\<sigma> i) v of
        (Some e, _) \<Rightarrow> (Some e, \<sigma>, [])
      | (None, s1) \<Rightarrow> (case signal_all (\<sigma>(i := s1)) l of (r, \<sigma>1, done1) \<Rightarrow> (r, \<sigma>1, (i, v) # done1)))"

fun any_signaled :: "store \<Rightarrow> sem_list \<Rightarrow> bool" where
  "any_signaled \<sigma> [] = False"
| "any_signaled \<sigma> ((i, v) # l) = (if is_signaled (\<sigma> i) v then True else any_signaled \<sigma> l)"

fun all_signaled :: "store \<Rightarrow> sem_list \<Rightarrow> bool" where
  "all_signaled \<sigma> [] = True"
| "all_signaled \<sigma> ((i, v) # l) = (if \<not> is_signaled (\<sigma> i) v then False else all_signaled \<sigma> l)"

datatype wait_mode = ModeAll | ModeAny

text \<open>The three flags of \<open>result_from_state\<close>: any signaled, all signaled, any failed.\<close>

definition result_step :: "sem \<Rightarrow> 64 word \<Rightarrow> bool \<times> bool \<times> bool \<Rightarrow> bool \<times> bool \<times> bool" where
  "result_step s v = (\<lambda>(any, every, failed).
     if failure_status s \<noteq> None then (any, every, True)
     else if current_value s < v then (any, False, failed)
     else (True, every, failed))"

definition result_of_flags :: "wait_mode \<Rightarrow> bool \<times> bool \<times> bool \<Rightarrow> status_code option" where
  "result_of_flags mode = (\<lambda>(any, every, failed).
     if failed then Some ABORTED
     else case mode of
       ModeAll \<Rightarrow> if every then None else Some DEADLINE_EXCEEDED
     | ModeAny \<Rightarrow> if any then None else Some DEADLINE_EXCEEDED)"

definition result_from_state :: "wait_mode \<Rightarrow> store \<Rightarrow> sem_list \<Rightarrow> status_code option" where
  "result_from_state mode \<sigma> l =
     result_of_flags mode (fold (\<lambda>(i, v). result_step (\<sigma> i) v) l (False, True, False))"

text \<open>
  \<open>multi_wait\<close> before it waits: at once a status, or the condition and the timeout
  of the wait. A single semaphore goes to its own wait, which keeps the timeout;
  a longer list waits with an infinite one.
\<close>

datatype wait_plan =
    Return "status_code option"
  | Poll wait_mode sem_list
  | AwaitOne nat "64 word" timeout
  | AwaitMany wait_mode sem_list timeout

definition wait_one :: "store \<Rightarrow> nat \<Rightarrow> 64 word \<Rightarrow> timeout \<Rightarrow> wait_plan" where
  "wait_one \<sigma> i v t = (case wait_enter (\<sigma> i) v t of Some r \<Rightarrow> Return r | None \<Rightarrow> AwaitOne i v t)"

definition multi_wait :: "store \<Rightarrow> wait_mode \<Rightarrow> sem_list \<Rightarrow> timeout \<Rightarrow> wait_plan" where
  "multi_wait \<sigma> mode l t =
     (case l of
        [] \<Rightarrow> Return None
      | [(i, v)] \<Rightarrow> wait_one \<sigma> i v t
      | _ \<Rightarrow> if t = Immediate then Poll mode l else AwaitMany mode l Infinite)"

fun plan_condition :: "wait_plan \<Rightarrow> store \<Rightarrow> bool" where
  "plan_condition (Return r) \<sigma> = True"
| "plan_condition (Poll mode l) \<sigma> = True"
| "plan_condition (AwaitOne i v t) \<sigma> = is_signaled (\<sigma> i) v"
| "plan_condition (AwaitMany ModeAll l t) \<sigma> = all_signaled \<sigma> l"
| "plan_condition (AwaitMany ModeAny l t) \<sigma> = any_signaled \<sigma> l"

fun plan_list :: "wait_plan \<Rightarrow> sem_list" where
  "plan_list (Return r) = []"
| "plan_list (Poll mode l) = l"
| "plan_list (AwaitOne i v t) = [(i, v)]"
| "plan_list (AwaitMany mode l t) = l"

fun plan_mode :: "wait_plan \<Rightarrow> wait_mode" where
  "plan_mode (Return r) = ModeAll"
| "plan_mode (Poll mode l) = mode"
| "plan_mode (AwaitOne i v t) = ModeAll"
| "plan_mode (AwaitMany mode l t) = mode"

fun plan_timeout :: "wait_plan \<Rightarrow> timeout" where
  "plan_timeout (Return r) = Immediate"
| "plan_timeout (Poll mode l) = Immediate"
| "plan_timeout (AwaitOne i v t) = t"
| "plan_timeout (AwaitMany mode l t) = t"

lemma any_signaled_iff: "any_signaled \<sigma> l \<longleftrightarrow> (\<exists>(i, v) \<in> set l. is_signaled (\<sigma> i) v)"
  by (induction l) (auto split: if_splits)

lemma all_signaled_iff: "all_signaled \<sigma> l \<longleftrightarrow> (\<forall>(i, v) \<in> set l. is_signaled (\<sigma> i) v)"
  by (induction l) (auto split: if_splits)

lemma result_flags:
  "fold (\<lambda>(i, v). result_step (\<sigma> i) v) l (a, b, c) =
    (a \<or> (\<exists>(i, v) \<in> set l. failure_status (\<sigma> i) = None \<and> v \<le> current_value (\<sigma> i)),
     b \<and> (\<forall>(i, v) \<in> set l. failure_status (\<sigma> i) \<noteq> None \<or> v \<le> current_value (\<sigma> i)),
     c \<or> (\<exists>(i, v) \<in> set l. failure_status (\<sigma> i) \<noteq> None))"
  by (induction l arbitrary: a b c) (auto simp: result_step_def not_less)

lemma result_from_state_cases:
  "result_from_state mode \<sigma> l =
    (if \<exists>(i, v) \<in> set l. failure_status (\<sigma> i) \<noteq> None then Some ABORTED
     else if (case mode of ModeAll \<Rightarrow> all_signaled \<sigma> l | ModeAny \<Rightarrow> any_signaled \<sigma> l) then None
     else Some DEADLINE_EXCEEDED)"
proof (cases "\<exists>(i, v) \<in> set l. failure_status (\<sigma> i) \<noteq> None")
  case True
  then show ?thesis unfolding result_from_state_def result_flags result_of_flags_def by simp
next
  case False
  then have "is_signaled (\<sigma> i) v \<longleftrightarrow> v \<le> current_value (\<sigma> i)" "failure_status (\<sigma> i) = None" if "(i, v) \<in> set l" for i v
    using that by (auto simp: is_signaled_def)
  then have "(\<exists>(i, v) \<in> set l. failure_status (\<sigma> i) = None \<and> v \<le> current_value (\<sigma> i)) \<longleftrightarrow> any_signaled \<sigma> l"
    "(\<forall>(i, v) \<in> set l. failure_status (\<sigma> i) \<noteq> None \<or> v \<le> current_value (\<sigma> i)) \<longleftrightarrow> all_signaled \<sigma> l"
    by (fastforce simp: any_signaled_iff all_signaled_iff)+
  then show ?thesis using False unfolding result_from_state_def result_flags result_of_flags_def
    by (simp split: wait_mode.split)
qed

section \<open>Order\<close>

text \<open>How a semaphore may change: values grow, the first failure stays.\<close>

definition sem_le :: "sem \<Rightarrow> sem \<Rightarrow> bool" where
  "sem_le s s1 \<longleftrightarrow> (failure_status s1 = None \<longrightarrow> failure_status s = None \<and> current_value s \<le> current_value s1) \<and>
     (\<forall>e. failure_status s = Some e \<longrightarrow> failure_status s1 = Some e)"

lemma sem_le_refl [simp]: "sem_le s s"
  by (simp add: sem_le_def)

lemma sem_le_trans: "sem_le s s1 \<Longrightarrow> sem_le s1 s2 \<Longrightarrow> sem_le s s2"
  unfolding sem_le_def by (metis order_trans)

lemma sem_le_signal: "signal_unsafe s v = (r, s1) \<Longrightarrow> sem_le s s1"
  by (auto simp: signal_unsafe_def sem_le_def split: if_splits)

lemma sem_le_fail: "semaphore_fail F e s = (b, s1) \<Longrightarrow> sem_le s s1"
  by (auto simp: semaphore_fail_def sem_le_def split: if_splits)

lemma sem_le_signaled:
  assumes "sem_le s s1" "is_signaled s v"
  shows "is_signaled s1 v"
proof (cases "failure_status s1 = None")
  case True
  then show ?thesis using assms order_trans unfolding sem_le_def is_signaled_def by blast
qed (simp add: is_signaled_def)

definition store_le :: "store \<Rightarrow> store \<Rightarrow> bool" where
  "store_le \<sigma> \<sigma>1 \<longleftrightarrow> (\<forall>i. sem_le (\<sigma> i) (\<sigma>1 i))"

lemma store_le_refl [simp]: "store_le \<sigma> \<sigma>"
  by (simp add: store_le_def)

lemma store_le_trans: "store_le \<sigma> \<sigma>1 \<Longrightarrow> store_le \<sigma>1 \<sigma>2 \<Longrightarrow> store_le \<sigma> \<sigma>2"
  by (auto simp: store_le_def intro: sem_le_trans)

lemma store_le_upd: "sem_le (\<sigma> i) s \<Longrightarrow> store_le \<sigma> (\<sigma>(i := s))"
  by (simp add: store_le_def)

lemma plan_condition_mono: "store_le \<sigma> \<sigma>1 \<Longrightarrow> plan_condition p \<sigma> \<Longrightarrow> plan_condition p \<sigma>1"
  by (cases "(p, \<sigma>)" rule: plan_condition.cases)
    (auto simp: store_le_def any_signaled_iff all_signaled_iff intro: sem_le_signaled)

text \<open>A failing \<open>multi_signal\<close> leaves the semaphores before the offending one signaled.\<close>

lemma signal_all_prefix:
  "signal_all \<sigma> l = (r, \<sigma>1, dn) \<Longrightarrow> \<exists>rest. l = dn @ rest \<and> (r = None \<longleftrightarrow> rest = []) \<and> store_le \<sigma> \<sigma>1"
proof (induction \<sigma> l arbitrary: \<sigma>1 dn rule: signal_all.induct)
  case (2 \<sigma> i v l)
  show ?case
  proof (cases "fst (signal_unsafe (\<sigma> i) v)")
    case None
    then obtain s1 where s1: "signal_unsafe (\<sigma> i) v = (None, s1)" by (cases "signal_unsafe (\<sigma> i) v") auto
    obtain \<sigma>2 dn1 where r: "signal_all (\<sigma>(i := s1)) l = (r, \<sigma>2, dn1)" "\<sigma>1 = \<sigma>2" "dn = (i, v) # dn1"
      using 2 s1 by (auto split: prod.splits)
    have "store_le \<sigma> (\<sigma>(i := s1))" using sem_le_signal[OF s1] by (simp add: store_le_def)
    then show ?thesis using 2(1)[OF s1[symmetric] refl r(1)] r store_le_trans by fastforce
  next
    case (Some e)
    then show ?thesis using 2 by (cases "signal_unsafe (\<sigma> i) v") auto
  qed
qed simp

section \<open>Threads\<close>

text \<open>
  A thread signals (\<open>Signaling\<close> a list, then \<open>Posting\<close>) or waits: \<open>Waiting\<close> in
  the notification, with the flag that it is to evaluate its condition,
  \<open>Evaluate\<close> at the rest of the list, \<open>Finishing\<close> after the wait, \<open>Reading\<close> the
  rest of the list in \<open>result_from_state\<close>.
\<close>

datatype thread =
    Halted
  | Signaling sem_list
  | Posting "status_code option"
  | SignalDone "status_code option"
  | Waiting wait_plan bool
  | Evaluate wait_plan sem_list bool
  | Finishing wait_plan
  | Reading wait_plan sem_list "bool \<times> bool \<times> bool"
  | WaitDone wait_plan "status_code option"

record sys =
  sems :: store
  threads :: "nat \<Rightarrow> thread"

fun idle :: "thread \<Rightarrow> bool" where
  "idle Halted = True"
| "idle (SignalDone r) = True"
| "idle (WaitDone p r) = True"
| "idle _ = False"

text \<open>A thread that may have changed a semaphore and has not posted yet.\<close>

fun owes_post :: "thread \<Rightarrow> bool" where
  "owes_post (Signaling l) = True"
| "owes_post (Posting r) = True"
| "owes_post _ = False"

fun wake :: "thread \<Rightarrow> thread" where
  "wake (Waiting p w) = Waiting p True"
| "wake (Evaluate p l w) = Evaluate p l True"
| "wake P = P"

fun wait_start :: "wait_plan \<Rightarrow> thread" where
  "wait_start (Return r) = WaitDone (Return r) r"
| "wait_start (Poll mode l) = Reading (Poll mode l) l (False, True, False)"
| "wait_start p = Waiting p True"

text \<open>The next step of a waiting thread on its own; asleep it stays where it is.\<close>

fun wait_run :: "store \<Rightarrow> thread \<Rightarrow> thread" where
  "wait_run \<sigma> (Waiting p True) = Evaluate p (plan_list p) False"
| "wait_run \<sigma> (Evaluate p [] w) = (case plan_mode p of ModeAll \<Rightarrow> Finishing p | ModeAny \<Rightarrow> Waiting p w)"
| "wait_run \<sigma> (Evaluate p ((i, v) # l) w) =
     (case plan_mode p of
        ModeAll \<Rightarrow> if is_signaled (\<sigma> i) v then Evaluate p l w else Waiting p w
      | ModeAny \<Rightarrow> if is_signaled (\<sigma> i) v then Finishing p else Evaluate p l w)"
| "wait_run \<sigma> (Finishing (AwaitOne i v t)) = WaitDone (AwaitOne i v t) (wait_result (\<sigma> i) v)"
| "wait_run \<sigma> (Finishing p) = Reading p (plan_list p) (False, True, False)"
| "wait_run \<sigma> (Reading p ((i, v) # l) flags) = Reading p l (result_step (\<sigma> i) v flags)"
| "wait_run \<sigma> (Reading p [] flags) = WaitDone p (result_of_flags (plan_mode p) flags)"
| "wait_run \<sigma> P = P"

inductive sys_step :: "64 word \<Rightarrow> sys \<Rightarrow> sys \<Rightarrow> bool" for failure_value :: "64 word" where
  signal: "idle (threads s t) \<Longrightarrow> signal_unsafe (sems s i) v = (None, s1) \<Longrightarrow>
    sys_step failure_value s (s\<lparr>sems := (sems s)(i := s1), threads := (threads s)(t := Posting None)\<rparr>)"
| signal_rejected: "idle (threads s t) \<Longrightarrow> signal_unsafe (sems s i) v = (Some e, s1) \<Longrightarrow>
    sys_step failure_value s (s\<lparr>threads := (threads s)(t := SignalDone (Some e))\<rparr>)"
| fail: "idle (threads s t) \<Longrightarrow> semaphore_fail failure_value e (sems s i) = (True, s1) \<Longrightarrow>
    sys_step failure_value s (s\<lparr>sems := (sems s)(i := s1), threads := (threads s)(t := Posting None)\<rparr>)"
| fail_again: "idle (threads s t) \<Longrightarrow> semaphore_fail failure_value e (sems s i) = (False, s1) \<Longrightarrow>
    sys_step failure_value s (s\<lparr>threads := (threads s)(t := SignalDone None)\<rparr>)"
| multi_signal: "idle (threads s t) \<Longrightarrow> 2 \<le> length l \<Longrightarrow>
    sys_step failure_value s (s\<lparr>threads := (threads s)(t := Signaling l)\<rparr>)"
| signal_next: "threads s t = Signaling ((i, v) # l) \<Longrightarrow> signal_unsafe (sems s i) v = (None, s1) \<Longrightarrow>
    sys_step failure_value s (s\<lparr>sems := (sems s)(i := s1), threads := (threads s)(t := Signaling l)\<rparr>)"
| signal_stop: "threads s t = Signaling ((i, v) # l) \<Longrightarrow> signal_unsafe (sems s i) v = (Some e, s1) \<Longrightarrow>
    sys_step failure_value s (s\<lparr>threads := (threads s)(t := Posting (Some e))\<rparr>)"
| signal_end: "threads s t = Signaling [] \<Longrightarrow>
    sys_step failure_value s (s\<lparr>threads := (threads s)(t := Posting None)\<rparr>)"
| post: "threads s t = Posting r \<Longrightarrow>
    sys_step failure_value s (s\<lparr>threads := (\<lambda>u. wake (threads s u))(t := SignalDone r)\<rparr>)"
| wait: "idle (threads s t) \<Longrightarrow>
    sys_step failure_value s (s\<lparr>threads := (threads s)(t := wait_start (multi_wait (sems s) mode l timeout))\<rparr>)"
| wait_on: "\<not> idle (threads s t) \<Longrightarrow> \<not> owes_post (threads s t) \<Longrightarrow>
    sys_step failure_value s (s\<lparr>threads := (threads s)(t := wait_run (sems s) (threads s t))\<rparr>)"
| wait_expires: "threads s t = Waiting p w \<Longrightarrow> plan_timeout p \<noteq> Infinite \<Longrightarrow>
    sys_step failure_value s (s\<lparr>threads := (threads s)(t := Finishing p)\<rparr>)"

inductive reachable :: "64 word \<Rightarrow> sys \<Rightarrow> bool" for failure_value :: "64 word" where
  reach_init: "reachable failure_value \<lparr>sems = \<lambda>i. semaphore_create (initial i), threads = \<lambda>_. Halted\<rparr>"
| reach_step: "reachable failure_value s \<Longrightarrow> sys_step failure_value s s1 \<Longrightarrow> reachable failure_value s1"

section \<open>The invariant\<close>

definition unsignaled :: "store \<Rightarrow> sem_list \<Rightarrow> bool" where
  "unsignaled \<sigma> l \<longleftrightarrow> \<not> any_signaled \<sigma> l"

fun awaits :: "wait_plan \<Rightarrow> bool" where
  "awaits (AwaitOne i v t) = True"
| "awaits (AwaitMany mode l t) = True"
| "awaits _ = False"

definition some_failed :: "store \<Rightarrow> sem_list \<Rightarrow> bool" where
  "some_failed \<sigma> l \<longleftrightarrow> (\<exists>(i, v) \<in> set l. failure_status (\<sigma> i) \<noteq> None)"

text \<open>What holds of a waiting thread, given whether some thread owes a post.\<close>

fun thread_ok :: "store \<Rightarrow> bool \<Rightarrow> thread \<Rightarrow> bool" where
  "thread_ok \<sigma> owed (Waiting p w) \<longleftrightarrow> awaits p \<and> (w \<or> owed \<or> \<not> plan_condition p \<sigma>)"
| "thread_ok \<sigma> owed (Evaluate p l w) \<longleftrightarrow> awaits p \<and> (\<exists>seen. plan_list p = seen @ l \<and>
     (case plan_mode p of ModeAll \<Rightarrow> all_signaled \<sigma> seen | ModeAny \<Rightarrow> w \<or> owed \<or> unsignaled \<sigma> seen))"
| "thread_ok \<sigma> owed (Finishing p) \<longleftrightarrow> awaits p \<and> (plan_timeout p = Infinite \<longrightarrow> plan_condition p \<sigma>)"
| "thread_ok \<sigma> owed (Reading p l (any, every, failed)) \<longleftrightarrow>
     (\<exists>seen. plan_list p = seen @ l) \<and> (failed \<longrightarrow> some_failed \<sigma> (plan_list p)) \<and>
     (plan_timeout p = Infinite \<longrightarrow> plan_condition p \<sigma> \<and>
        (case plan_mode p of ModeAll \<Rightarrow> every | ModeAny \<Rightarrow> any \<or> failed \<or> any_signaled \<sigma> l))"
| "thread_ok \<sigma> owed (WaitDone p r) \<longleftrightarrow> (plan_timeout p = Infinite \<longrightarrow>
     r = None \<and> plan_condition p \<sigma> \<or> r = Some ABORTED \<and> some_failed \<sigma> (plan_list p))"
| "thread_ok \<sigma> owed P \<longleftrightarrow> True"

definition sys_ok :: "sys \<Rightarrow> bool" where
  "sys_ok s \<longleftrightarrow> (\<forall>t. thread_ok (sems s) (\<exists>u. owes_post (threads s u)) (threads s t))"

lemma all_signaled_append: "all_signaled \<sigma> (l @ l1) \<longleftrightarrow> all_signaled \<sigma> l \<and> all_signaled \<sigma> l1"
  by (auto simp: all_signaled_iff)

lemma any_signaled_append: "any_signaled \<sigma> (l @ l1) \<longleftrightarrow> any_signaled \<sigma> l \<or> any_signaled \<sigma> l1"
  by (auto simp: any_signaled_iff)

lemma plan_condition_list:
  "awaits p \<Longrightarrow> plan_condition p \<sigma> \<longleftrightarrow>
    (case plan_mode p of ModeAll \<Rightarrow> all_signaled \<sigma> (plan_list p) | ModeAny \<Rightarrow> any_signaled \<sigma> (plan_list p))"
  by (cases "(p, \<sigma>)" rule: plan_condition.cases) auto

lemma all_signaled_mono: "store_le \<sigma> \<sigma>1 \<Longrightarrow> all_signaled \<sigma> l \<Longrightarrow> all_signaled \<sigma>1 l"
  by (auto simp: store_le_def all_signaled_iff intro: sem_le_signaled)

lemma any_signaled_mono: "store_le \<sigma> \<sigma>1 \<Longrightarrow> any_signaled \<sigma> l \<Longrightarrow> any_signaled \<sigma>1 l"
  by (auto simp: store_le_def any_signaled_iff intro: sem_le_signaled)

lemma some_failed_mono: "store_le \<sigma> \<sigma>1 \<Longrightarrow> some_failed \<sigma> l \<Longrightarrow> some_failed \<sigma>1 l"
  by (fastforce simp: store_le_def some_failed_def sem_le_def)

lemmas store_mono = all_signaled_mono any_signaled_mono some_failed_mono plan_condition_mono

text \<open>Other threads: the store grows while a post is owed, and a post wakes.\<close>

lemma thread_ok_grow:
  assumes "store_le \<sigma> \<sigma>1" "thread_ok \<sigma> owed P"
  shows "thread_ok \<sigma>1 True P"
proof (cases P)
  case (Evaluate p l w)
  then obtain seen where s: "plan_list p = seen @ l" and a: "awaits p"
    and m: "plan_mode p = ModeAll \<Longrightarrow> all_signaled \<sigma> seen"
    using assms(2) by (cases "plan_mode p") auto
  then show ?thesis using Evaluate all_signaled_mono[OF assms(1)] by (auto split: wait_mode.split)
next
  case (Reading p l flags)
  obtain any every failed where f: "flags = (any, every, failed)" by (cases flags)
  show ?thesis using assms(2) store_mono[OF assms(1)] unfolding Reading f thread_ok.simps
    by (cases "plan_mode p") auto
qed (use assms(2) store_mono[OF assms(1)] in auto)

lemma thread_ok_wake: "thread_ok \<sigma> owed P \<Longrightarrow> thread_ok \<sigma> owed1 (wake P)"
  by (cases "(\<sigma>, owed, P)" rule: thread_ok.cases) (auto split: wait_mode.splits)

lemma thread_ok_owed: "thread_ok \<sigma> owed P \<Longrightarrow> (owed \<Longrightarrow> owed1) \<Longrightarrow> thread_ok \<sigma> owed1 P"
  by (cases "(\<sigma>, owed, P)" rule: thread_ok.cases) (auto split: wait_mode.splits)

text \<open>A thread's own step.\<close>

lemma thread_ok_reading:
  assumes "thread_ok \<sigma> owed (Reading p ((i, v) # l) (any, every, failed))"
  shows "thread_ok \<sigma> owed (Reading p l (result_step (\<sigma> i) v (any, every, failed)))"
proof -
  obtain seen where s: "plan_list p = seen @ (i, v) # l" using assms by auto
  have f: "failure_status (\<sigma> i) \<noteq> None \<Longrightarrow> some_failed \<sigma> (plan_list p)" using s by (auto simp: some_failed_def)
  have c: "is_signaled (\<sigma> i) v" if "plan_mode p = ModeAll" "plan_timeout p = Infinite"
  proof -
    have "plan_condition p \<sigma>" using assms that(2) by simp
    moreover have "awaits p" using that(2) by (cases p) auto
    ultimately have "all_signaled \<sigma> (plan_list p)" using that(1) by (simp add: plan_condition_list)
    then show ?thesis by (simp add: s all_signaled_append split: if_splits)
  qed
  have n: "\<exists>seen. plan_list p = seen @ l" by (rule exI[of _ "seen @ [(i, v)]"]) (simp add: s)
  show ?thesis
    using assms f c n by (cases "plan_mode p") (auto simp: result_step_def is_signaled_def split: if_splits)
qed

lemma awaits_list: "awaits p \<Longrightarrow> plan_condition p \<sigma> \<Longrightarrow> plan_mode p = ModeAll \<Longrightarrow> all_signaled \<sigma> (plan_list p)"
  "awaits p \<Longrightarrow> plan_condition p \<sigma> \<Longrightarrow> plan_mode p = ModeAny \<Longrightarrow> any_signaled \<sigma> (plan_list p)"
  by (simp_all add: plan_condition_list)

lemma infinite_awaits: "plan_timeout p = Infinite \<Longrightarrow> awaits p"
  by (cases p) auto

lemma thread_ok_evaluate:
  assumes "thread_ok \<sigma> owed (Evaluate p ((i, v) # l) w)"
  shows "thread_ok \<sigma> owed (wait_run \<sigma> (Evaluate p ((i, v) # l) w))"
proof -
  obtain seen where s: "plan_list p = seen @ (i, v) # l" and a: "awaits p"
    and m: "case plan_mode p of ModeAll \<Rightarrow> all_signaled \<sigma> seen | ModeAny \<Rightarrow> w \<or> owed \<or> unsignaled \<sigma> seen"
    using assms by auto
  have n: "plan_list p = (seen @ [(i, v)]) @ l" by (simp add: s)
  show ?thesis
  proof (cases "plan_mode p")
    case ModeAll
    show ?thesis
    proof (cases "is_signaled (\<sigma> i) v")
      case True
      then have "all_signaled \<sigma> (seen @ [(i, v)])" using m ModeAll by (simp add: all_signaled_append)
      then show ?thesis using True a n ModeAll by (auto intro!: exI[of _ "seen @ [(i, v)]"])
    next
      case False
      then have "\<not> plan_condition p \<sigma>" using ModeAll a by (auto simp: plan_condition_list s all_signaled_append)
      then show ?thesis using False a ModeAll by simp
    qed
  next
    case ModeAny
    show ?thesis
    proof (cases "is_signaled (\<sigma> i) v")
      case True
      then have "plan_condition p \<sigma>" using ModeAny a by (simp add: plan_condition_list s any_signaled_append)
      then show ?thesis using True a ModeAny by simp
    next
      case False
      then have "w \<or> owed \<or> unsignaled \<sigma> (seen @ [(i, v)])" using m ModeAny
        by (simp add: unsignaled_def any_signaled_append)
      then show ?thesis using False a n ModeAny by (auto intro!: exI[of _ "seen @ [(i, v)]"])
    qed
  qed
qed

lemma wait_result_condition:
  "is_signaled s v \<Longrightarrow> wait_result s v = None \<and> is_signaled s v \<or> wait_result s v = Some ABORTED \<and> failure_status s \<noteq> None"
  by (auto simp: wait_result_def is_signaled_def)

lemma thread_ok_run:
  assumes "thread_ok \<sigma> owed P"
  shows "thread_ok \<sigma> owed (wait_run \<sigma> P)"
  using assms
proof (cases "(\<sigma>, P)" rule: wait_run.cases)
  case (1 \<sigma> p)
  then show ?thesis using assms by (auto simp: unsignaled_def split: wait_mode.split)
next
  case (2 \<sigma> p w)
  then show ?thesis using assms
    by (cases "plan_mode p") (auto simp: plan_condition_list unsignaled_def)
next
  case (3 \<sigma> p i v l w)
  then show ?thesis using thread_ok_evaluate assms by auto
next
  case (4 \<sigma> i v t)
  then show ?thesis using assms wait_result_condition[of "\<sigma> i" v] by (auto simp: some_failed_def)
next
  case (6 \<sigma> p i v l flags)
  then show ?thesis using assms by (cases flags) (auto simp del: thread_ok.simps intro: thread_ok_reading)
next
  case (7 \<sigma> p flags)
  then show ?thesis using assms
    by (cases flags; cases "plan_mode p") (auto simp: result_of_flags_def)
qed (use assms in \<open>auto simp: plan_condition_list awaits_list split: wait_mode.splits\<close>)

lemma idle_facts: "idle P \<Longrightarrow> \<not> owes_post P"
  by (cases P) auto

lemma owes_run [simp]: "owes_post (wait_run \<sigma> P) \<longleftrightarrow> owes_post P"
  by (cases "(\<sigma>, P)" rule: wait_run.cases) (auto split: wait_mode.split)

lemma thread_ok_start: "thread_ok \<sigma> owed (wait_start (multi_wait \<sigma> mode l t))"
  by (auto simp: multi_wait_def wait_one_def wait_enter_def split: list.split option.splits if_splits)

lemma sys_okD: "sys_ok s \<Longrightarrow> thread_ok (sems s) (\<exists>u. owes_post (threads s u)) (threads s t)"
  by (simp add: sys_ok_def)

lemma owed_replace:
  assumes "owes_post P \<or> \<not> owes_post (f t)" "\<exists>u. owes_post (f u)"
  shows "\<exists>u. owes_post ((f(t := P)) u)"
proof -
  obtain u where "owes_post (f u)" using assms(2) by blast
  then show ?thesis using assms(1) by (cases "u = t") (auto intro: exI[of _ t] exI[of _ u])
qed

text \<open>A step that replaces one thread, by one that is fine, keeps the invariant.\<close>

lemma sys_ok_replace:
  assumes "sys_ok s" "owes_post P \<or> \<not> owes_post (threads s t)"
    "thread_ok (sems s) (\<exists>u. owes_post (threads s u)) P"
  shows "sys_ok (s\<lparr>threads := (threads s)(t := P)\<rparr>)"
  unfolding sys_ok_def
proof
  fix u
  note grow = owed_replace[where f = "threads s" and t = t and P = P, OF assms(2)]
  have "thread_ok (sems s) (\<exists>u. owes_post (((threads s)(t := P)) u)) (threads s u)"
    using sys_okD[OF assms(1)] grow by (rule thread_ok_owed)
  moreover have "thread_ok (sems s) (\<exists>u. owes_post (((threads s)(t := P)) u)) P"
    using assms(3) grow by (rule thread_ok_owed)
  ultimately show "thread_ok (sems (s\<lparr>threads := (threads s)(t := P)\<rparr>))
      (\<exists>v. owes_post (threads (s\<lparr>threads := (threads s)(t := P)\<rparr>) v)) (threads (s\<lparr>threads := (threads s)(t := P)\<rparr>) u)"
    by (cases "u = t") simp_all
qed

lemma sys_ok_update:
  assumes "sys_ok s" "store_le (sems s) \<sigma>" "owes_post P"
  shows "sys_ok (s\<lparr>sems := \<sigma>, threads := (threads s)(t := P)\<rparr>)"
  unfolding sys_ok_def
proof
  fix u
  have "\<exists>u. owes_post (((threads s)(t := P)) u)" using assms(3) by (intro exI[of _ t]) simp
  moreover have "thread_ok \<sigma> True (threads s u)" using assms(1,2) thread_ok_grow unfolding sys_ok_def by blast
  moreover have "thread_ok \<sigma> True P" using assms(3) by (cases P) auto
  ultimately show "thread_ok (sems (s\<lparr>sems := \<sigma>, threads := (threads s)(t := P)\<rparr>))
      (\<exists>v. owes_post (threads (s\<lparr>sems := \<sigma>, threads := (threads s)(t := P)\<rparr>) v))
      (threads (s\<lparr>sems := \<sigma>, threads := (threads s)(t := P)\<rparr>) u)" by simp
qed

lemma sys_ok_post:
  assumes "sys_ok s"
  shows "sys_ok (s\<lparr>threads := (\<lambda>u. wake (threads s u))(t := SignalDone r)\<rparr>)"
  using assms unfolding sys_ok_def by (auto intro: thread_ok_wake)

lemma sys_step_ok:
  assumes "sys_step F s s1" "sys_ok s"
  shows "sys_ok s1 \<and> store_le (sems s) (sems s1)"
  using assms(1)
proof cases
  case (signal t i v x)
  then have g: "store_le (sems s) ((sems s)(i := x))" using sem_le_signal store_le_upd by blast
  then show ?thesis using signal sys_ok_update[OF assms(2) g] by simp
next
  case (fail t e i x)
  then have g: "store_le (sems s) ((sems s)(i := x))" using sem_le_fail store_le_upd by blast
  then show ?thesis using fail sys_ok_update[OF assms(2) g] by simp
next
  case (signal_next t i v l x)
  then have g: "store_le (sems s) ((sems s)(i := x))" using sem_le_signal store_le_upd by blast
  then show ?thesis using signal_next sys_ok_update[OF assms(2) g] by simp
next
  case (post t r)
  then show ?thesis using sys_ok_post[OF assms(2)] by simp
next
  case (wait t mode l timeout)
  then show ?thesis using sys_ok_replace[OF assms(2)] idle_facts thread_ok_start by simp
next
  case (wait_on t)
  then show ?thesis
    using sys_ok_replace[OF assms(2), of "wait_run (sems s) (threads s t)" t] thread_ok_run[OF sys_okD[OF assms(2), of t]]
    by simp
next
  case (wait_expires t p w)
  have "thread_ok (sems s) (\<exists>u. owes_post (threads s u)) (Waiting p w)"
    using sys_okD[OF assms(2), of t] wait_expires(2) by simp
  then show ?thesis using wait_expires sys_ok_replace[OF assms(2), of "Finishing p" t] by simp
qed (use sys_ok_replace[OF assms(2)] idle_facts in simp_all)

lemma reachable_ok: "reachable F s \<Longrightarrow> sys_ok s"
proof (induction rule: reachable.induct)
  case (reach_init initial)
  then show ?case by (simp add: sys_ok_def)
next
  case (reach_step s s1)
  then show ?case using sys_step_ok by blast
qed

section \<open>A waiter on its own\<close>

definition thread_step :: "store \<Rightarrow> thread \<Rightarrow> thread \<Rightarrow> bool" where
  "thread_step \<sigma> P Q \<longleftrightarrow> \<not> idle P \<and> \<not> owes_post P \<and> Q = wait_run \<sigma> P"

text \<open>Within \<open>k\<close> steps.\<close>

definition within :: "store \<Rightarrow> nat \<Rightarrow> thread \<Rightarrow> thread \<Rightarrow> bool" where
  "within \<sigma> k P Q \<longleftrightarrow> (\<exists>n \<le> k. (thread_step \<sigma> ^^ n) P Q)"

lemma within_refl: "within \<sigma> k P P"
  by (auto simp: within_def intro: exI[of _ 0])

lemma within_step: "thread_step \<sigma> P Q \<Longrightarrow> within \<sigma> k Q R \<Longrightarrow> within \<sigma> (Suc k) P R"
  unfolding within_def by (metis Suc_le_mono relpowp_Suc_I2)

lemma within_trans: "within \<sigma> k P Q \<Longrightarrow> within \<sigma> k1 Q R \<Longrightarrow> within \<sigma> (k + k1) P R"
  unfolding within_def by (metis add_le_mono relpowp_trans)

lemma within_le: "within \<sigma> k P Q \<Longrightarrow> k \<le> k1 \<Longrightarrow> within \<sigma> k1 P Q"
  unfolding within_def using le_trans by blast

lemma run_reading:
  "within \<sigma> (Suc (length l)) (Reading p l flags)
    (WaitDone p (result_of_flags (plan_mode p) (fold (\<lambda>(i, v). result_step (\<sigma> i) v) l flags)))"
proof (induction l arbitrary: flags)
  case Nil
  show ?case by (rule within_step[OF _ within_refl]) (simp add: thread_step_def)
next
  case (Cons x l)
  obtain i v where x: "x = (i, v)" by (cases x)
  show ?case using within_step[OF _ Cons.IH[of "result_step (\<sigma> i) v flags"], of "Reading p (x # l) flags"]
    by (simp add: thread_step_def x)
qed

lemma run_finishing:
  assumes "awaits p" "plan_condition p \<sigma>"
  shows "\<exists>r. (r = None \<or> r = Some ABORTED) \<and> within \<sigma> (length (plan_list p) + 2) (Finishing p) (WaitDone p r)"
proof (cases p)
  case (AwaitOne i v t)
  have "within \<sigma> (length (plan_list p) + 2) (Finishing p) (WaitDone p (wait_result (\<sigma> i) v))"
    by (rule within_le[OF within_step[OF _ within_refl[of _ 0]]]) (simp_all add: thread_step_def AwaitOne)
  moreover have "wait_result (\<sigma> i) v = None \<or> wait_result (\<sigma> i) v = Some ABORTED"
    using assms(2) AwaitOne wait_result_condition[of "\<sigma> i" v] by auto
  ultimately show ?thesis by blast
next
  case (AwaitMany mode l t)
  have "thread_step \<sigma> (Finishing p) (Reading p l (False, True, False))" by (simp add: thread_step_def AwaitMany)
  from within_step[OF this run_reading] have
    "within \<sigma> (length (plan_list p) + 2) (Finishing p) (WaitDone p (result_from_state mode \<sigma> l))"
    by (simp add: AwaitMany result_from_state_def)
  moreover have "result_from_state mode \<sigma> l = None \<or> result_from_state mode \<sigma> l = Some ABORTED"
    using assms(2) AwaitMany by (cases mode) (auto simp: result_from_state_cases)
  ultimately show ?thesis by blast
qed (use assms(1) in auto)

lemma run_evaluate_all:
  "plan_mode p = ModeAll \<Longrightarrow> all_signaled \<sigma> l \<Longrightarrow> within \<sigma> (Suc (length l)) (Evaluate p l w) (Finishing p)"
proof (induction l)
  case Nil
  then show ?case by (intro within_step[OF _ within_refl]) (simp add: thread_step_def)
next
  case (Cons x l)
  obtain i v where x: "x = (i, v)" by (cases x)
  have "thread_step \<sigma> (Evaluate p (x # l) w) (Evaluate p l w)" using Cons.prems x by (simp add: thread_step_def split: if_splits)
  then show ?case using within_step Cons x by (fastforce split: if_splits)
qed

lemma run_evaluate_any:
  "plan_mode p = ModeAny \<Longrightarrow> any_signaled \<sigma> l \<Longrightarrow> within \<sigma> (length l) (Evaluate p l w) (Finishing p)"
proof (induction l)
  case (Cons x l)
  obtain i v where x: "x = (i, v)" by (cases x)
  show ?case
  proof (cases "is_signaled (\<sigma> i) v")
    case True
    then show ?thesis using Cons.prems(1) x
      by (intro within_le[OF within_step[OF _ within_refl[of _ 0]]]) (simp_all add: thread_step_def)
  next
    case False
    then have "thread_step \<sigma> (Evaluate p (x # l) w) (Evaluate p l w)" "any_signaled \<sigma> l"
      using Cons.prems x by (simp_all add: thread_step_def)
    then show ?thesis using within_step Cons.IH[OF Cons.prems(1)] by fastforce
  qed
qed simp

lemma run_evaluate_none:
  "plan_mode p = ModeAny \<Longrightarrow> \<not> any_signaled \<sigma> l \<Longrightarrow> within \<sigma> (Suc (length l)) (Evaluate p l w) (Waiting p w)"
proof (induction l)
  case Nil
  then show ?case by (intro within_step[OF _ within_refl]) (simp add: thread_step_def)
next
  case (Cons x l)
  obtain i v where x: "x = (i, v)" by (cases x)
  have "thread_step \<sigma> (Evaluate p (x # l) w) (Evaluate p l w)" "\<not> any_signaled \<sigma> l"
    using Cons.prems x by (auto simp: thread_step_def split: if_splits)
  then show ?case using within_step Cons.IH[OF Cons.prems(1)] by fastforce
qed

lemma run_waiting:
  assumes "awaits p" "plan_condition p \<sigma>"
  shows "within \<sigma> (length (plan_list p) + 2) (Waiting p True) (Finishing p)"
proof -
  have s: "thread_step \<sigma> (Waiting p True) (Evaluate p (plan_list p) False)" by (simp add: thread_step_def)
  have "within \<sigma> (Suc (length (plan_list p))) (Evaluate p (plan_list p) False) (Finishing p)"
    using assms run_evaluate_all run_evaluate_any[THEN within_le]
    by (cases "plan_mode p") (simp_all add: plan_condition_list)
  from within_step[OF s this] show ?thesis by simp
qed

text \<open>A thread that waits for a plan.\<close>

definition waits_for :: "wait_plan \<Rightarrow> thread \<Rightarrow> bool" where
  "waits_for p P \<longleftrightarrow> (\<exists>w. P = Waiting p w) \<or> (\<exists>l w. P = Evaluate p l w) \<or> P = Finishing p"

lemma run_waiter:
  assumes "thread_ok \<sigma> False P" "waits_for p P" "plan_condition p \<sigma>"
  shows "within \<sigma> (2 * length (plan_list p) + 3) P (Finishing p)"
proof -
  have a: "awaits p" using assms(1,2) by (auto simp: waits_for_def)
  consider w where "P = Waiting p w" | l w where "P = Evaluate p l w" | "P = Finishing p"
    using assms(2) by (auto simp: waits_for_def)
  then show ?thesis
  proof cases
    case 1
    then have "P = Waiting p True" using assms(1,3) by (cases w) auto
    then show ?thesis using within_le[OF run_waiting[OF a assms(3)]] by simp
  next
    case 2
    then obtain seen where s: "plan_list p = seen @ l"
      and m: "case plan_mode p of ModeAll \<Rightarrow> all_signaled \<sigma> seen | ModeAny \<Rightarrow> w \<or> unsignaled \<sigma> seen"
      using assms(1) by (cases "plan_mode p") auto
    show ?thesis
    proof (cases "plan_mode p = ModeAll \<or> any_signaled \<sigma> l")
      case True
      then have "within \<sigma> (Suc (length l)) (Evaluate p l w) (Finishing p)"
        using run_evaluate_all[of p \<sigma> l w] run_evaluate_any[of p \<sigma> l w, THEN within_le] awaits_list(1)[OF a assms(3)]
        by (cases "plan_mode p") (auto simp: s all_signaled_append)
      then show ?thesis using 2 by (auto intro: within_le simp: s)
    next
      case False
      then have "plan_mode p = ModeAny" by (cases "plan_mode p") auto
      then have w: "w = True" using m False awaits_list(2)[OF a assms(3)] by (auto simp: s any_signaled_append unsignaled_def)
      have "within \<sigma> (Suc (length l)) (Evaluate p l w) (Waiting p True)"
        using run_evaluate_none[of p \<sigma> l w] False \<open>plan_mode p = ModeAny\<close> w by simp
      from within_trans[OF this run_waiting[OF a assms(3)]] show ?thesis
        using 2 by (auto intro: within_le simp: s)
    qed
  next
    case 3
    then show ?thesis by (simp add: within_refl)
  qed
qed

lemma thread_steps_sys:
  "(thread_step (sems s) ^^ n) (threads s t) Q \<Longrightarrow> (sys_step F ^^ n) s (s\<lparr>threads := (threads s)(t := Q)\<rparr>)"
proof (induction n arbitrary: Q)
  case (Suc n)
  then obtain P where P: "(thread_step (sems s) ^^ n) (threads s t) P" "thread_step (sems s) P Q" by auto
  let ?s = "s\<lparr>threads := (threads s)(t := P)\<rparr>"
  have "sys_step F ?s (?s\<lparr>threads := (threads ?s)(t := wait_run (sems ?s) (threads ?s t))\<rparr>)"
    using P(2) by (intro sys_step.wait_on) (simp_all add: thread_step_def)
  moreover have "?s\<lparr>threads := (threads ?s)(t := wait_run (sems ?s) (threads ?s t))\<rparr> = s\<lparr>threads := (threads s)(t := Q)\<rparr>"
    using P(2) by (simp add: thread_step_def)
  ultimately have "sys_step F ?s (s\<lparr>threads := (threads s)(t := Q)\<rparr>)" by (simp only:)
  then show ?case by (rule relpowp_Suc_I[OF Suc.IH[OF P(1)]])
qed simp

lemma steps_ok: "(sys_step F)\<^sup>*\<^sup>* s s1 \<Longrightarrow> sys_ok s \<Longrightarrow> sys_ok s1 \<and> store_le (sems s) (sems s1)"
proof (induction rule: rtranclp_induct)
  case (step s1 s2)
  then show ?case using sys_step_ok[of F s1 s2] store_le_trans by blast
qed simp

lemma reachable_steps: "(sys_step F ^^ n) s s1 \<Longrightarrow> reachable F s \<Longrightarrow> reachable F s1"
proof (induction n arbitrary: s1)
  case (Suc n)
  then show ?case by (auto intro: reachable.reach_step)
qed simp

lemma waiter_returns:
  assumes "reachable F s" "waits_for p (threads s t)" "plan_condition p (sems s)" "\<not> (\<exists>u. owes_post (threads s u))"
  shows "\<exists>n \<le> 3 * length (plan_list p) + 5. \<exists>r. (r = None \<or> r = Some ABORTED) \<and>
    (sys_step F ^^ n) s (s\<lparr>threads := (threads s)(t := WaitDone p r)\<rparr>)"
proof -
  have ok: "thread_ok (sems s) False (threads s t)" using sys_okD[OF reachable_ok[OF assms(1)], of t] assms(4) by simp
  then have a: "awaits p" using assms(2) by (auto simp: waits_for_def)
  obtain r where r: "r = None \<or> r = Some ABORTED"
    and f: "within (sems s) (length (plan_list p) + 2) (Finishing p) (WaitDone p r)"
    using run_finishing[OF a assms(3)] by blast
  obtain n where n: "n \<le> 2 * length (plan_list p) + 3 + (length (plan_list p) + 2)"
    "(thread_step (sems s) ^^ n) (threads s t) (WaitDone p r)"
    using within_trans[OF run_waiter[OF ok assms(2,3)] f] unfolding within_def by blast
  then have "n \<le> 3 * length (plan_list p) + 5" by simp
  then show ?thesis using r thread_steps_sys[OF n(2), of F] by blast
qed

section \<open>Properties\<close>

text \<open>
  C30. Whatever the threads do, the first failure of a semaphore stays, the value
  of one that has not failed never falls, and a payload once reached or failed
  stays so for every later reader.
\<close>

theorem semaphore_history:
  assumes "reachable F s" "(sys_step F)\<^sup>*\<^sup>* s s1"
  shows "(failure_status (sems s i) = Some e \<longrightarrow> failure_status (sems s1 i) = Some e) \<and>
    (failure_status (sems s1 i) = None \<longrightarrow> current_value (sems s i) \<le> current_value (sems s1 i)) \<and>
    (is_signaled (sems s i) v \<longrightarrow> is_signaled (sems s1 i) v)"
proof -
  have "sem_le (sems s i) (sems s1 i)"
    using steps_ok[OF assms(2) reachable_ok[OF assms(1)]] by (simp add: store_le_def)
  then show ?thesis using sem_le_signaled by (auto simp: sem_le_def)
qed

text \<open>
  A wait without a deadline never reports one: it returns ok, and then its
  condition holds from then on, or aborted, and then one of its semaphores failed.
\<close>

theorem wait_infinite_result:
  assumes "reachable F s" "threads s t = WaitDone p r" "plan_timeout p = Infinite"
  shows "r = None \<and> plan_condition p (sems s) \<or> r = Some ABORTED \<and> some_failed (sems s) (plan_list p)"
  using sys_okD[OF reachable_ok[OF assms(1)], of t] assms(2,3) by simp

text \<open>
  C31. No wake-up is lost: in every reachable state in which no thread still has to
  post, a waiter whose condition holds returns, ok or aborted, within a bounded
  number of steps of its own.
\<close>

theorem wait_progress:
  assumes "reachable F s" "waits_for p (threads s t)" "plan_condition p (sems s)" "\<not> (\<exists>u. owes_post (threads s u))"
  shows "\<exists>n \<le> 3 * length (plan_list p) + 5. \<exists>r. (r = None \<or> r = Some ABORTED) \<and>
    (sys_step F ^^ n) s (s\<lparr>threads := (threads s)(t := WaitDone p r)\<rparr>)"
  using assms by (rule waiter_returns)

text \<open>
  Two ways the wait on several semaphores differs from what its comments say: it
  waits without the deadline it is given, and a failed semaphore does not end a wait
  for all while another has not been signaled.
\<close>

lemma multi_wait_drops_deadline:
  "multi_wait \<sigma> mode ((i, v) # (j, u) # l) Deadline = AwaitMany mode ((i, v) # (j, u) # l) Infinite"
  by (simp add: multi_wait_def)

lemma failed_wait_all_blocks:
  assumes "failure_status (\<sigma> i) \<noteq> None" "\<not> is_signaled (\<sigma> j) u"
  shows "wait_run \<sigma> (wait_run \<sigma> (wait_run \<sigma> (Waiting (AwaitMany ModeAll [(i, v), (j, u)] Infinite) True))) =
    Waiting (AwaitMany ModeAll [(i, v), (j, u)] Infinite) False"
  using assms by (simp add: is_signaled_def)

text \<open>A waiter that sleeps, is signaled and woken.\<close>

definition sys0 :: sys where
  "sys0 = \<lparr>sems = \<lambda>i. semaphore_create 0, threads = \<lambda>_. Halted\<rparr>"

definition wait1 :: wait_plan where
  "wait1 = AwaitOne 0 1 Infinite"

definition sys_woken :: sys where
  "sys_woken = \<lparr>sems = (\<lambda>i. semaphore_create 0)(0 := semaphore_create 1),
     threads = (\<lambda>_. Halted)(0 := SignalDone None, 1 := Waiting wait1 True)\<rparr>"

lemma sys_woken_reachable: "reachable F sys_woken" "(sys_step F)\<^sup>*\<^sup>* sys0 sys_woken" "reachable F sys0"
proof -
  define a where "a = \<lparr>sems = \<lambda>i. semaphore_create 0, threads = (\<lambda>_. Halted)(1 := Waiting wait1 True)\<rparr>"
  define b where "b = \<lparr>sems = \<lambda>i. semaphore_create 0, threads = (\<lambda>_. Halted)(1 := Evaluate wait1 [(0, 1)] False)\<rparr>"
  define c where "c = \<lparr>sems = \<lambda>i. semaphore_create 0, threads = (\<lambda>_. Halted)(1 := Waiting wait1 False)\<rparr>"
  define d where "d = \<lparr>sems = (\<lambda>i. semaphore_create 0)(0 := semaphore_create 1),
    threads = (\<lambda>_. Halted)(1 := Waiting wait1 False, 0 := Posting None)\<rparr>"
  have r0: "reachable F sys0" unfolding sys0_def by (rule reach_init)
  have s1: "sys_step F sys0 a"
    using sys_step.wait[of sys0 1 F ModeAll "[(0, 1)]" Infinite]
    by (simp add: sys0_def a_def multi_wait_def wait_one_def wait_enter_def semaphore_create_def wait1_def)
  have s2: "sys_step F a b"
    using sys_step.wait_on[of a 1 F] by (simp add: a_def b_def wait1_def)
  have s3: "sys_step F b c"
    using sys_step.wait_on[of b 1 F] by (simp add: b_def c_def wait1_def is_signaled_def semaphore_create_def)
  have s4: "sys_step F c d"
    using sys_step.signal[of c 0 0 1 "semaphore_create 1" F]
    by (simp add: c_def d_def signal_unsafe_def semaphore_create_def)
  have "(\<lambda>u. wake (threads d u))(0 := SignalDone None) = threads sys_woken"
    by (auto simp: d_def sys_woken_def)
  then have s5: "sys_step F d sys_woken"
    using sys_step.post[of d 0 None F] by (simp add: d_def sys_woken_def)
  show "reachable F sys0" by (rule r0)
  show st: "(sys_step F)\<^sup>*\<^sup>* sys0 sys_woken" using s1 s2 s3 s4 s5 by (meson converse_rtranclp_into_rtranclp rtranclp.rtrancl_refl)
  show "reachable F sys_woken" using reach_step[OF reach_step[OF reach_step[OF reach_step[OF reach_step[OF r0 s1] s2] s3] s4] s5] .
qed

lemma sys_woken_facts: "waits_for wait1 (threads sys_woken 1)" "plan_condition wait1 (sems sys_woken)"
  "\<not> (\<exists>u. owes_post (threads sys_woken u))"
  by (auto simp: sys_woken_def waits_for_def wait1_def is_signaled_def semaphore_create_def)

lemma semaphore_history_witness: "is_signaled (sems sys0 0) 0 \<and> is_signaled (sems sys_woken 0) 0"
  using semaphore_history[OF sys_woken_reachable(3,2), where i = 0 and v = 0 and e = ABORTED] by (simp add: sys0_def is_signaled_def)

lemma wait_infinite_result_witness:
  "\<exists>s r. reachable 9 s \<and> threads s 1 = WaitDone wait1 r \<and>
     (r = None \<and> plan_condition wait1 (sems s) \<or> r = Some ABORTED \<and> some_failed (sems s) (plan_list wait1))"
proof -
  obtain n r where n: "(sys_step 9 ^^ n) sys_woken (sys_woken\<lparr>threads := (threads sys_woken)(1 := WaitDone wait1 r)\<rparr>)"
    using waiter_returns[OF sys_woken_reachable(1) sys_woken_facts, of 9] by blast
  define s where "s = sys_woken\<lparr>threads := (threads sys_woken)(1 := WaitDone wait1 r)\<rparr>"
  have s: "reachable 9 s" "threads s 1 = WaitDone wait1 r"
    using reachable_steps[OF n sys_woken_reachable(1)] by (simp_all add: s_def)
  then show ?thesis using wait_infinite_result[OF s] by (auto simp: wait1_def)
qed

lemma wait_progress_witness:
  "\<exists>n \<le> 8. \<exists>r. (r = None \<or> r = Some ABORTED) \<and>
     (sys_step 9 ^^ n) sys_woken (sys_woken\<lparr>threads := (threads sys_woken)(1 := WaitDone wait1 r)\<rparr>)"
  using wait_progress[OF sys_woken_reachable(1) sys_woken_facts, of 9] by (simp add: wait1_def)

end
