(* ===== verification/SimMemory.thy ===== *)
theory SimMemory
  imports HalStatus
begin

unbundle bit_operations_syntax

text \<open>
  The memory of the simulated core (\<open>runtime/sim/simulator_mpact.cpp\<close>,
  \<open>simulator_api.h\<close>) and little-endian data. The simulator is a parameter with
  an observation, the byte at an address; \<open>core_ok\<close> states that its write and
  read functions write and read those bytes.
\<close>

section \<open>Little-endian words\<close>

fun le_word :: "8 word list \<Rightarrow> 'a::len word" where
  "le_word [] = 0"
| "le_word (b # bs) = ucast b OR push_bit 8 (le_word bs)"

definition le_bytes :: "nat \<Rightarrow> 'a::len word \<Rightarrow> 8 word list" where
  "le_bytes n w = map (\<lambda>i. ucast (drop_bit (8 * i) w)) [0..<n]"

lemma bit_le_word:
  "bit (le_word bs :: 'a::len word) n \<longleftrightarrow> n < LENGTH('a) \<and> n div 8 < length bs \<and> bit (bs ! (n div 8)) (n mod 8)"
proof (induction bs arbitrary: n)
  case (Cons b bs)
  show ?case
  proof (cases "n < 8")
    case True
    then show ?thesis by (simp add: bit_or_iff bit_push_bit_iff bit_ucast_iff)
  next
    case False
    then have d: "n div 8 = Suc ((n - 8) div 8)" "n mod 8 = (n - 8) mod 8" by (simp_all add: le_div_geq le_mod_geq)
    have "\<not> bit b n" using False bit_imp_le_length[of b n] by auto
    then show ?thesis using False Cons.IH[of "n - 8"]
      by (auto simp: bit_or_iff bit_push_bit_iff bit_ucast_iff d)
  qed
qed simp

lemma length_le_bytes [simp]: "length (le_bytes n w) = n"
  by (simp add: le_bytes_def)

lemma le_word_bytes:
  fixes w :: "'a::len word"
  assumes "LENGTH('a) \<le> 8 * n"
  shows "le_word (le_bytes n w) = w"
proof (rule bit_word_eqI)
  fix i assume i: "i < LENGTH('a)"
  then have "i div 8 < n" using assms by (simp add: less_mult_imp_div_less mult.commute)
  then show "bit (le_word (le_bytes n w) :: 'a word) i = bit w i"
    using i by (simp add: bit_le_word le_bytes_def bit_ucast_iff bit_drop_bit_eq)
qed

section \<open>Byte memory\<close>

type_synonym memory = "32 word \<Rightarrow> 8 word"

definition write_mem :: "32 word \<Rightarrow> 8 word list \<Rightarrow> memory \<Rightarrow> memory" where
  "write_mem a bs m = (\<lambda>x. if unat (x - a) < length bs then bs ! unat (x - a) else m x)"

definition read_mem :: "32 word \<Rightarrow> nat \<Rightarrow> memory \<Rightarrow> 8 word list" where
  "read_mem a n m = map (\<lambda>i. m (a + of_nat i)) [0..<n]"

lemma length_read_mem [simp]: "length (read_mem a n m) = n"
  by (simp add: read_mem_def)

lemma write_mem_Nil [simp]: "write_mem a [] m = m"
  by (simp add: write_mem_def)

text \<open>An address is in the range of \<open>n\<close> bytes from \<open>a\<close>.\<close>

definition in_range :: "32 word \<Rightarrow> nat \<Rightarrow> 32 word \<Rightarrow> bool" where
  "in_range a n x \<longleftrightarrow> unat a \<le> unat x \<and> unat x < unat a + n"

lemma unat_sub_range:
  assumes "unat a + n \<le> 2 ^ 32"
  shows "unat (x - a) < n \<longleftrightarrow> in_range a n x"
proof (cases "a \<le> x")
  case True
  then show ?thesis by (auto simp: in_range_def unat_sub word_le_nat_alt)
next
  case False
  then have lt: "unat x < unat a" by (simp add: word_le_nat_alt)
  have "unat (x - a) = unat x + 2 ^ 32 - unat a"
    using lt by (simp add: unat_sub_if')
  then show ?thesis using assms lt by (auto simp: in_range_def)
qed

lemma write_mem_at:
  assumes "unat a + length bs \<le> 2 ^ 32"
  shows "write_mem a bs m x = (if in_range a (length bs) x then bs ! (unat x - unat a) else m x)"
proof -
  have "in_range a (length bs) x \<Longrightarrow> unat (x - a) = unat x - unat a"
    by (simp add: in_range_def unat_sub word_le_nat_alt)
  then show ?thesis using unat_sub_range[OF assms] by (simp add: write_mem_def)
qed

lemma unat_add_small: "unat a + i < 2 ^ 32 \<Longrightarrow> unat (a + of_nat i :: 32 word) = unat a + i"
  by (simp add: unat_word_ariths unat_of_nat)

lemma read_write_same:
  assumes "unat a + length bs \<le> 2 ^ 32"
  shows "read_mem a (length bs) (write_mem a bs m) = bs"
  using assms by (auto intro!: nth_equalityI simp: read_mem_def write_mem_at in_range_def unat_add_small)

lemma read_write_other:
  assumes "unat a + length bs \<le> 2 ^ 32" "unat b + n \<le> 2 ^ 32" "unat a + length bs \<le> unat b \<or> unat b + n \<le> unat a"
  shows "read_mem b n (write_mem a bs m) = read_mem b n m"
  using assms by (auto intro!: nth_equalityI simp: read_mem_def write_mem_at in_range_def unat_add_small)

lemma write_mem_append:
  assumes "unat a + length xs + length ys \<le> 2 ^ 32"
  shows "write_mem (a + of_nat (length xs)) ys (write_mem a xs m) = write_mem a (xs @ ys) m"
proof
  fix x
  show "write_mem (a + of_nat (length xs)) ys (write_mem a xs m) x = write_mem a (xs @ ys) m x"
  proof (cases "ys = []")
    case False
    then have u: "unat (a + of_nat (length xs)) = unat a + length xs"
      using assms by (intro unat_add_small) (cases ys; simp)
    show ?thesis using assms by (auto simp: write_mem_at u in_range_def nth_append)
  qed simp
qed

section \<open>The simulator\<close>

text \<open>\<open>core_run\<close> is \<open>Run\<close> followed by \<open>WaitForTermination\<close>: \<open>None\<close> when the core never halts.\<close>

record 'm core_api =
  core_byte :: "'m \<Rightarrow> memory"
  core_write :: "32 word \<Rightarrow> 8 word list \<Rightarrow> 'm \<Rightarrow> 'm"
  core_read :: "32 word \<Rightarrow> nat \<Rightarrow> 'm \<Rightarrow> 8 word list"
  core_run :: "32 word \<Rightarrow> 'm \<Rightarrow> 'm option"

definition core_ok :: "'m core_api \<Rightarrow> bool" where
  "core_ok S \<longleftrightarrow>
     (\<forall>a bs m. core_byte S (core_write S a bs m) = write_mem a bs (core_byte S m)) \<and>
     (\<forall>a n m. core_read S a n m = read_mem a n (core_byte S m))"

definition core_ref :: "(32 word \<Rightarrow> memory \<Rightarrow> memory option) \<Rightarrow> memory core_api" where
  "core_ref run = \<lparr>core_byte = (\<lambda>m. m), core_write = write_mem, core_read = read_mem, core_run = run\<rparr>"

lemma core_ref_ok [simp]: "core_ok (core_ref run)"
  by (simp add: core_ok_def core_ref_def)

lemma core_laws [api_laws]:
  assumes "core_ok S"
  shows "core_byte S (core_write S a bs m) = write_mem a bs (core_byte S m)"
    "core_read S a n m = read_mem a n (core_byte S m)"
  using assms by (simp_all add: core_ok_def)

text \<open>\<open>simulator_api.h\<close>: the memories of the core.\<close>

definition coralnpu_itcm_start :: "32 word" where "coralnpu_itcm_start = 0x00000000"
definition coralnpu_itcm_size :: "32 word" where "coralnpu_itcm_size = 0x00008000"
definition coralnpu_dtcm_start :: "32 word" where "coralnpu_dtcm_start = 0x00010000"
definition coralnpu_dtcm_size :: "32 word" where "coralnpu_dtcm_size = 0x00008000"
definition coralnpu_ddr_start :: "32 word" where "coralnpu_ddr_start = 0x80000000"
definition coralnpu_ddr_size :: "32 word" where "coralnpu_ddr_size = 0x80000000"

lemmas memory_map = coralnpu_itcm_start_def coralnpu_itcm_size_def coralnpu_dtcm_start_def
  coralnpu_dtcm_size_def coralnpu_ddr_start_def coralnpu_ddr_size_def

definition simulator_write_mem :: "'m core_api \<Rightarrow> 32 word \<Rightarrow> 8 word list \<Rightarrow> 'm \<Rightarrow> 'm" where
  "simulator_write_mem S addr data m = core_write S addr data m"

definition simulator_read_mem :: "'m core_api \<Rightarrow> 32 word \<Rightarrow> nat \<Rightarrow> 'm \<Rightarrow> 8 word list" where
  "simulator_read_mem S addr n m = core_read S addr n m"

end
