(* ===== verification/ElfLoader.thy ===== *)
theory ElfLoader
  imports SimMemory
begin

text \<open>
  The ELF loader of the simulator (\<open>runtime/sim/simulator_elf_loader.c\<close>). The
  image is a list of bytes; a read outside it is a trap. Sums the code computes
  in \<open>uint64_t\<close> from 32-bit fields are exact and written over \<open>nat\<close>;
  \<open>range_fits\<close>, whose length is a \<open>size_t\<close>, keeps its 64-bit words. Fields are
  read as on a little-endian host, which the check of \<open>EI_DATA\<close> presumes. The
  lemmas show that no byte is read outside the image and none written outside
  the memories of the core, and what the memory holds after a successful load.
\<close>

section \<open>Reading the image\<close>

type_synonym image = "8 word list"

definition get :: "image \<Rightarrow> nat \<Rightarrow> nat \<Rightarrow> 'a::len word" where
  "get img n off = le_word (take n (drop off img))"

definition u8_at :: "image \<Rightarrow> nat \<Rightarrow> 8 word status" where
  "u8_at img off = (if off < length img then OkS (img ! off) else TrapS)"

definition u16_at :: "image \<Rightarrow> nat \<Rightarrow> 16 word status" where
  "u16_at img off = (if off + 2 \<le> length img then OkS (get img 2 off) else TrapS)"

definition u32_at :: "image \<Rightarrow> nat \<Rightarrow> 32 word status" where
  "u32_at img off = (if off + 4 \<le> length img then OkS (get img 4 off) else TrapS)"

text \<open>The sizes and constants of \<open>elf.h\<close>.\<close>

definition sizeof_Ehdr :: nat where "sizeof_Ehdr = 52"
definition sizeof_Phdr :: nat where "sizeof_Phdr = 32"
definition sizeof_Shdr :: nat where "sizeof_Shdr = 40"
definition sizeof_Sym :: nat where "sizeof_Sym = 16"

lemmas elf_sizes = sizeof_Ehdr_def sizeof_Phdr_def sizeof_Shdr_def sizeof_Sym_def

definition is_elf32 :: "image \<Rightarrow> bool status" where
  "is_elf32 img =
    (if length img < sizeof_Ehdr then OkS False
     else sbind (u8_at img 0) (\<lambda>m0. sbind (u8_at img 1) (\<lambda>m1. sbind (u8_at img 2) (\<lambda>m2.
          sbind (u8_at img 3) (\<lambda>m3. sbind (u8_at img 4) (\<lambda>cls. sbind (u8_at img 5) (\<lambda>dat.
            OkS (m0 = 0x7F \<and> m1 = 0x45 \<and> m2 = 0x4C \<and> m3 = 0x46 \<and> cls = 1 \<and> dat = 1))))))))"

record ehdr =
  e_machine :: "16 word"
  e_entry :: "32 word"
  e_phoff :: "32 word"
  e_shoff :: "32 word"
  e_phentsize :: "16 word"
  e_phnum :: "16 word"
  e_shentsize :: "16 word"
  e_shnum :: "16 word"

definition read_ehdr :: "image \<Rightarrow> ehdr status" where
  "read_ehdr img =
    sbind (u16_at img 18) (\<lambda>mach. sbind (u32_at img 24) (\<lambda>entry. sbind (u32_at img 28) (\<lambda>ph.
    sbind (u32_at img 32) (\<lambda>sh. sbind (u16_at img 42) (\<lambda>phes. sbind (u16_at img 44) (\<lambda>phn.
    sbind (u16_at img 46) (\<lambda>shes. sbind (u16_at img 48) (\<lambda>shn.
      OkS \<lparr>e_machine = mach, e_entry = entry, e_phoff = ph, e_shoff = sh, e_phentsize = phes, e_phnum = phn,
           e_shentsize = shes, e_shnum = shn\<rparr>))))))))"

record phdr =
  p_type :: "32 word"
  p_offset :: "32 word"
  p_paddr :: "32 word"
  p_filesz :: "32 word"
  p_memsz :: "32 word"
  p_flags :: "32 word"

definition read_phdr :: "image \<Rightarrow> nat \<Rightarrow> phdr status" where
  "read_phdr img off =
    sbind (u32_at img off) (\<lambda>t. sbind (u32_at img (off + 4)) (\<lambda>o1. sbind (u32_at img (off + 12)) (\<lambda>pa.
    sbind (u32_at img (off + 16)) (\<lambda>fs. sbind (u32_at img (off + 20)) (\<lambda>ms. sbind (u32_at img (off + 24)) (\<lambda>fl.
      OkS \<lparr>p_type = t, p_offset = o1, p_paddr = pa, p_filesz = fs, p_memsz = ms, p_flags = fl\<rparr>))))))"

record shdr =
  sh_type :: "32 word"
  sh_offset :: "32 word"
  sh_size :: "32 word"
  sh_link :: "32 word"
  sh_entsize :: "32 word"

definition read_shdr :: "image \<Rightarrow> nat \<Rightarrow> shdr status" where
  "read_shdr img off =
    sbind (u32_at img (off + 4)) (\<lambda>t. sbind (u32_at img (off + 16)) (\<lambda>o1. sbind (u32_at img (off + 20)) (\<lambda>sz.
    sbind (u32_at img (off + 24)) (\<lambda>ln. sbind (u32_at img (off + 36)) (\<lambda>es.
      OkS \<lparr>sh_type = t, sh_offset = o1, sh_size = sz, sh_link = ln, sh_entsize = es\<rparr>)))))"

section \<open>Segments\<close>

definition range_fits :: "32 word \<Rightarrow> 32 word \<Rightarrow> 32 word \<Rightarrow> 64 word \<Rightarrow> bool" where
  "range_fits base sz address len =
    (let begin1 = ucast address :: 64 word;
         end1 = begin1 + len;
         region_begin = ucast base :: 64 word;
         region_end = region_begin + ucast sz
     in region_begin \<le> begin1 \<and> begin1 \<le> end1 \<and> end1 \<le> region_end)"

definition fits_memory :: "32 word \<Rightarrow> nat \<Rightarrow> bool" where
  "fits_memory address n \<longleftrightarrow>
     range_fits coralnpu_itcm_start coralnpu_itcm_size address (of_nat n) \<or>
     range_fits coralnpu_dtcm_start coralnpu_dtcm_size address (of_nat n) \<or>
     range_fits coralnpu_ddr_start coralnpu_ddr_size address (of_nat n)"

definition validate_segment :: "32 word \<Rightarrow> nat \<Rightarrow> unit status" where
  "validate_segment address n =
    (if n = 0 then OkS ()
     else if fits_memory address n then OkS ()
     else ErrS OUT_OF_RANGE)"

definition copy_segment :: "'m core_api \<Rightarrow> 32 word \<Rightarrow> 8 word list \<Rightarrow> 'm \<Rightarrow> unit status \<times> 'm" where
  "copy_segment S address source m =
    (if source = [] then (OkS (), m)
     else if range_fits coralnpu_itcm_start coralnpu_itcm_size address (of_nat (length source))
       then (OkS (), simulator_write_mem S address source m)
     else if range_fits coralnpu_dtcm_start coralnpu_dtcm_size address (of_nat (length source))
       then (OkS (), simulator_write_mem S address source m)
     else if range_fits coralnpu_ddr_start coralnpu_ddr_size address (of_nat (length source))
       then (OkS (), simulator_write_mem S address source m)
     else (ErrS OUT_OF_RANGE, m))"

text \<open>Lines 263-281: the rest of a segment is zeroed in chunks of 256 bytes.\<close>

function zero_fill :: "'m core_api \<Rightarrow> 32 word \<Rightarrow> nat \<Rightarrow> 'm \<Rightarrow> unit status \<times> 'm" where
  "zero_fill S zero_address remaining m =
    (if remaining = 0 then (OkS (), m)
     else let chunk = (if remaining < 256 then remaining else 256)
          in case copy_segment S zero_address (replicate chunk 0) m of
               (OkS _, m1) \<Rightarrow> zero_fill S (zero_address + of_nat chunk) (remaining - chunk) m1
             | (e, m1) \<Rightarrow> (e, m1))"
  by pat_completeness auto

termination
  by (relation "measure (\<lambda>(S, a, r, m). r)") auto

declare zero_fill.simps [simp del]

definition image_bytes :: "image \<Rightarrow> nat \<Rightarrow> nat \<Rightarrow> 8 word list status" where
  "image_bytes img off n = (if off + n \<le> length img then OkS (take n (drop off img)) else TrapS)"

text \<open>The body of the loop over the program headers; the result says whether the segment is an
  executable one that holds the entry point.\<close>

definition load_segment :: "'m core_api \<Rightarrow> image \<Rightarrow> 32 word \<Rightarrow> phdr \<Rightarrow> 'm \<Rightarrow> bool status \<times> 'm" where
  "load_segment S img entry ph m =
    (if p_type ph \<noteq> 1 then (OkS False, m)
     else if p_memsz ph < p_filesz ph then (ErrS INVALID_ARGUMENT, m)
     else if length img < unat (p_offset ph) + unat (p_filesz ph) then (ErrS INVALID_ARGUMENT, m)
     else case validate_segment (p_paddr ph) (unat (p_memsz ph)) of
       ErrS e \<Rightarrow> (ErrS e, m)
     | TrapS \<Rightarrow> (TrapS, m)
     | OkS _ \<Rightarrow>
       (let exec = (p_flags ph AND 1 \<noteq> 0 \<and> p_paddr ph \<le> entry \<and>
                    unat entry < unat (p_paddr ph) + unat (p_memsz ph))
        in case image_bytes img (unat (p_offset ph)) (unat (p_filesz ph)) of
             ErrS e \<Rightarrow> (ErrS e, m)
           | TrapS \<Rightarrow> (TrapS, m)
           | OkS source \<Rightarrow>
             (case copy_segment S (p_paddr ph) source m of
                (ErrS e, m1) \<Rightarrow> (ErrS e, m1)
              | (TrapS, m1) \<Rightarrow> (TrapS, m1)
              | (OkS _, m1) \<Rightarrow>
                (if p_filesz ph < p_memsz ph
                 then case zero_fill S (p_paddr ph + p_filesz ph) (unat (p_memsz ph - p_filesz ph)) m1 of
                   (r, m2) \<Rightarrow> (map_status (\<lambda>_. exec) r, m2)
                 else (OkS exec, m1)))))"

fun load_segments :: "'m core_api \<Rightarrow> image \<Rightarrow> ehdr \<Rightarrow> nat list \<Rightarrow> bool \<Rightarrow> 'm \<Rightarrow> bool status \<times> 'm" where
  "load_segments S img eh [] exec m = (OkS exec, m)"
| "load_segments S img eh (i # is1) exec m =
     (case read_phdr img (unat (e_phoff eh) + i * sizeof_Phdr) of
        ErrS e \<Rightarrow> (ErrS e, m)
      | TrapS \<Rightarrow> (TrapS, m)
      | OkS ph \<Rightarrow>
        (case load_segment S img (e_entry eh) ph m of
           (OkS here, m1) \<Rightarrow> load_segments S img eh is1 (exec \<or> here) m1
         | (ErrS e, m1) \<Rightarrow> (ErrS e, m1)
         | (TrapS, m1) \<Rightarrow> (TrapS, m1)))"

section \<open>Symbols\<close>

text \<open>\<open>memchr\<close> and \<open>strcmp\<close> on the string at an offset of the string table.\<close>

definition string_equals :: "image \<Rightarrow> nat \<Rightarrow> 32 word \<Rightarrow> 32 word \<Rightarrow> string \<Rightarrow> bool status" where
  "string_equals img table table_size string_offset expected =
    (if table_size \<le> string_offset then OkS False
     else case image_bytes img (table + unat string_offset) (unat table_size - unat string_offset) of
       OkS bytes \<Rightarrow> OkS (0 \<in> set bytes \<and> takeWhile (\<lambda>b. b \<noteq> 0) bytes = map of_char expected)
     | ErrS e \<Rightarrow> ErrS e
     | TrapS \<Rightarrow> TrapS)"

fun find_in_table ::
  "image \<Rightarrow> shdr \<Rightarrow> shdr \<Rightarrow> string \<Rightarrow> nat list \<Rightarrow> (32 word \<times> 32 word) option status" where
  "find_in_table img symtab strtab name [] = OkS None"
| "find_in_table img symtab strtab name (j # js) =
     (let off = unat (sh_offset symtab) + j * sizeof_Sym
      in sbind (u16_at img (off + 14)) (\<lambda>st_shndx.
         if st_shndx = 0 then find_in_table img symtab strtab name js
         else sbind (u32_at img off) (\<lambda>st_name.
              sbind (string_equals img (unat (sh_offset strtab)) (sh_size strtab) st_name name) (\<lambda>eq.
              if \<not> eq then find_in_table img symtab strtab name js
              else sbind (u32_at img (off + 4)) (\<lambda>st_value.
                   sbind (u32_at img (off + 8)) (\<lambda>st_size. OkS (Some (st_value, st_size))))))))"

fun find_in_sections :: "image \<Rightarrow> ehdr \<Rightarrow> string \<Rightarrow> nat list \<Rightarrow> (32 word \<times> 32 word) status" where
  "find_in_sections img eh name [] = ErrS NOT_FOUND"
| "find_in_sections img eh name (i # is1) =
     sbind (read_shdr img (unat (e_shoff eh) + i * sizeof_Shdr)) (\<lambda>symtab.
       if sh_type symtab \<noteq> 2 then find_in_sections img eh name is1
       else if sh_entsize symtab \<noteq> 16 \<or> unat (e_shnum eh) \<le> unat (sh_link symtab) then ErrS INVALID_ARGUMENT
       else sbind (read_shdr img (unat (e_shoff eh) + unat (sh_link symtab) * sizeof_Shdr)) (\<lambda>strtab.
         if length img < unat (sh_offset symtab) + unat (sh_size symtab) \<or>
            length img < unat (sh_offset strtab) + unat (sh_size strtab) then ErrS INVALID_ARGUMENT
         else sbind (find_in_table img symtab strtab name [0..<unat (sh_size symtab) div sizeof_Sym]) (\<lambda>found.
           case found of Some r \<Rightarrow> OkS r | None \<Rightarrow> find_in_sections img eh name is1)))"

definition find_symbol :: "image \<Rightarrow> string \<Rightarrow> (32 word \<times> 32 word) status" where
  "find_symbol img name =
    sbind (read_ehdr img) (\<lambda>eh.
      if unat (e_shentsize eh) \<noteq> sizeof_Shdr then ErrS INVALID_ARGUMENT
      else if length img < unat (e_shoff eh) + unat (e_shnum eh) * sizeof_Shdr then ErrS INVALID_ARGUMENT
      else find_in_sections img eh name [0..<unat (e_shnum eh)])"

section \<open>The loader\<close>

record elf_layout =
  start_pc :: "32 word"
  dispatch_request_addr :: "32 word"
  dispatch_request_size :: "32 word"
  heap_start_addr :: "32 word"
  heap_end_addr :: "32 word"

text \<open>Lines 291-316, after the segments are loaded.\<close>

definition elf_layout_of :: "image \<Rightarrow> ehdr \<Rightarrow> elf_layout status" where
  "elf_layout_of img eh =
    sbind (find_symbol img ''coralnpu_dispatch_request'') (\<lambda>(ra, rs).
    sbind (find_symbol img ''__heap_start'') (\<lambda>(hs, _).
    sbind (find_symbol img ''__heap_end'') (\<lambda>(he, _).
      if \<not> range_fits coralnpu_dtcm_start coralnpu_dtcm_size ra (ucast rs) then ErrS OUT_OF_RANGE
      else if he < hs \<or> \<not> range_fits coralnpu_dtcm_start coralnpu_dtcm_size hs (ucast (he - hs))
        then ErrS OUT_OF_RANGE
      else OkS \<lparr>start_pc = e_entry eh, dispatch_request_addr = ra, dispatch_request_size = rs,
                heap_start_addr = hs, heap_end_addr = he\<rparr>)))"

definition load_elf_with_layout :: "'m core_api \<Rightarrow> image \<Rightarrow> 'm \<Rightarrow> elf_layout status \<times> 'm" where
  "load_elf_with_layout S img m =
    (case sbind (is_elf32 img) (\<lambda>ok. if \<not> ok then ErrS INVALID_ARGUMENT else read_ehdr img) of
       ErrS e \<Rightarrow> (ErrS e, m)
     | TrapS \<Rightarrow> (TrapS, m)
     | OkS eh \<Rightarrow>
       (if e_machine eh \<noteq> 243 then (ErrS INVALID_ARGUMENT, m)
        else if unat (e_phentsize eh) \<noteq> sizeof_Phdr then (ErrS INVALID_ARGUMENT, m)
        else if length img < unat (e_phoff eh) + unat (e_phnum eh) * sizeof_Phdr then (ErrS INVALID_ARGUMENT, m)
        else case load_segments S img eh [0..<unat (e_phnum eh)] False m of
          (ErrS e, m1) \<Rightarrow> (ErrS e, m1)
        | (TrapS, m1) \<Rightarrow> (TrapS, m1)
        | (OkS entry_is_executable, m1) \<Rightarrow>
          (if \<not> entry_is_executable then (ErrS INVALID_ARGUMENT, m1) else (elf_layout_of img eh, m1))))"

definition load_elf :: "'m core_api \<Rightarrow> image \<Rightarrow> 'm \<Rightarrow> 32 word status \<times> 'm" where
  "load_elf S img m = (case load_elf_with_layout S img m of (r, m1) \<Rightarrow> (map_status start_pc r, m1))"

section \<open>Lemmas on ranges\<close>

lemma unat_up: "unat (ucast (a :: 32 word) :: 64 word) = unat a"
proof -
  have "unat a < 2 ^ 64" using unsigned_less[of a, where 'a = nat] by simp
  then show ?thesis by (simp add: unsigned_ucast_eq take_bit_nat_eq_self)
qed

lemma range_fits_nat:
  assumes "n \<le> 2 ^ 32"
  shows "range_fits base sz a (of_nat n) \<longleftrightarrow>
    unat base \<le> unat a \<and> unat a + n \<le> unat base + unat sz"
proof -
  have b: "unat a < 2 ^ 32" "unat base < 2 ^ 32" "unat sz < 2 ^ 32" using unsigned_less[of a] unsigned_less[of base]
      unsigned_less[of sz] by simp_all
  have n: "unat (of_nat n :: 64 word) = n" using assms by (simp add: unat_of_nat)
  have e: "unat (ucast a + of_nat n :: 64 word) = unat a + n" "unat (ucast base + ucast sz :: 64 word) = unat base + unat sz"
    using b assms by (simp_all add: unat_word_ariths n unat_up)
  show ?thesis by (simp add: range_fits_def Let_def word_le_nat_alt e unat_up)
qed

text \<open>The bytes of the memories of the core.\<close>

definition core_address :: "32 word \<Rightarrow> bool" where
  "core_address x \<longleftrightarrow> unat x < 0x8000 \<or> (0x10000 \<le> unat x \<and> unat x < 0x18000) \<or> 0x80000000 \<le> unat x"

lemma fits_memory_nat:
  assumes "n \<le> 2 ^ 32"
  shows "fits_memory a n \<longleftrightarrow> unat a + n \<le> 0x8000 \<or> (0x10000 \<le> unat a \<and> unat a + n \<le> 0x18000) \<or>
    (0x80000000 \<le> unat a \<and> unat a + n \<le> 2 ^ 32)"
  by (simp add: fits_memory_def range_fits_nat[OF assms] memory_map)

lemma fits_memory_bound: "n \<le> 2 ^ 32 \<Longrightarrow> fits_memory a n \<Longrightarrow> unat a + n \<le> 2 ^ 32"
  by (auto simp: fits_memory_nat)

lemma fits_memory_address: "n \<le> 2 ^ 32 \<Longrightarrow> fits_memory a n \<Longrightarrow> in_range a n x \<Longrightarrow> core_address x"
  by (auto simp: fits_memory_nat in_range_def core_address_def)

lemma fits_memory_part:
  assumes "fits_memory a n" "n \<le> 2 ^ 32" "k + l \<le> n" "0 < l"
  shows "fits_memory (a + of_nat k) l"
proof -
  have "unat (a + of_nat k) = unat a + k"
    using fits_memory_bound[OF assms(2,1)] assms(3,4) by (intro unat_add_small) simp
  then show ?thesis using assms by (auto simp: fits_memory_nat)
qed

lemma copy_segment_fits:
  assumes "source \<noteq> [] \<Longrightarrow> fits_memory a (length source)"
  shows "copy_segment S a source m = (OkS (), if source = [] then m else core_write S a source m)"
  using assms by (auto simp: copy_segment_def fits_memory_def simulator_write_mem_def)

text \<open>Zeroing in chunks is zeroing at once.\<close>

lemma zero_fill_all:
  assumes "core_ok S"
  shows "remaining = 0 \<or> fits_memory a remaining \<Longrightarrow> remaining \<le> 2 ^ 32 \<Longrightarrow>
    fst (zero_fill S a remaining m) = OkS () \<and>
    core_byte S (snd (zero_fill S a remaining m)) = write_mem a (replicate remaining 0) (core_byte S m)"
proof (induction remaining arbitrary: a m rule: less_induct)
  case (less remaining)
  show ?case
  proof (cases "remaining = 0")
    case False
    define c where "c = (if remaining < 256 then remaining else (256::nat))"
    have c: "0 < c" "c \<le> remaining" using False by (auto simp: c_def)
    have fits: "fits_memory a remaining" using less.prems(1) False by simp
    note bound = fits_memory_bound[OF less.prems(2) fits]
    let ?m1 = "core_write S a (replicate c 0) m"
    have "fits_memory a c" using fits_memory_part[OF fits less.prems(2), of 0 c] c by simp
    then have copy: "copy_segment S a (replicate c 0) m = (OkS (), ?m1)"
      using copy_segment_fits[of "replicate c 0" a S m] c by simp
    have rest: "remaining - c = 0 \<or> fits_memory (a + of_nat c) (remaining - c)"
      using fits_memory_part[OF fits less.prems(2), of c "remaining - c"] c(2)
      by (cases "remaining - c = 0") linarith+
    have step: "zero_fill S a remaining m = zero_fill S (a + of_nat c) (remaining - c) ?m1"
      using False copy unfolding c_def by (subst zero_fill.simps) (simp only: Let_def if_False prod.case status.case)
    have ih: "fst (zero_fill S (a + of_nat c) (remaining - c) ?m1) = OkS () \<and>
        core_byte S (snd (zero_fill S (a + of_nat c) (remaining - c) ?m1)) =
        write_mem (a + of_nat c) (replicate (remaining - c) 0) (core_byte S ?m1)"
      by (rule less.IH) (use c rest less.prems(2) in auto)
    have "write_mem (a + of_nat c) (replicate (remaining - c) 0) (write_mem a (replicate c 0) (core_byte S m)) =
        write_mem a (replicate remaining 0) (core_byte S m)"
      using write_mem_append[of a "replicate c 0" "replicate (remaining - c) 0" "core_byte S m"] c bound
      by (simp add: replicate_add[symmetric])
    then show ?thesis using ih by (simp add: step core_laws[OF assms])
  qed (simp add: zero_fill.simps)
qed

section \<open>Lemmas on segments\<close>

definition phdr_at :: "image \<Rightarrow> nat \<Rightarrow> phdr" where
  "phdr_at img off = \<lparr>p_type = get img 4 off, p_offset = get img 4 (off + 4), p_paddr = get img 4 (off + 12),
     p_filesz = get img 4 (off + 16), p_memsz = get img 4 (off + 20), p_flags = get img 4 (off + 24)\<rparr>"

lemma read_phdr_at: "off + sizeof_Phdr \<le> length img \<Longrightarrow> read_phdr img off = OkS (phdr_at img off)"
  by (simp add: read_phdr_def phdr_at_def u32_at_def elf_sizes)

text \<open>What a segment puts in memory, and when it is accepted.\<close>

definition segment_bytes :: "image \<Rightarrow> phdr \<Rightarrow> 8 word list" where
  "segment_bytes img ph = take (unat (p_filesz ph)) (drop (unat (p_offset ph)) img) @
     replicate (unat (p_memsz ph) - unat (p_filesz ph)) 0"

definition segment_ok :: "image \<Rightarrow> phdr \<Rightarrow> bool" where
  "segment_ok img ph \<longleftrightarrow> p_filesz ph \<le> p_memsz ph \<and> unat (p_offset ph) + unat (p_filesz ph) \<le> length img \<and>
     (unat (p_memsz ph) = 0 \<or> fits_memory (p_paddr ph) (unat (p_memsz ph)))"

definition holds_entry :: "32 word \<Rightarrow> phdr \<Rightarrow> bool" where
  "holds_entry entry ph \<longleftrightarrow> p_flags ph AND 1 \<noteq> 0 \<and> p_paddr ph \<le> entry \<and>
     unat entry < unat (p_paddr ph) + unat (p_memsz ph)"

lemma unat_le_32: "unat (x :: 32 word) \<le> 2 ^ 32"
  using unsigned_less[of x, where 'a = nat] by simp

lemma length_segment_bytes:
  assumes "segment_ok img ph"
  shows "length (segment_bytes img ph) = unat (p_memsz ph)"
  using assms by (auto simp: segment_bytes_def segment_ok_def word_le_nat_alt)

lemma segment_range:
  assumes "segment_ok img ph"
  shows "unat (p_memsz ph) = 0 \<or>
    fits_memory (p_paddr ph) (unat (p_memsz ph)) \<and> unat (p_paddr ph) + unat (p_memsz ph) \<le> 2 ^ 32"
  using assms fits_memory_bound[OF unat_le_32] by (auto simp: segment_ok_def)

lemma segment_keeps:
  assumes "segment_ok img ph" "\<not> core_address x"
  shows "write_mem (p_paddr ph) (segment_bytes img ph) m x = m x"
proof (cases "unat (p_memsz ph) = 0")
  case True
  then have "segment_bytes img ph = []" using length_segment_bytes[OF assms(1)] by simp
  then show ?thesis by simp
next
  case False
  then have f: "fits_memory (p_paddr ph) (unat (p_memsz ph))" "unat (p_paddr ph) + unat (p_memsz ph) \<le> 2 ^ 32"
    using segment_range[OF assms(1)] by auto
  have "\<not> in_range (p_paddr ph) (unat (p_memsz ph)) x"
    using fits_memory_address[OF unat_le_32 f(1)] assms(2) by blast
  then show ?thesis using f(2) by (simp add: write_mem_at length_segment_bytes[OF assms(1)])
qed

text \<open>The copy and the zeroing of an accepted segment succeed and write its bytes.\<close>

lemma load_segment_accepted:
  assumes "core_ok S" "segment_ok img ph" "p_type ph = 1"
  shows "fst (load_segment S img entry ph m) = OkS (holds_entry entry ph) \<and>
    core_byte S (snd (load_segment S img entry ph m)) =
      write_mem (p_paddr ph) (segment_bytes img ph) (core_byte S m)"
proof -
  let ?f = "unat (p_filesz ph)" and ?n = "unat (p_memsz ph)" and ?a = "p_paddr ph"
  have le: "?f \<le> ?n" "unat (p_offset ph) + ?f \<le> length img"
    using assms(2) by (simp_all add: segment_ok_def word_le_nat_alt)
  define src where "src = take ?f (drop (unat (p_offset ph)) img)"
  have src: "image_bytes img (unat (p_offset ph)) ?f = OkS src" "length src = ?f"
    using le by (simp_all add: image_bytes_def src_def)
  have bytes: "segment_bytes img ph = src @ replicate (?n - ?f) 0" by (simp add: segment_bytes_def src_def)
  have val: "validate_segment ?a ?n = OkS ()" using assms(2) by (auto simp: validate_segment_def segment_ok_def)
  have notlt: "\<not> ?n < ?f" "\<not> length img < unat (p_offset ph) + ?f" using le by simp_all
  define m1 where "m1 = (if src = [] then m else core_write S ?a src m)"
  have copy: "copy_segment S ?a src m = (OkS (), m1)"
    unfolding m1_def
  proof (rule copy_segment_fits)
    assume "src \<noteq> []"
    then have "0 < ?f" using src(2) by (cases src) auto
    then show "fits_memory ?a (length src)"
      using segment_range[OF assms(2)] fits_memory_part[of ?a ?n 0 ?f, OF _ unat_le_32] le src(2) by auto
  qed
  have m1: "core_byte S m1 = write_mem ?a src (core_byte S m)"
    by (simp add: m1_def core_laws[OF assms(1)])
  have load: "load_segment S img entry ph m =
      (if ?f < ?n
       then case zero_fill S (?a + p_filesz ph) (unat (p_memsz ph - p_filesz ph)) m1 of
         (r, m2) \<Rightarrow> (map_status (\<lambda>_. holds_entry entry ph) r, m2)
       else (OkS (holds_entry entry ph), m1))"
    using src(1) val notlt copy assms(3)
    by (simp add: load_segment_def word_less_nat_alt holds_entry_def Let_def)
  show ?thesis
  proof (cases "?f < ?n")
    case False
    then show ?thesis using m1 bytes load by simp
  next
    case True
    have u: "unat (p_memsz ph - p_filesz ph) = ?n - ?f"
      using le by (simp add: unat_sub word_le_nat_alt)
    have r: "fits_memory ?a ?n" "unat ?a + ?n \<le> 2 ^ 32" using segment_range[OF assms(2)] True by auto
    have fits: "fits_memory (?a + p_filesz ph) (?n - ?f)"
      using fits_memory_part[OF r(1) unat_le_32, of ?f "?n - ?f"] True le(1) by simp
    have z: "fst (zero_fill S (?a + p_filesz ph) (?n - ?f) m1) = OkS () \<and>
        core_byte S (snd (zero_fill S (?a + p_filesz ph) (?n - ?f) m1)) =
        write_mem (?a + p_filesz ph) (replicate (?n - ?f) 0) (core_byte S m1)"
      by (rule zero_fill_all[OF assms(1)]) (use fits unat_le_32[of "p_memsz ph"] in simp_all)
    have "write_mem (?a + p_filesz ph) (replicate (?n - ?f) 0) (write_mem ?a src (core_byte S m)) =
        write_mem ?a (segment_bytes img ph) (core_byte S m)"
      using write_mem_append[of ?a src "replicate (?n - ?f) 0" "core_byte S m"] src(2) r(2) le(1)
      by (simp add: bytes)
    then show ?thesis using True z m1 load by (simp add: u case_prod_beta)
  qed
qed

lemma load_segment_rejected:
  assumes "\<not> segment_ok img ph" "p_type ph = 1"
  shows "\<exists>e. load_segment S img entry ph m = (ErrS e, m)"
  using assms by (auto simp: load_segment_def segment_ok_def validate_segment_def word_le_nat_alt not_less)

lemma load_segment_skipped: "p_type ph \<noteq> 1 \<Longrightarrow> load_segment S img entry ph m = (OkS False, m)"
  by (simp add: load_segment_def)

definition load_phdrs :: "image \<Rightarrow> ehdr \<Rightarrow> nat list \<Rightarrow> phdr list" where
  "load_phdrs img eh is1 =
     filter (\<lambda>ph. p_type ph = 1) (map (\<lambda>i. phdr_at img (unat (e_phoff eh) + i * sizeof_Phdr)) is1)"

definition load_memory :: "image \<Rightarrow> phdr list \<Rightarrow> memory \<Rightarrow> memory" where
  "load_memory img phs m = fold (\<lambda>ph. write_mem (p_paddr ph) (segment_bytes img ph)) phs m"

lemma load_segments_spec:
  assumes "core_ok S" "\<forall>i \<in> set is1. unat (e_phoff eh) + i * sizeof_Phdr + sizeof_Phdr \<le> length img"
  shows "fst (load_segments S img eh is1 exec m) \<noteq> TrapS \<and>
    (\<forall>x. \<not> core_address x \<longrightarrow> core_byte S (snd (load_segments S img eh is1 exec m)) x = core_byte S m x) \<and>
    (\<forall>b. fst (load_segments S img eh is1 exec m) = OkS b \<longrightarrow>
       core_byte S (snd (load_segments S img eh is1 exec m)) = load_memory img (load_phdrs img eh is1) (core_byte S m) \<and>
       list_all (segment_ok img) (load_phdrs img eh is1) \<and>
       b = (exec \<or> list_ex (holds_entry (e_entry eh)) (load_phdrs img eh is1)))"
  using assms(2)
proof (induction is1 arbitrary: exec m)
  case Nil
  then show ?case by (simp add: load_phdrs_def load_memory_def)
next
  case (Cons i is1)
  define ph where "ph = phdr_at img (unat (e_phoff eh) + i * sizeof_Phdr)"
  have rd: "read_phdr img (unat (e_phoff eh) + i * sizeof_Phdr) = OkS ph"
    unfolding ph_def using Cons.prems by (intro read_phdr_at) simp
  have ih: "\<forall>i \<in> set is1. unat (e_phoff eh) + i * sizeof_Phdr + sizeof_Phdr \<le> length img" using Cons.prems by simp
  have phs: "load_phdrs img eh (i # is1) =
      (if p_type ph = 1 then ph # load_phdrs img eh is1 else load_phdrs img eh is1)"
    by (simp add: load_phdrs_def ph_def)
  have run: "load_segments S img eh (i # is1) exec m =
      (case load_segment S img (e_entry eh) ph m of
         (OkS here, m1) \<Rightarrow> load_segments S img eh is1 (exec \<or> here) m1
       | (ErrS e, m1) \<Rightarrow> (ErrS e, m1) | (TrapS, m1) \<Rightarrow> (TrapS, m1))"
    by (simp only: load_segments.simps rd status.case)
  consider "p_type ph \<noteq> 1" | "p_type ph = 1" "\<not> segment_ok img ph" | "p_type ph = 1" "segment_ok img ph" by blast
  then show ?case
  proof cases
    case 1
    then have e: "load_segments S img eh (i # is1) exec m = load_segments S img eh is1 exec m"
      unfolding run by (simp add: load_segment_skipped)
    have p: "load_phdrs img eh (i # is1) = load_phdrs img eh is1" using 1 phs by simp
    show ?thesis unfolding e p by (rule Cons.IH[OF ih])
  next
    case 2
    obtain e where "load_segment S img (e_entry eh) ph m = (ErrS e, m)"
      using load_segment_rejected[OF 2(2,1), of S "e_entry eh" m] by (elim exE)
    then have "load_segments S img eh (i # is1) exec m = (ErrS e, m)" unfolding run by simp
    then show ?thesis by (simp only: fst_conv snd_conv status.simps simp_thms)
  next
    case 3
    let ?here = "holds_entry (e_entry eh) ph"
    obtain m1 where l: "load_segment S img (e_entry eh) ph m = (OkS ?here, m1)"
      and m1: "core_byte S m1 = write_mem (p_paddr ph) (segment_bytes img ph) (core_byte S m)"
      using load_segment_accepted[OF assms(1) 3(2,1), of "e_entry eh" m] prod.collapse by metis
    have keep: "\<And>x. \<not> core_address x \<Longrightarrow> core_byte S m1 x = core_byte S m x"
      using segment_keeps[OF 3(2)] by (simp add: m1)
    have step: "load_segments S img eh (i # is1) exec m = load_segments S img eh is1 (exec \<or> ?here) m1"
      unfolding run by (simp add: l)
    have phs': "load_phdrs img eh (i # is1) = ph # load_phdrs img eh is1" using phs 3(1) by simp
    have mem: "load_memory img (ph # load_phdrs img eh is1) (core_byte S m) =
        load_memory img (load_phdrs img eh is1) (core_byte S m1)"
      by (simp add: load_memory_def m1)
    note I = Cons.IH[OF ih, of "exec \<or> ?here" m1]
    have A: "fst (load_segments S img eh is1 (exec \<or> ?here) m1) \<noteq> TrapS" using I by (rule conjunct1)
    have B: "core_byte S (snd (load_segments S img eh is1 (exec \<or> ?here) m1)) x = core_byte S m x"
      if "\<not> core_address x" for x
      using I[THEN conjunct2, THEN conjunct1, rule_format, OF that] keep[OF that] by (rule trans)
    have C: "core_byte S (snd (load_segments S img eh is1 (exec \<or> ?here) m1)) =
          load_memory img (load_phdrs img eh is1) (core_byte S m1) \<and>
        list_all (segment_ok img) (load_phdrs img eh is1) \<and>
        b = ((exec \<or> ?here) \<or> list_ex (holds_entry (e_entry eh)) (load_phdrs img eh is1))"
      if "fst (load_segments S img eh is1 (exec \<or> ?here) m1) = OkS b" for b
      using I[THEN conjunct2, THEN conjunct2, rule_format, OF that] .
    show ?thesis
      unfolding step phs' mem list.pred_inject list_ex_Cons_iff
    proof (intro conjI allI impI)
      show "fst (load_segments S img eh is1 (exec \<or> ?here) m1) \<noteq> TrapS" by (rule A)
    qed (use B C 3(2) in \<open>simp_all only: simp_thms disj_assoc\<close>)
  qed
qed


section \<open>Lemmas on symbols\<close>

lemma string_equals_in_table:
  assumes "table + unat n \<le> length img"
  shows "string_equals img table n off expected \<noteq> TrapS"
  using assms by (simp add: string_equals_def image_bytes_def word_le_nat_alt not_le)

lemma find_in_table_in_image:
  assumes "unat (sh_offset strtab) + unat (sh_size strtab) \<le> length img"
    "\<forall>j \<in> set js. unat (sh_offset symtab) + j * sizeof_Sym + sizeof_Sym \<le> length img"
  shows "find_in_table img symtab strtab name js \<noteq> TrapS"
  using assms(2)
proof (induction js)
  case (Cons j js)
  have ih: "find_in_table img symtab strtab name js \<noteq> TrapS" using Cons by simp
  have b: "unat (sh_offset symtab) + j * sizeof_Sym + 16 \<le> length img" using Cons.prems by (simp add: elf_sizes)
  have u: "u16_at img (unat (sh_offset symtab) + j * sizeof_Sym + 14) \<noteq> TrapS"
    "u32_at img (unat (sh_offset symtab) + j * sizeof_Sym) \<noteq> TrapS"
    "u32_at img (unat (sh_offset symtab) + j * sizeof_Sym + 4) \<noteq> TrapS"
    "u32_at img (unat (sh_offset symtab) + j * sizeof_Sym + 8) \<noteq> TrapS"
    using b by (simp_all add: u16_at_def u32_at_def)
  show ?case
    unfolding find_in_table.simps Let_def
    using u ih by (auto simp: sbind_trap string_equals_in_table[OF assms(1)])
qed simp

lemma read_shdr_in_image: "off + sizeof_Shdr \<le> length img \<Longrightarrow> read_shdr img off \<noteq> TrapS"
  by (simp add: read_shdr_def u32_at_def elf_sizes)

lemma find_in_sections_in_image:
  assumes "unat (e_shoff eh) + unat (e_shnum eh) * sizeof_Shdr \<le> length img"
    "\<forall>i \<in> set is1. i < unat (e_shnum eh)"
  shows "find_in_sections img eh name is1 \<noteq> TrapS"
  using assms(2)
proof (induction is1)
  case (Cons i is1)
  have ih: "find_in_sections img eh name is1 \<noteq> TrapS" using Cons by simp
  have sec: "read_shdr img (unat (e_shoff eh) + k * sizeof_Shdr) \<noteq> TrapS" if "k < unat (e_shnum eh)" for k
  proof (rule read_shdr_in_image)
    have "Suc k * sizeof_Shdr \<le> unat (e_shnum eh) * sizeof_Shdr" using that by (intro mult_le_mono1) simp
    then show "unat (e_shoff eh) + k * sizeof_Shdr + sizeof_Shdr \<le> length img" using assms(1) by simp
  qed
  have tab: "find_in_table img symtab strtab name [0..<unat (sh_size symtab) div sizeof_Sym] \<noteq> TrapS"
    if "unat (sh_offset symtab) + unat (sh_size symtab) \<le> length img"
      "unat (sh_offset strtab) + unat (sh_size strtab) \<le> length img" for symtab strtab
  proof (rule find_in_table_in_image[OF that(2)], rule ballI)
    fix j assume "j \<in> set [0..<unat (sh_size symtab) div sizeof_Sym]"
    then have "Suc j * sizeof_Sym \<le> unat (sh_size symtab) div sizeof_Sym * sizeof_Sym"
      by (intro mult_le_mono1) simp
    also have "\<dots> \<le> unat (sh_size symtab)" by simp
    finally show "unat (sh_offset symtab) + j * sizeof_Sym + sizeof_Sym \<le> length img" using that(1) by simp
  qed
  show ?case
    unfolding find_in_sections.simps
    using Cons.prems sec ih tab by (auto simp: sbind_trap not_le not_less split: option.splits)
qed simp

lemma read_ehdr_in_image: "sizeof_Ehdr \<le> length img \<Longrightarrow> read_ehdr img \<noteq> TrapS"
  by (simp add: read_ehdr_def u16_at_def u32_at_def elf_sizes)

lemma is_elf32_in_image: "is_elf32 img \<noteq> TrapS"
  by (simp add: is_elf32_def u8_at_def elf_sizes)

lemma is_elf32_length: "is_elf32 img = OkS True \<Longrightarrow> sizeof_Ehdr \<le> length img"
  by (auto simp: is_elf32_def split: if_splits)

lemma find_symbol_in_image:
  assumes "sizeof_Ehdr \<le> length img"
  shows "find_symbol img name \<noteq> TrapS"
  unfolding find_symbol_def
  by (auto simp: sbind_trap read_ehdr_in_image[OF assms] find_in_sections_in_image not_less)

lemma elf_layout_in_image:
  assumes "sizeof_Ehdr \<le> length img"
  shows "elf_layout_of img eh \<noteq> TrapS"
  unfolding elf_layout_of_def
  by (auto simp: sbind_trap find_symbol_in_image[OF assms])

lemma range_fits_word:
  "range_fits base sz a (ucast (n :: 32 word)) \<longleftrightarrow> unat base \<le> unat a \<and> unat a + unat n \<le> unat base + unat sz"
  using range_fits_nat[OF unat_le_32[of n], of base sz a] by simp

definition layout_ok :: "elf_layout \<Rightarrow> bool" where
  "layout_ok L \<longleftrightarrow>
     0x10000 \<le> unat (dispatch_request_addr L) \<and>
     unat (dispatch_request_addr L) + unat (dispatch_request_size L) \<le> 0x18000 \<and>
     0x10000 \<le> unat (heap_start_addr L) \<and> heap_start_addr L \<le> heap_end_addr L \<and>
     unat (heap_end_addr L) \<le> 0x18000"

lemma elf_layout_bounds:
  assumes "elf_layout_of img eh = OkS L"
  shows "start_pc L = e_entry eh \<and> layout_ok L"
  using assms
  by (auto simp: elf_layout_of_def sbind_OkS range_fits_word memory_map layout_ok_def word_le_nat_alt
    word_less_nat_alt unat_sub not_less split: if_splits)

lemma program_headers_in_image:
  assumes "unat (e_phoff eh) + unat (e_phnum eh) * sizeof_Phdr \<le> length img"
  shows "\<forall>i \<in> set [0..<unat (e_phnum eh)]. unat (e_phoff eh) + i * sizeof_Phdr + sizeof_Phdr \<le> length img"
proof
  fix i assume "i \<in> set [0..<unat (e_phnum eh)]"
  then have "Suc i * sizeof_Phdr \<le> unat (e_phnum eh) * sizeof_Phdr" by (intro mult_le_mono1) simp
  then show "unat (e_phoff eh) + i * sizeof_Phdr + sizeof_Phdr \<le> length img" using assms by simp
qed

section \<open>Properties\<close>

text \<open>
  C16. Whatever the bytes of the image are, the loader reads nothing outside the
  image and changes no byte of memory outside the three memories of the core,
  also when it fails.
\<close>

theorem elf_load_safe:
  assumes "core_ok S"
  shows "fst (load_elf_with_layout S img m) \<noteq> TrapS \<and>
    (\<forall>x. \<not> core_address x \<longrightarrow> core_byte S (snd (load_elf_with_layout S img m)) x = core_byte S m x)"
proof -
  define start where "start = sbind (is_elf32 img) (\<lambda>ok. if \<not> ok then ErrS INVALID_ARGUMENT else read_ehdr img)"
  have st: "start \<noteq> TrapS"
    by (auto simp: start_def sbind_trap is_elf32_in_image read_ehdr_in_image[OF is_elf32_length])
  show ?thesis
  proof (cases start)
    case (OkS eh)
    then have size: "sizeof_Ehdr \<le> length img"
      by (auto simp: start_def sbind_OkS is_elf32_length split: if_splits)
    show ?thesis
    proof (cases "e_machine eh \<noteq> 243 \<or> unat (e_phentsize eh) \<noteq> sizeof_Phdr \<or>
        length img < unat (e_phoff eh) + unat (e_phnum eh) * sizeof_Phdr")
      case False
      let ?r = "load_segments S img eh [0..<unat (e_phnum eh)] False m"
      have run: "load_elf_with_layout S img m =
        (case ?r of (ErrS e, m1) \<Rightarrow> (ErrS e, m1) | (TrapS, m1) \<Rightarrow> (TrapS, m1)
         | (OkS b, m1) \<Rightarrow> (if \<not> b then (ErrS INVALID_ARGUMENT, m1) else (elf_layout_of img eh, m1)))"
        using False OkS by (simp add: load_elf_with_layout_def start_def[symmetric])
      note spec = load_segments_spec[OF assms program_headers_in_image[of eh img], of False m]
      have spec1: "fst ?r \<noteq> TrapS" "\<And>x. \<not> core_address x \<Longrightarrow> core_byte S (snd ?r) x = core_byte S m x"
        using spec False by simp_all
      show ?thesis unfolding run
        using spec1 elf_layout_in_image[OF size, of eh] by (auto split: prod.splits status.splits)
    qed (use OkS in \<open>auto simp: load_elf_with_layout_def start_def[symmetric]\<close>)
  qed (use st in \<open>auto simp: load_elf_with_layout_def start_def[symmetric]\<close>)
qed

text \<open>
  C17. When the loader succeeds, every loadable segment lies within one memory of
  the core, one that is executable holds the entry point, the memory is the old
  one with each segment's file bytes followed by zeros up to its memory size, in
  the order of the program headers, and the dispatch request and the heap lie in
  the DTCM.
\<close>

theorem elf_load_segments:
  assumes "core_ok S" "load_elf_with_layout S img m = (OkS L, m1)"
  shows "\<exists>eh. read_ehdr img = OkS eh \<and> start_pc L = e_entry eh \<and> layout_ok L \<and>
    list_all (segment_ok img) (load_phdrs img eh [0..<unat (e_phnum eh)]) \<and>
    list_ex (holds_entry (start_pc L)) (load_phdrs img eh [0..<unat (e_phnum eh)]) \<and>
    core_byte S m1 = load_memory img (load_phdrs img eh [0..<unat (e_phnum eh)]) (core_byte S m)"
proof -
  obtain eh where eh: "sbind (is_elf32 img) (\<lambda>ok. if \<not> ok then ErrS INVALID_ARGUMENT else read_ehdr img) = OkS eh"
    using assms(2) by (auto simp: load_elf_with_layout_def split: status.splits)
  let ?r = "load_segments S img eh [0..<unat (e_phnum eh)] False m"
  have g: "unat (e_phoff eh) + unat (e_phnum eh) * sizeof_Phdr \<le> length img" and r: "?r = (OkS True, m1)"
    and L: "elf_layout_of img eh = OkS L"
    using assms(2) eh by (auto simp: load_elf_with_layout_def split: if_splits prod.splits status.splits)
  have "read_ehdr img = OkS eh" using eh by (auto simp: sbind_OkS split: if_splits)
  moreover note elf_layout_bounds[OF L]
  moreover note load_segments_spec[OF assms(1) program_headers_in_image[OF g], of False m,
      THEN conjunct2, THEN conjunct2, rule_format, of True, unfolded r, simplified]
  ultimately show ?thesis by auto
qed

text \<open>An image with one segment, a symbol table and a string table.\<close>

definition tiny_elf :: image where
  "tiny_elf = [
    127, 69, 76, 70, 1, 1, 1, 0, 0, 0, 0, 0, 0, 0, 0, 0, 2, 0, 243, 0, 1, 0, 0, 0,
    0, 0, 0, 0, 52, 0, 0, 0, 188, 0, 0, 0, 0, 0, 0, 0, 52, 0, 32, 0, 1, 0, 40, 0,
    2, 0, 0, 0, 1, 0, 0, 0, 84, 0, 0, 0, 0, 0, 0, 0, 0, 0, 0, 0, 4, 0, 0, 0,
    8, 0, 0, 0, 5, 0, 0, 0, 4, 0, 0, 0, 115, 0, 0, 8, 1, 0, 0, 0, 0, 0, 1, 0,
    60, 0, 0, 0, 0, 0, 1, 0, 27, 0, 0, 0, 64, 0, 1, 0, 0, 0, 0, 0, 0, 0, 1, 0,
    40, 0, 0, 0, 0, 128, 1, 0, 0, 0, 0, 0, 0, 0, 1, 0, 0, 99, 111, 114, 97, 108, 110, 112,
    117, 95, 100, 105, 115, 112, 97, 116, 99, 104, 95, 114, 101, 113, 117, 101, 115, 116, 0, 95, 95, 104, 101, 97,
    112, 95, 115, 116, 97, 114, 116, 0, 95, 95, 104, 101, 97, 112, 95, 101, 110, 100, 0, 0, 0, 0, 0, 0,
    2, 0, 0, 0, 0, 0, 0, 0, 0, 0, 0, 0, 88, 0, 0, 0, 48, 0, 0, 0, 1, 0, 0, 0,
    0, 0, 0, 0, 4, 0, 0, 0, 16, 0, 0, 0, 0, 0, 0, 0, 3, 0, 0, 0, 0, 0, 0, 0,
    0, 0, 0, 0, 136, 0, 0, 0, 51, 0, 0, 0, 0, 0, 0, 0, 0, 0, 0, 0, 1, 0, 0, 0,
    0, 0, 0, 0]"

definition tiny_layout :: elf_layout where
  "tiny_layout = \<lparr>start_pc = 0, dispatch_request_addr = 0x10000, dispatch_request_size = 60,
    heap_start_addr = 0x10040, heap_end_addr = 0x18000\<rparr>"

abbreviation idle_core :: "memory core_api" where
  "idle_core \<equiv> core_ref (\<lambda>pc m. Some m)"

lemma core_byte_ref: "core_byte (core_ref run) = (\<lambda>m. m)"
  by (simp add: core_ref_def)

lemma tiny_elf_loads: "fst (load_elf_with_layout idle_core tiny_elf (\<lambda>_. 0)) = OkS tiny_layout"
  by code_simp

lemma elf_load_safe_witness:
  "fst (load_elf_with_layout idle_core tiny_elf (\<lambda>_. 0)) \<noteq> TrapS \<and>
   core_byte idle_core (snd (load_elf_with_layout idle_core tiny_elf (\<lambda>_. 0))) 0x9000 = 0"
  using elf_load_safe[OF core_ref_ok, of "\<lambda>pc m. Some m" tiny_elf "\<lambda>_. 0"]
  by (auto simp: core_address_def core_byte_ref)

lemma elf_load_segments_witness:
  "\<exists>eh. read_ehdr tiny_elf = OkS eh \<and> e_entry eh = 0 \<and>
     core_byte idle_core (snd (load_elf_with_layout idle_core tiny_elf (\<lambda>_. 0))) =
       load_memory tiny_elf (load_phdrs tiny_elf eh [0..<unat (e_phnum eh)]) (\<lambda>_. 0)"
  using elf_load_segments[OF core_ref_ok, of "\<lambda>pc m. Some m" tiny_elf "\<lambda>_. 0" tiny_layout
      "snd (load_elf_with_layout idle_core tiny_elf (\<lambda>_. 0))"] tiny_elf_loads
  by (auto simp: prod_eq_iff core_ref_def tiny_layout_def)

end
