(* ===== verification/Firmware.thy ===== *)
theory Firmware
  imports ElfLoader
begin

text \<open>
  The dispatch request and the firmware of the core (\<open>crt/coralnpu_dispatch.h\<close>,
  \<open>crt/coralnpu_main.c\<close>). The request lives in memory and is read from it where
  the code reads it, so a kernel that overwrites it is seen; the library the
  compiler links in is a parameter, its kernels functions on memory that may not
  return. Objects of the C program other than the request are not in the memory.
  The lemmas relate the three nested loops to one list of workgroups.
\<close>

section \<open>The dispatch request\<close>

record dispatch_request =
  magic :: "32 word"
  version :: "16 word"
  status :: "16 word"
  return_code :: "32 word"
  workgroup_size_x :: "32 word"
  workgroup_size_y :: "32 word"
  workgroup_size_z :: "32 word"
  workgroup_count_x :: "32 word"
  workgroup_count_y :: "32 word"
  workgroup_count_z :: "32 word"
  max_concurrency :: "16 word"
  push_constant_count :: "8 word"
  binding_count :: "8 word"
  ordinal :: "32 word"
  push_constants_addr :: "32 word"
  binding_ptrs_addr :: "32 word"
  binding_lengths_addr :: "32 word"
  local_memory_addr :: "32 word"

definition CORALNPU_DISPATCH_MAGIC :: "32 word" where "CORALNPU_DISPATCH_MAGIC = 0x434E5055"
definition CORALNPU_DISPATCH_VERSION :: "16 word" where "CORALNPU_DISPATCH_VERSION = 1"

definition STATUS_EMPTY :: "16 word" where "STATUS_EMPTY = 0"
definition STATUS_READY :: "16 word" where "STATUS_READY = 1"
definition STATUS_RUNNING :: "16 word" where "STATUS_RUNNING = 2"
definition STATUS_COMPLETE :: "16 word" where "STATUS_COMPLETE = 3"
definition STATUS_ERROR :: "16 word" where "STATUS_ERROR = 4"

lemmas status_codes = STATUS_EMPTY_def STATUS_READY_def STATUS_RUNNING_def STATUS_COMPLETE_def STATUS_ERROR_def

definition sizeof_request :: nat where "sizeof_request = 60"

definition encode_request :: "dispatch_request \<Rightarrow> 8 word list" where
  "encode_request r =
     le_bytes 4 (magic r) @ le_bytes 2 (version r) @ le_bytes 2 (status r) @ le_bytes 4 (return_code r) @
     le_bytes 4 (workgroup_size_x r) @ le_bytes 4 (workgroup_size_y r) @ le_bytes 4 (workgroup_size_z r) @
     le_bytes 4 (workgroup_count_x r) @ le_bytes 4 (workgroup_count_y r) @ le_bytes 4 (workgroup_count_z r) @
     le_bytes 2 (max_concurrency r) @ le_bytes 1 (push_constant_count r) @ le_bytes 1 (binding_count r) @
     le_bytes 4 (ordinal r) @ le_bytes 4 (push_constants_addr r) @ le_bytes 4 (binding_ptrs_addr r) @
     le_bytes 4 (binding_lengths_addr r) @ le_bytes 4 (local_memory_addr r)"

definition decode_request :: "8 word list \<Rightarrow> dispatch_request" where
  "decode_request b = \<lparr>
     magic = get b 4 0, version = get b 2 4, status = get b 2 6, return_code = get b 4 8,
     workgroup_size_x = get b 4 12, workgroup_size_y = get b 4 16, workgroup_size_z = get b 4 20,
     workgroup_count_x = get b 4 24, workgroup_count_y = get b 4 28, workgroup_count_z = get b 4 32,
     max_concurrency = get b 2 36, push_constant_count = get b 1 38, binding_count = get b 1 39,
     ordinal = get b 4 40, push_constants_addr = get b 4 44, binding_ptrs_addr = get b 4 48,
     binding_lengths_addr = get b 4 52, local_memory_addr = get b 4 56\<rparr>"

lemma length_encode_request [simp]: "length (encode_request r) = sizeof_request"
  by (simp add: encode_request_def sizeof_request_def)

lemma get_append_skip: "length xs \<le> off \<Longrightarrow> get (xs @ ys) n off = get ys n (off - length xs)"
  by (simp add: get_def)

lemma get_append_here:
  fixes w :: "'a::len word"
  assumes "LENGTH('a) \<le> 8 * n"
  shows "get (le_bytes n w @ ys) n 0 = w"
  using assms by (simp add: get_def le_word_bytes)

lemma get_here:
  fixes w :: "'a::len word"
  assumes "LENGTH('a) \<le> 8 * n"
  shows "get (le_bytes n w) n 0 = w"
  using assms by (simp add: get_def le_word_bytes)

lemma decode_encode [simp]: "decode_request (encode_request r) = r"
  by (cases r) (simp add: decode_request_def encode_request_def get_append_skip get_append_here get_here)

text \<open>The request at an address of memory.\<close>

definition request_at :: "memory \<Rightarrow> 32 word \<Rightarrow> dispatch_request" where
  "request_at m a = decode_request (read_mem a sizeof_request m)"

definition set_status :: "32 word \<Rightarrow> 16 word \<Rightarrow> memory \<Rightarrow> memory" where
  "set_status a v m = write_mem (a + 6) (le_bytes 2 v) m"

definition set_return_code :: "32 word \<Rightarrow> 32 word \<Rightarrow> memory \<Rightarrow> memory" where
  "set_return_code a v m = write_mem (a + 8) (le_bytes 4 v) m"

lemma get_read_mem:
  assumes "off + n \<le> k"
  shows "get (read_mem a k m) n off = le_word (read_mem (a + of_nat off) n m)"
proof -
  have "take n (drop off (read_mem a k m)) = read_mem (a + of_nat off) n m"
    using assms by (intro nth_equalityI) (auto simp: read_mem_def ac_simps)
  then show ?thesis by (simp add: get_def)
qed

lemma get_write_other:
  assumes "off + n \<le> k" "unat a + k \<le> 2 ^ 32" "off' + length bs \<le> k" "off' + length bs \<le> off \<or> off + n \<le> off'"
    "0 < n" "bs \<noteq> []"
  shows "get (read_mem a k (write_mem (a + of_nat off') bs m)) n off = get (read_mem a k m) n off"
proof -
  have l: "0 < length bs" using assms(6) by simp
  have u: "unat (a + of_nat off) = unat a + off" "unat (a + of_nat off') = unat a + off'"
    using assms l by (intro unat_add_small; linarith)+
  show ?thesis using assms u by (auto simp: get_read_mem intro!: arg_cong[where f = le_word] read_write_other)
qed

lemma get_write_same:
  fixes w :: "'a::len word"
  assumes "off + n \<le> k" "unat a + k \<le> 2 ^ 32" "LENGTH('a) \<le> 8 * n"
  shows "get (read_mem a k (write_mem (a + of_nat off) (le_bytes n w) m)) n off = w"
proof -
  have "0 < n" using assms(3) by (cases n) auto
  then have "unat (a + of_nat off) = unat a + off" using assms by (intro unat_add_small) linarith
  then show ?thesis
    using assms read_write_same[of "a + of_nat off" "le_bytes n w" m] by (simp add: get_read_mem le_word_bytes)
qed

lemma request_get_other:
  assumes "unat a + sizeof_request \<le> 2 ^ 32" "off' + k \<le> sizeof_request" "0 < k"
    "off' + k \<le> off \<or> off + n \<le> off'" "off + n \<le> sizeof_request" "0 < n"
  shows "get (read_mem a sizeof_request (write_mem (a + of_nat off') (le_bytes k v) m)) n off =
    get (read_mem a sizeof_request m) n off"
  using assms by (intro get_write_other) (auto simp: le_bytes_def)

lemmas get_after_status = request_get_other[where off' = 6 and k = 2, unfolded of_nat_numeral sizeof_request_def]
lemmas get_after_return_code = request_get_other[where off' = 8 and k = 4, unfolded of_nat_numeral sizeof_request_def]

lemma request_set_status:
  assumes "unat a + sizeof_request \<le> 2 ^ 32"
  shows "request_at (set_status a v m) a = (request_at m a)\<lparr>status := v\<rparr>"
  using assms get_write_same[of 6 2 sizeof_request a v m]
  by (simp add: request_at_def set_status_def decode_request_def get_after_status sizeof_request_def)

lemma request_set_return_code:
  assumes "unat a + sizeof_request \<le> 2 ^ 32"
  shows "request_at (set_return_code a v m) a = (request_at m a)\<lparr>return_code := v\<rparr>"
  using assms get_write_same[of 8 4 sizeof_request a v m]
  by (simp add: request_at_def set_return_code_def decode_request_def get_after_return_code sizeof_request_def)

section \<open>The firmware\<close>

text \<open>
  The structures of IREE's \<open>executable_library.h\<close> the firmware fills, with that
  header's field widths; a null pointer is \<open>None\<close>. A kernel returns its status
  and the memory it leaves, or does not return.
\<close>

record dispatch_state =
  ds_size_x :: "32 word"
  ds_size_y :: "32 word"
  ds_size_z :: "16 word"
  ds_count_x :: "32 word"
  ds_count_y :: "32 word"
  ds_count_z :: "16 word"
  ds_max_concurrency :: "8 word"
  ds_constant_count :: "16 word"
  ds_binding_count :: "8 word"
  ds_constants :: "32 word option"
  ds_binding_ptrs :: "32 word option"
  ds_binding_lengths :: "32 word option"

record workgroup_state =
  workgroup_id_x :: "32 word"
  workgroup_id_y :: "32 word"
  workgroup_id_z :: "16 word"
  processor_id :: "32 word"
  ws_local_memory :: "32 word option"

type_synonym kernel = "dispatch_state \<Rightarrow> workgroup_state \<Rightarrow> memory \<Rightarrow> (32 word \<times> memory) option"

text \<open>\<open>exports.ptrs\<close> with its \<open>exports.count\<close> entries, any of which may be null.\<close>

type_synonym exports = "kernel option list option"

definition dispatch_state_of :: "dispatch_request \<Rightarrow> dispatch_state" where
  "dispatch_state_of r = \<lparr>
     ds_size_x = workgroup_size_x r, ds_size_y = workgroup_size_y r, ds_size_z = ucast (workgroup_size_z r),
     ds_count_x = workgroup_count_x r, ds_count_y = workgroup_count_y r, ds_count_z = ucast (workgroup_count_z r),
     ds_max_concurrency = ucast (max_concurrency r),
     ds_constant_count = ucast (push_constant_count r), ds_binding_count = binding_count r,
     ds_constants = (if push_constant_count r = 0 then None else Some (push_constants_addr r)),
     ds_binding_ptrs = (if binding_count r = 0 then None else Some (binding_ptrs_addr r)),
     ds_binding_lengths = (if binding_count r = 0 then None else Some (binding_lengths_addr r))\<rparr>"

definition workgroup_state_of :: "dispatch_request \<Rightarrow> 32 word \<Rightarrow> 32 word \<Rightarrow> 32 word \<Rightarrow> workgroup_state" where
  "workgroup_state_of r z y x = \<lparr>workgroup_id_x = x, workgroup_id_y = y, workgroup_id_z = ucast z, processor_id = 0,
     ws_local_memory = (if local_memory_addr r = 0 then None else Some (local_memory_addr r))\<rparr>"

text \<open>The three loops; the result is that of the last call, 0 when every one returned 0.\<close>

partial_function (option) loop_x ::
  "kernel \<Rightarrow> dispatch_state \<Rightarrow> 32 word \<Rightarrow> 32 word \<Rightarrow> 32 word \<Rightarrow> 32 word \<Rightarrow> memory \<Rightarrow> (32 word \<times> memory) option" where
  "loop_x K ds req z y x m =
    (if x < workgroup_count_x (request_at m req)
     then Option.bind (K ds (workgroup_state_of (request_at m req) z y x) m)
       (\<lambda>(res, m1). if res \<noteq> 0 then Some (res, m1) else loop_x K ds req z y (x + 1) m1)
     else Some (0, m))"

partial_function (option) loop_y ::
  "kernel \<Rightarrow> dispatch_state \<Rightarrow> 32 word \<Rightarrow> 32 word \<Rightarrow> 32 word \<Rightarrow> memory \<Rightarrow> (32 word \<times> memory) option" where
  "loop_y K ds req z y m =
    (if y < workgroup_count_y (request_at m req)
     then Option.bind (loop_x K ds req z y 0 m)
       (\<lambda>(res, m1). if res \<noteq> 0 then Some (res, m1) else loop_y K ds req z (y + 1) m1)
     else Some (0, m))"

partial_function (option) loop_z ::
  "kernel \<Rightarrow> dispatch_state \<Rightarrow> 32 word \<Rightarrow> 32 word \<Rightarrow> memory \<Rightarrow> (32 word \<times> memory) option" where
  "loop_z K ds req z m =
    (if z < workgroup_count_z (request_at m req)
     then Option.bind (loop_y K ds req z 0 m)
       (\<lambda>(res, m1). if res \<noteq> 0 then Some (res, m1) else loop_z K ds req (z + 1) m1)
     else Some (0, m))"

definition coralnpu_dispatch_fail :: "32 word \<Rightarrow> 32 word \<Rightarrow> memory \<Rightarrow> memory" where
  "coralnpu_dispatch_fail req code m = set_status req STATUS_ERROR (set_return_code req code m)"

text \<open>\<open>main\<close> up to the halt of the core; \<open>None\<close> when a kernel does not return.\<close>

definition firmware_main :: "exports option \<Rightarrow> 32 word \<Rightarrow> memory \<Rightarrow> memory option" where
  "firmware_main library req m =
    (let r = request_at m req in
     if magic r \<noteq> CORALNPU_DISPATCH_MAGIC \<or> version r \<noteq> CORALNPU_DISPATCH_VERSION \<or> status r \<noteq> STATUS_READY
       then Some (coralnpu_dispatch_fail req (- 1) m)
     else if (push_constant_count r \<noteq> 0 \<and> push_constants_addr r = 0) \<or>
         (binding_count r \<noteq> 0 \<and> (binding_ptrs_addr r = 0 \<or> binding_lengths_addr r = 0))
       then Some (coralnpu_dispatch_fail req (- 2) m)
     else let m1 = set_return_code req 0 (set_status req STATUS_RUNNING m) in
     case library of
       None \<Rightarrow> Some (coralnpu_dispatch_fail req (- 3) m1)
     | Some None \<Rightarrow> Some (coralnpu_dispatch_fail req (- 4) m1)
     | Some (Some ptrs) \<Rightarrow>
       (if length ptrs \<le> unat (ordinal (request_at m1 req)) then Some (coralnpu_dispatch_fail req (- 4) m1)
        else case ptrs ! unat (ordinal (request_at m1 req)) of
          None \<Rightarrow> Some (coralnpu_dispatch_fail req (- 4) m1)
        | Some dispatch \<Rightarrow>
          Option.bind (loop_z dispatch (dispatch_state_of (request_at m1 req)) req 0 m1)
            (\<lambda>(res, m2). if res \<noteq> 0 then Some (coralnpu_dispatch_fail req res m2)
              else Some (set_status req STATUS_COMPLETE (set_return_code req 0 m2)))))"

section \<open>The loops as one list of workgroups\<close>

definition grid_x :: "nat \<Rightarrow> nat \<Rightarrow> nat \<Rightarrow> nat \<Rightarrow> (nat \<times> nat \<times> nat) list" where
  "grid_x z y x cx = map (\<lambda>i. (z, y, i)) [x..<cx]"

definition grid_y :: "nat \<Rightarrow> nat \<Rightarrow> nat \<Rightarrow> nat \<Rightarrow> (nat \<times> nat \<times> nat) list" where
  "grid_y z y cy cx = concat (map (\<lambda>j. grid_x z j 0 cx) [y..<cy])"

definition grid_z :: "nat \<Rightarrow> nat \<Rightarrow> nat \<Rightarrow> nat \<Rightarrow> (nat \<times> nat \<times> nat) list" where
  "grid_z z cz cy cx = concat (map (\<lambda>k. grid_y k 0 cy cx) [z..<cz])"

definition workgroup_grid :: "dispatch_request \<Rightarrow> (nat \<times> nat \<times> nat) list" where
  "workgroup_grid r = grid_z 0 (unat (workgroup_count_z r)) (unat (workgroup_count_y r)) (unat (workgroup_count_x r))"

lemma grid_x_step: "x < cx \<Longrightarrow> grid_x z y x cx = (z, y, x) # grid_x z y (Suc x) cx" "cx \<le> x \<Longrightarrow> grid_x z y x cx = []"
  by (simp_all add: grid_x_def upt_conv_Cons)

lemma grid_y_step: "y < cy \<Longrightarrow> grid_y z y cy cx = grid_x z y 0 cx @ grid_y z (Suc y) cy cx" "cy \<le> y \<Longrightarrow> grid_y z y cy cx = []"
  by (simp_all add: grid_y_def upt_conv_Cons)

lemma grid_z_step: "z < cz \<Longrightarrow> grid_z z cz cy cx = grid_y z 0 cy cx @ grid_z (Suc z) cz cy cx" "cz \<le> z \<Longrightarrow> grid_z z cz cy cx = []"
  by (simp_all add: grid_z_def upt_conv_Cons)

lemma set_grid: "set (grid_z 0 cz cy cx) = {(z, y, x). z < cz \<and> y < cy \<and> x < cx}"
  by (force simp: grid_z_def grid_y_def grid_x_def)

lemma distinct_grid: "distinct (grid_z 0 cz cy cx)"
proof -
  have x: "distinct (grid_x z y 0 cx)" for z y by (auto simp: grid_x_def distinct_map inj_on_def)
  have y: "distinct (concat (map (\<lambda>j. grid_x z j 0 cx) js))" if "distinct js" for z js
    using that by (induction js) (auto simp: x, auto simp: grid_x_def)
  have "distinct (concat (map (\<lambda>k. grid_y k 0 cy cx) ks))" if "distinct ks" for ks
    using that by (induction ks) (auto simp: y grid_y_def, auto simp: grid_x_def)
  then show ?thesis by (simp add: grid_z_def)
qed

text \<open>One call of the kernel per workgroup of a list, up to the first that fails.\<close>

fun run_groups :: "(nat \<times> nat \<times> nat \<Rightarrow> memory \<Rightarrow> (32 word \<times> memory) option) \<Rightarrow> (nat \<times> nat \<times> nat) list \<Rightarrow>
    memory \<Rightarrow> (32 word \<times> memory) option" where
  "run_groups call [] m = Some (0, m)"
| "run_groups call (g # gs) m =
     Option.bind (call g m) (\<lambda>(res, m1). if res \<noteq> 0 then Some (res, m1) else run_groups call gs m1)"

lemma run_groups_append:
  "run_groups call (gs @ hs) m =
    Option.bind (run_groups call gs m) (\<lambda>(res, m1). if res \<noteq> 0 then Some (res, m1) else run_groups call hs m1)"
proof (induction gs arbitrary: m)
  case (Cons g gs)
  show ?case
  proof (cases "call g m")
    case (Some p)
    then show ?thesis using Cons.IH by (cases p) simp
  qed simp
qed simp

definition group_call :: "kernel \<Rightarrow> dispatch_state \<Rightarrow> dispatch_request \<Rightarrow> nat \<times> nat \<times> nat \<Rightarrow> memory \<Rightarrow>
    (32 word \<times> memory) option" where
  "group_call K ds r = (\<lambda>(z, y, x). K ds (workgroup_state_of r (of_nat z) (of_nat y) (of_nat x)))"

text \<open>The kernel leaves the request as it is.\<close>

definition keeps_request :: "kernel \<Rightarrow> 32 word \<Rightarrow> bool" where
  "keeps_request K req \<longleftrightarrow> (\<forall>ds ws m res m1. K ds ws m = Some (res, m1) \<longrightarrow> request_at m1 req = request_at m req)"

lemma run_groups_keeps:
  assumes "keeps_request K req" "run_groups (group_call K ds r) gs m = Some (res, m1)"
  shows "request_at m1 req = request_at m req"
  using assms(2)
proof (induction gs arbitrary: m)
  case (Cons g gs)
  obtain z y x where g: "g = (z, y, x)" by (cases g)
  obtain r1 m2 where k: "K ds (workgroup_state_of r (of_nat z) (of_nat y) (of_nat x)) m = Some (r1, m2)"
    using Cons.prems by (cases "K ds (workgroup_state_of r (of_nat z) (of_nat y) (of_nat x)) m") (auto simp: g group_call_def)
  have "request_at m2 req = request_at m req" using assms(1) k unfolding keeps_request_def by blast
  then show ?case using Cons k by (auto simp: g group_call_def split: if_splits)
qed simp

lemma unat_Suc_less:
  assumes "(x :: 32 word) < c"
  shows "unat (x + 1) = Suc (unat x)"
proof -
  have "unat x + 1 < 2 ^ 32" using assms unsigned_less[of c, where 'a = nat] by (simp add: word_less_nat_alt)
  then show ?thesis using unat_add_small[of x 1] by simp
qed

lemma loop_x_groups:
  assumes "keeps_request K req" "request_at m req = r"
  shows "loop_x K ds req (of_nat z) (of_nat y) x m =
    run_groups (group_call K ds r) (grid_x z y (unat x) (unat (workgroup_count_x r))) m"
  using assms(2)
proof (induction "unat (workgroup_count_x r) - unat x" arbitrary: x m)
  case 0
  then have "\<not> x < workgroup_count_x r" by (simp add: word_less_nat_alt)
  then show ?case using 0 by (subst loop_x.simps) (simp add: grid_x_step(2))
next
  case (Suc n)
  then have lt: "x < workgroup_count_x r" by (simp add: word_less_nat_alt)
  note s = unat_Suc_less[OF lt]
  have ih: "loop_x K ds req (of_nat z) (of_nat y) (x + 1) m1 =
      run_groups (group_call K ds r) (grid_x z y (Suc (unat x)) (unat (workgroup_count_x r))) m1"
    if "request_at m1 req = r" for m1
    using Suc.hyps(1)[of "x + 1" m1] Suc.hyps(2) that by (simp add: s)
  have g: "grid_x z y (unat x) (unat (workgroup_count_x r)) =
      (z, y, unat x) # grid_x z y (Suc (unat x)) (unat (workgroup_count_x r))"
    using lt by (intro grid_x_step) (simp add: word_less_nat_alt)
  show ?case
  proof (cases "K ds (workgroup_state_of r (of_nat z) (of_nat y) x) m")
    case None
    then show ?thesis using lt Suc.prems by (subst loop_x.simps) (simp add: g group_call_def)
  next
    case (Some p)
    obtain res m1 where p: "p = (res, m1)" by (cases p)
    have "request_at m1 req = r"
      using assms(1) Some[unfolded p] Suc.prems unfolding keeps_request_def by blast
    then show ?thesis using lt Suc.prems Some p ih by (subst loop_x.simps) (simp add: g group_call_def)
  qed
qed

lemma loop_y_groups:
  assumes "keeps_request K req" "request_at m req = r"
  shows "loop_y K ds req (of_nat z) y m =
    run_groups (group_call K ds r) (grid_y z (unat y) (unat (workgroup_count_y r)) (unat (workgroup_count_x r))) m"
  using assms(2)
proof (induction "unat (workgroup_count_y r) - unat y" arbitrary: y m)
  case 0
  then have "\<not> y < workgroup_count_y r" by (simp add: word_less_nat_alt)
  then show ?case using 0 by (subst loop_y.simps) (simp add: grid_y_step(2))
next
  case (Suc n)
  then have lt: "y < workgroup_count_y r" by (simp add: word_less_nat_alt)
  note s = unat_Suc_less[OF lt]
  let ?row = "grid_x z (unat y) 0 (unat (workgroup_count_x r))"
    and ?rest = "grid_y z (Suc (unat y)) (unat (workgroup_count_y r)) (unat (workgroup_count_x r))"
  have ih: "loop_y K ds req (of_nat z) (y + 1) m1 = run_groups (group_call K ds r) ?rest m1"
    if "request_at m1 req = r" for m1
    using Suc.hyps(1)[of "y + 1" m1] Suc.hyps(2) that by (simp add: s)
  have g: "grid_y z (unat y) (unat (workgroup_count_y r)) (unat (workgroup_count_x r)) = ?row @ ?rest"
    using lt by (intro grid_y_step) (simp add: word_less_nat_alt)
  have row: "loop_x K ds req (of_nat z) y 0 m = run_groups (group_call K ds r) ?row m"
    using loop_x_groups[OF assms(1) Suc.prems, of ds z "unat y" 0] by simp
  have step: "loop_y K ds req (of_nat z) y m = Option.bind (run_groups (group_call K ds r) ?row m)
      (\<lambda>(res, m1). if res \<noteq> 0 then Some (res, m1) else loop_y K ds req (of_nat z) (y + 1) m1)"
    using lt Suc.prems row by (subst loop_y.simps) simp
  show ?case unfolding step g run_groups_append
  proof (rule bind_option_cong[OF refl])
    fix p assume a: "p \<in> set_option (run_groups (group_call K ds r) ?row m)"
    obtain res m1 where p: "p = (res, m1)" by (cases p)
    have k: "request_at m1 req = r" using run_groups_keeps[OF assms(1), of ds r ?row m res m1] a Suc.prems by (simp add: p)
    show "(case p of (res, m1) \<Rightarrow> if res \<noteq> 0 then Some (res, m1) else loop_y K ds req (of_nat z) (y + 1) m1) =
        (case p of (res, m1) \<Rightarrow> if res \<noteq> 0 then Some (res, m1) else run_groups (group_call K ds r) ?rest m1)"
      by (simp add: p ih[OF k])
  qed
qed

lemma loop_z_groups:
  assumes "keeps_request K req" "request_at m req = r"
  shows "loop_z K ds req z m = run_groups (group_call K ds r)
    (grid_z (unat z) (unat (workgroup_count_z r)) (unat (workgroup_count_y r)) (unat (workgroup_count_x r))) m"
  using assms(2)
proof (induction "unat (workgroup_count_z r) - unat z" arbitrary: z m)
  case 0
  then have "\<not> z < workgroup_count_z r" by (simp add: word_less_nat_alt)
  then show ?case using 0 by (subst loop_z.simps) (simp add: grid_z_step(2))
next
  case (Suc n)
  then have lt: "z < workgroup_count_z r" by (simp add: word_less_nat_alt)
  note s = unat_Suc_less[OF lt]
  let ?plane = "grid_y (unat z) 0 (unat (workgroup_count_y r)) (unat (workgroup_count_x r))"
    and ?rest = "grid_z (Suc (unat z)) (unat (workgroup_count_z r)) (unat (workgroup_count_y r)) (unat (workgroup_count_x r))"
  have ih: "loop_z K ds req (z + 1) m1 = run_groups (group_call K ds r) ?rest m1"
    if "request_at m1 req = r" for m1
    using Suc.hyps(1)[of "z + 1" m1] Suc.hyps(2) that by (simp add: s)
  have g: "grid_z (unat z) (unat (workgroup_count_z r)) (unat (workgroup_count_y r)) (unat (workgroup_count_x r)) =
      ?plane @ ?rest"
    using lt by (intro grid_z_step) (simp add: word_less_nat_alt)
  have plane: "loop_y K ds req z 0 m = run_groups (group_call K ds r) ?plane m"
    using loop_y_groups[OF assms(1) Suc.prems, of ds "unat z" 0] by simp
  have step: "loop_z K ds req z m = Option.bind (run_groups (group_call K ds r) ?plane m)
      (\<lambda>(res, m1). if res \<noteq> 0 then Some (res, m1) else loop_z K ds req (z + 1) m1)"
    using lt Suc.prems plane by (subst loop_z.simps) simp
  show ?case unfolding step g run_groups_append
  proof (rule bind_option_cong[OF refl])
    fix p assume a: "p \<in> set_option (run_groups (group_call K ds r) ?plane m)"
    obtain res m1 where p: "p = (res, m1)" by (cases p)
    have k: "request_at m1 req = r" using run_groups_keeps[OF assms(1), of ds r ?plane m res m1] a Suc.prems by (simp add: p)
    show "(case p of (res, m1) \<Rightarrow> if res \<noteq> 0 then Some (res, m1) else loop_z K ds req (z + 1) m1) =
        (case p of (res, m1) \<Rightarrow> if res \<noteq> 0 then Some (res, m1) else run_groups (group_call K ds r) ?rest m1)"
      by (simp add: p ih[OF k])
  qed
qed

lemma loop_z_grid:
  assumes "keeps_request K req"
  shows "loop_z K ds req 0 m = run_groups (group_call K ds (request_at m req)) (workgroup_grid (request_at m req)) m"
  using loop_z_groups[OF assms refl, of ds 0 m] by (simp add: workgroup_grid_def)

section \<open>Properties\<close>

text \<open>
  C21. A kernel that leaves the dispatch request alone is called by the three
  nested loops once for every workgroup of the grid and for no other, x fastest
  and z slowest, until one call fails; the loops return when the calls do.
\<close>

theorem firmware_loops:
  assumes "keeps_request K req"
  shows "loop_z K ds req 0 m = run_groups (group_call K ds (request_at m req)) (workgroup_grid (request_at m req)) m \<and>
    distinct (workgroup_grid (request_at m req)) \<and>
    set (workgroup_grid (request_at m req)) =
      {(z, y, x). z < unat (workgroup_count_z (request_at m req)) \<and> y < unat (workgroup_count_y (request_at m req)) \<and>
         x < unat (workgroup_count_x (request_at m req))}"
  using loop_z_grid[OF assms] by (simp add: workgroup_grid_def set_grid distinct_grid)

text \<open>A kernel that stores its x coordinate in memory, and a request with one row of two workgroups.\<close>

definition store_x :: kernel where
  "store_x ds ws m = Some (0, write_mem 0x80000000 [ucast (workgroup_id_x ws)] m)"

definition small_request :: dispatch_request where
  "small_request = \<lparr>magic = CORALNPU_DISPATCH_MAGIC, version = 1, status = 1, return_code = 0,
     workgroup_size_x = 1, workgroup_size_y = 1, workgroup_size_z = 1,
     workgroup_count_x = 2, workgroup_count_y = 1, workgroup_count_z = 1,
     max_concurrency = 1, push_constant_count = 0, binding_count = 0, ordinal = 0,
     push_constants_addr = 0, binding_ptrs_addr = 0, binding_lengths_addr = 0, local_memory_addr = 0\<rparr>"

definition small_memory :: memory where
  "small_memory = write_mem 0x10000 (encode_request small_request) (\<lambda>_. 0)"

lemma request_at_written:
  assumes "unat a + sizeof_request \<le> 2 ^ 32"
  shows "request_at (write_mem a (encode_request r) m) a = r"
  using read_write_same[of a "encode_request r" m] assms by (simp add: request_at_def)

lemma small_request_at: "request_at small_memory 0x10000 = small_request"
  unfolding small_memory_def by (rule request_at_written) (simp add: sizeof_request_def)

lemma store_x_keeps: "keeps_request store_x 0x10000"
  by (auto simp: keeps_request_def store_x_def request_at_def sizeof_request_def read_write_other)

lemma small_grid: "workgroup_grid small_request = [(0, 0, 0), (0, 0, 1)]"
  by code_simp

lemma firmware_loops_witness:
  "map_option (\<lambda>(res, m1). (res, m1 0x80000000)) (loop_z store_x (dispatch_state_of small_request) 0x10000 0 small_memory) = Some (0, 1)"
  using firmware_loops[OF store_x_keeps, of "dispatch_state_of small_request" small_memory]
  by (simp add: small_request_at small_grid group_call_def store_x_def write_mem_def workgroup_state_of_def)


text \<open>What the firmware is asked to run: the exported kernel of a request that is ready.\<close>

definition request_ready :: "dispatch_request \<Rightarrow> bool" where
  "request_ready r \<longleftrightarrow> magic r = CORALNPU_DISPATCH_MAGIC \<and> version r = CORALNPU_DISPATCH_VERSION \<and>
     status r = STATUS_READY \<and> (push_constant_count r \<noteq> 0 \<longrightarrow> push_constants_addr r \<noteq> 0) \<and>
     (binding_count r \<noteq> 0 \<longrightarrow> binding_ptrs_addr r \<noteq> 0 \<and> binding_lengths_addr r \<noteq> 0)"

definition exported :: "exports option \<Rightarrow> 32 word \<Rightarrow> kernel \<Rightarrow> bool" where
  "exported library ord K \<longleftrightarrow>
     (\<exists>ptrs. library = Some (Some ptrs) \<and> unat ord < length ptrs \<and> ptrs ! unat ord = Some K)"

definition started :: "32 word \<Rightarrow> memory \<Rightarrow> memory" where
  "started req m = set_return_code req 0 (set_status req STATUS_RUNNING m)"

lemma request_views [simp]:
  "workgroup_grid (r\<lparr>status := v\<rparr>) = workgroup_grid r" "workgroup_grid (r\<lparr>return_code := c\<rparr>) = workgroup_grid r"
  "dispatch_state_of (r\<lparr>status := v\<rparr>) = dispatch_state_of r"
  "dispatch_state_of (r\<lparr>return_code := c\<rparr>) = dispatch_state_of r"
  "workgroup_state_of (r\<lparr>status := v\<rparr>) = workgroup_state_of r"
  "workgroup_state_of (r\<lparr>return_code := c\<rparr>) = workgroup_state_of r"
  "group_call K ds (r\<lparr>status := v\<rparr>) = group_call K ds r" "group_call K ds (r\<lparr>return_code := c\<rparr>) = group_call K ds r"
  by (simp_all add: workgroup_grid_def dispatch_state_of_def workgroup_state_of_def group_call_def fun_eq_iff)

lemma request_started:
  assumes "unat req + sizeof_request \<le> 2 ^ 32"
  shows "request_at (started req m) req = (request_at m req)\<lparr>status := STATUS_RUNNING, return_code := 0\<rparr>"
  by (simp add: started_def request_set_status[OF assms] request_set_return_code[OF assms])

lemma request_failed:
  assumes "unat req + sizeof_request \<le> 2 ^ 32"
  shows "request_at (coralnpu_dispatch_fail req code m) req = (request_at m req)\<lparr>status := STATUS_ERROR, return_code := code\<rparr>"
  by (simp add: coralnpu_dispatch_fail_def request_set_status[OF assms] request_set_return_code[OF assms])

text \<open>The exits of \<open>main\<close>, one fact each.\<close>

lemma firmware_run:
  assumes "unat req + sizeof_request \<le> 2 ^ 32" "request_ready (request_at m req)"
    "exported library (ordinal (request_at m req)) K" "keeps_request K req"
  shows "firmware_main library req m =
    Option.bind (run_groups (group_call K (dispatch_state_of (request_at m req)) (request_at m req))
        (workgroup_grid (request_at m req)) (started req m))
      (\<lambda>(res, m2). if res \<noteq> 0 then Some (coralnpu_dispatch_fail req res m2)
        else Some (set_status req STATUS_COMPLETE (set_return_code req 0 m2)))"
proof -
  obtain ptrs where p: "library = Some (Some ptrs)" "unat (ordinal (request_at m req)) < length ptrs"
    "ptrs ! unat (ordinal (request_at m req)) = Some K" using assms(3) by (auto simp: exported_def)
  have l: "loop_z K (dispatch_state_of (request_at m req)) req 0 (started req m) =
      run_groups (group_call K (dispatch_state_of (request_at m req)) (request_at m req))
        (workgroup_grid (request_at m req)) (started req m)"
    by (simp add: loop_z_grid[OF assms(4)] request_started[OF assms(1)])
  show ?thesis
    using assms(2) p
    by (auto simp: firmware_main_def Let_def request_ready_def started_def[symmetric] request_started[OF assms(1)] l)
qed

lemma firmware_reject:
  assumes "unat req + sizeof_request \<le> 2 ^ 32"
    "\<not> (request_ready (request_at m req) \<and> (\<exists>K. exported library (ordinal (request_at m req)) K))"
  shows "\<exists>code m2. firmware_main library req m = Some (coralnpu_dispatch_fail req code m2) \<and> code \<in> {- 1, - 2, - 3, - 4}"
  using assms(2)
  by (auto simp: firmware_main_def Let_def request_ready_def exported_def started_def[symmetric]
      request_started[OF assms(1)] split: option.splits)

text \<open>
  C22. When the firmware halts, the request is complete with return code 0, or in
  error with a return code other than 0. It is complete only when it was ready,
  its kernel was exported, and every workgroup of the grid returned 0 in order
  from the memory in which the request was marked running.
\<close>

theorem firmware_outcome:
  assumes "unat req + sizeof_request \<le> 2 ^ 32" "\<forall>K. exported library (ordinal (request_at m req)) K \<longrightarrow> keeps_request K req"
    "firmware_main library req m = Some m1"
  shows "status (request_at m1 req) = STATUS_ERROR \<and> return_code (request_at m1 req) \<noteq> 0 \<or>
    status (request_at m1 req) = STATUS_COMPLETE \<and> return_code (request_at m1 req) = 0 \<and>
    request_ready (request_at m req) \<and>
    (\<exists>K m2. exported library (ordinal (request_at m req)) K \<and>
       run_groups (group_call K (dispatch_state_of (request_at m req)) (request_at m req))
         (workgroup_grid (request_at m req)) (started req m) = Some (0, m2) \<and>
       m1 = set_status req STATUS_COMPLETE (set_return_code req 0 m2))"
proof (cases "request_ready (request_at m req) \<and> (\<exists>K. exported library (ordinal (request_at m req)) K)")
  case False
  then obtain code m2 where f: "firmware_main library req m = Some (coralnpu_dispatch_fail req code m2)"
    and c: "code \<in> {- 1, - 2, - 3, - 4}" using firmware_reject[OF assms(1)] by blast
  have "code \<noteq> 0" using c by auto
  then show ?thesis using f assms(3) by (auto simp: request_failed[OF assms(1)])
next
  case True
  then obtain K where K: "exported library (ordinal (request_at m req)) K" by blast
  obtain res m2 where g: "run_groups (group_call K (dispatch_state_of (request_at m req)) (request_at m req))
      (workgroup_grid (request_at m req)) (started req m) = Some (res, m2)"
    and m1: "m1 = (if res \<noteq> 0 then coralnpu_dispatch_fail req res m2
      else set_status req STATUS_COMPLETE (set_return_code req 0 m2))"
    using assms(3) firmware_run[OF assms(1) _ K, of] True assms(2) K
    by (auto simp: bind_eq_Some_conv split: if_splits)
  show ?thesis
  proof (cases "res = 0")
    case True2: True
    then show ?thesis using True K g m1
      by (auto simp: request_set_status[OF assms(1)] request_set_return_code[OF assms(1)])
  qed (use m1 in \<open>simp add: request_failed[OF assms(1)]\<close>)
qed

lemma firmware_outcome_witness:
  "\<exists>m1. firmware_main (Some (Some [Some store_x])) 0x10000 small_memory = Some m1 \<and>
     status (request_at m1 0x10000) = STATUS_COMPLETE \<and> m1 0x80000000 = 1"
proof -
  have K: "exported (Some (Some [Some store_x])) (ordinal small_request) K \<longleftrightarrow> K = store_x" for K
    by (auto simp: exported_def small_request_def)
  have r: "request_ready small_request" by (simp add: request_ready_def small_request_def status_codes CORALNPU_DISPATCH_VERSION_def)
  have u: "unat (0x10000 :: 32 word) + sizeof_request \<le> 2 ^ 32" by (simp add: sizeof_request_def)
  obtain m2 where m2: "firmware_main (Some (Some [Some store_x])) 0x10000 small_memory =
      Some (set_status 0x10000 STATUS_COMPLETE (set_return_code 0x10000 0 m2))" "m2 0x80000000 = 1"
    using firmware_run[OF u, of small_memory "Some (Some [Some store_x])" store_x] store_x_keeps r K
    by (simp add: small_request_at small_grid group_call_def store_x_def write_mem_def workgroup_state_of_def)
  define m1 where "m1 = set_status 0x10000 STATUS_COMPLETE (set_return_code 0x10000 0 m2)"
  have x: "m1 0x80000000 = 1" by (simp add: m1_def set_status_def set_return_code_def write_mem_def m2(2))
  have e: "status (request_at m1 0x10000) \<noteq> STATUS_ERROR"
    by (simp add: m1_def request_set_status[OF u] status_codes)
  have k: "\<forall>K. exported (Some (Some [Some store_x])) (ordinal (request_at small_memory 0x10000)) K \<longrightarrow>
      keeps_request K 0x10000" using K store_x_keeps by (simp add: small_request_at)
  have run: "firmware_main (Some (Some [Some store_x])) 0x10000 small_memory = Some m1"
    unfolding m1_def by (rule m2(1))
  have "status (request_at m1 0x10000) = STATUS_COMPLETE"
    using firmware_outcome[OF u k run] e by (elim disjE conjE) simp_all
  then show ?thesis using run x by (intro exI conjI)
qed

end
