(* ===== verification/SimDispatch.thy ===== *)
theory SimDispatch
  imports Firmware
begin

text \<open>
  A dispatch on the simulator (\<open>runtime/sim/simulator_inline.c\<close>): the two bump
  allocators, whose common contract is the locale \<open>bump_allocator\<close>, the
  preparation of the request and its tables, the run, and the read back of the
  bindings. Host memory is a function from addresses to bytes, so that bindings
  may overlap; the arrays a dispatch state points to are lists, a null pointer
  \<open>None\<close>, and reading past their end a trap.
\<close>

section \<open>Steps on the memory of the core\<close>

type_synonym ('m, 'a) core_step = "'m \<Rightarrow> 'a status \<times> 'm"

definition ret :: "'a \<Rightarrow> ('m, 'a) core_step" where
  "ret x m = (OkS x, m)"

definition fail_with :: "status_code \<Rightarrow> ('m, 'a) core_step" where
  "fail_with e m = (ErrS e, m)"

definition lift :: "'a status \<Rightarrow> ('m, 'a) core_step" where
  "lift s m = (s, m)"

definition run_step :: "('m \<Rightarrow> 'm) \<Rightarrow> ('m, unit) core_step" where
  "run_step f m = (OkS (), f m)"

definition next_step :: "('m, 'a) core_step \<Rightarrow> ('a \<Rightarrow> ('m, 'b) core_step) \<Rightarrow> ('m, 'b) core_step" where
  "next_step f g m = (case f m of (OkS x, m1) \<Rightarrow> g x m1 | (ErrS e, m1) \<Rightarrow> (ErrS e, m1) | (TrapS, m1) \<Rightarrow> (TrapS, m1))"

named_theorems core_steps

lemma core_step_simps [core_steps]:
  "ret x m = (OkS x, m)" "fail_with e m = (ErrS e, m)" "lift s m = (s, m)" "run_step f m = (OkS (), f m)"
  by (simp_all add: ret_def fail_with_def lift_def run_step_def)

lemma next_step_simps [core_steps]:
  "f m = (OkS x, m1) \<Longrightarrow> next_step f g m = g x m1"
  "next_step (ret x) g m = g x m" "next_step (run_step h) k m = k () (h m)" "next_step (fail_with e) g m = (ErrS e, m)"
  by (simp_all add: next_step_def ret_def run_step_def fail_with_def)

lemma next_step_OkS [core_steps]:
  "next_step f g m = (OkS y, m2) \<longleftrightarrow> (\<exists>x m1. f m = (OkS x, m1) \<and> g x m1 = (OkS y, m2))"
  by (auto simp: next_step_def split: prod.splits status.splits)

section \<open>Allocation\<close>

definition align_up :: "32 word \<Rightarrow> 32 word \<Rightarrow> 64 word" where
  "align_up cursor alignment = (ucast cursor + ucast alignment - 1) AND NOT (ucast alignment - 1)"

definition allocate_dtcm :: "32 word \<Rightarrow> 32 word \<Rightarrow> 32 word \<Rightarrow> 64 word \<Rightarrow> (32 word \<times> 32 word) status" where
  "allocate_dtcm cursor heap_end alignment sz =
    (let aligned = align_up cursor alignment; allocation_end = aligned + sz
     in if allocation_end < aligned \<or> ucast heap_end < allocation_end then ErrS RESOURCE_EXHAUSTED
        else OkS (ucast aligned, ucast allocation_end))"

definition allocate_ddr :: "32 word \<Rightarrow> 32 word \<Rightarrow> 64 word \<Rightarrow> (32 word \<times> 32 word) status" where
  "allocate_ddr cursor alignment sz =
    (let aligned = align_up cursor alignment; allocation_end = aligned + sz
     in if allocation_end < aligned \<or> 0xC0000000 < allocation_end then ErrS RESOURCE_EXHAUSTED
        else OkS (ucast aligned, ucast allocation_end))"

text \<open>The least multiple of \<open>a\<close> that is not below \<open>c\<close>.\<close>

definition round_up :: "nat \<Rightarrow> nat \<Rightarrow> nat" where
  "round_up c a = (c + a - 1) div a * a"

lemma round_up_ge:
  assumes "0 < a"
  shows "c \<le> round_up c a"
proof -
  have "(c + a - 1) div a * a + (c + a - 1) mod a = c + a - 1" by (rule div_mult_mod_eq)
  moreover have "(c + a - 1) mod a < a" using assms by (rule mod_less_divisor)
  ultimately show ?thesis unfolding round_up_def using assms by linarith
qed

lemma and_not_mask:
  fixes x :: "'a::len word"
  shows "x AND NOT (mask k) = push_bit k (drop_bit k x)"
  by (rule bit_word_eqI) (auto simp: bit_and_iff bit_not_iff bit_mask_iff bit_push_bit_iff bit_drop_bit_eq)

lemma unat_and_not_mask:
  fixes x :: "'a::len word"
  shows "unat (x AND NOT (mask k)) = unat x div 2 ^ k * 2 ^ k"
proof -
  have "unat x div 2 ^ k * 2 ^ k \<le> unat x" by simp
  also have "\<dots> < 2 ^ LENGTH('a)" by (rule unsigned_less)
  finally have small: "unat x div 2 ^ k * 2 ^ k < 2 ^ LENGTH('a)" .
  have "unat (push_bit k (drop_bit k x)) =
      take_bit LENGTH('a) (push_bit k (drop_bit k (take_bit LENGTH('a) (unat x))))"
    by (simp only: unsigned_push_bit_eq unsigned_drop_bit_eq)
  also have "take_bit LENGTH('a) (unat x) = unat x" by (simp add: take_bit_nat_eq_self)
  finally show ?thesis
    unfolding and_not_mask using small by (simp only: push_bit_eq_mult drop_bit_eq_div take_bit_nat_eq_self)
qed

lemma unat_align_up:
  assumes "k < 32"
  shows "unat (align_up c (2 ^ k)) = round_up (unat c) (2 ^ k)"
proof -
  have pow: "(2::nat) ^ k < 2 ^ 32" using assms by (rule power_strict_increasing) simp
  have u: "unat (2 ^ k :: 32 word) = 2 ^ k" using assms by transfer (simp add: take_bit_nat_eq_self nat_power_eq)
  have c: "unat c < 2 ^ 32" using unsigned_less[of c, where 'a = nat] by simp
  have m: "ucast (2 ^ k :: 32 word) - 1 = (mask k :: 64 word)"
  proof -
    have "unat (2 ^ k :: 64 word) = 2 ^ k" using assms by transfer (simp add: take_bit_nat_eq_self nat_power_eq)
    then have "ucast (2 ^ k :: 32 word) = (2 ^ k :: 64 word)" by (simp only: word_unat_eq_iff unat_up u)
    then show ?thesis by (simp only: mask_eq_exp_minus_1)
  qed
  have ua: "unat (ucast (2 ^ k :: 32 word) :: 64 word) = 2 ^ k" by (simp only: unat_up u)
  have sum: "unat (ucast c + ucast (2 ^ k :: 32 word) :: 64 word) = unat c + 2 ^ k"
    by (simp only: unat_word_ariths(1) unat_up u) (use c pow in simp)
  have "(1 :: 64 word) \<le> ucast c + ucast (2 ^ k :: 32 word)"
    unfolding word_le_nat_alt sum by (simp add: Suc_le_eq)
  then have "unat (ucast c + ucast (2 ^ k :: 32 word) - 1 :: 64 word) = unat c + 2 ^ k - 1"
    by (simp add: unat_sub sum)
  then show ?thesis
    unfolding align_up_def m by (simp only: unat_and_not_mask round_up_def)
qed

lemma round_up_bound: "k < 32 \<Longrightarrow> c < 2 ^ 32 \<Longrightarrow> round_up c (2 ^ k) < 2 ^ 33"
proof -
  assume k: "k < 32" "c < 2 ^ 32"
  have "(2::nat) ^ k < 2 ^ 32" using k(1) by (rule power_strict_increasing) simp
  moreover have "round_up c (2 ^ k) \<le> c + 2 ^ k - 1" by (simp add: round_up_def)
  ultimately show ?thesis using k(2) by simp
qed

text \<open>The wrap-around test and the limit test together compare exact sums.\<close>

lemma allocation_fits:
  fixes sz limit :: "64 word" and c :: "32 word"
  assumes "k < 32" "unat limit \<le> 2 ^ 32"
  defines "A \<equiv> align_up c (2 ^ k)"
  shows "(A + sz < A \<or> limit < A + sz) \<longleftrightarrow> unat limit < round_up (unat c) (2 ^ k) + unat sz"
    and "\<not> unat limit < round_up (unat c) (2 ^ k) + unat sz \<Longrightarrow>
      unat (A + sz) = round_up (unat c) (2 ^ k) + unat sz"
proof -
  have a: "unat A = round_up (unat c) (2 ^ k)" unfolding A_def by (rule unat_align_up[OF assms(1)])
  have small: "unat A < 2 ^ 33" using round_up_bound[OF assms(1), of "unat c"] unsigned_less[of c, where 'a = nat] a by simp
  have s: "unat sz < 2 ^ 64" using unsigned_less[of sz, where 'a = nat] by simp
  have e: "unat (A + sz) = (if unat A + unat sz < 2 ^ 64 then unat A + unat sz else unat A + unat sz - 2 ^ 64)"
    using small s by (simp add: unat_plus_if')
  show "(A + sz < A \<or> limit < A + sz) \<longleftrightarrow> unat limit < round_up (unat c) (2 ^ k) + unat sz"
    using e small s assms(2) unfolding word_less_nat_alt a[symmetric] by (auto split: if_splits)
  show "\<not> unat limit < round_up (unat c) (2 ^ k) + unat sz \<Longrightarrow> unat (A + sz) = round_up (unat c) (2 ^ k) + unat sz"
    using e small s assms(2) unfolding a[symmetric] by (auto split: if_splits)
qed

text \<open>Allocating one block after another.\<close>

fun alloc_seq :: "(32 word \<Rightarrow> 32 word \<Rightarrow> 64 word \<Rightarrow> (32 word \<times> 32 word) status) \<Rightarrow> nat \<Rightarrow> 64 word list \<Rightarrow>
    32 word \<Rightarrow> 32 word list status" where
  "alloc_seq alloc k [] c = OkS []"
| "alloc_seq alloc k (n # ns) c =
     sbind (alloc c (2 ^ k) n) (\<lambda>(a, c1). sbind (alloc_seq alloc k ns c1) (\<lambda>as1. OkS (a # as1)))"

locale bump_allocator =
  fixes alloc :: "32 word \<Rightarrow> 32 word \<Rightarrow> 64 word \<Rightarrow> (32 word \<times> 32 word) status"
    and limit :: nat
  assumes alloc_spec: "k < 32 \<Longrightarrow> alloc c (2 ^ k) n =
      (if limit < round_up (unat c) (2 ^ k) + unat n then ErrS RESOURCE_EXHAUSTED
       else OkS (of_nat (round_up (unat c) (2 ^ k)), of_nat (round_up (unat c) (2 ^ k) + unat n)))"
    and limit_bound: "limit < 2 ^ 32"
begin

lemma alloc_block:
  assumes "k < 32" "alloc c (2 ^ k) n = OkS (p, c1)"
  shows "unat c \<le> unat p" "2 ^ k dvd unat p" "unat c1 = unat p + unat n" "unat p + unat n \<le> limit"
proof -
  let ?a = "round_up (unat c) (2 ^ k)"
  have le: "?a + unat n \<le> limit" and p: "p = of_nat ?a" and c1: "c1 = of_nat (?a + unat n)"
    using assms by (auto simp: alloc_spec split: if_splits)
  have up: "unat p = ?a" using le limit_bound by (simp only: p) (simp add: unat_of_nat)
  show "unat c \<le> unat p" using round_up_ge[of "2 ^ k" "unat c"] by (simp add: up)
  show "2 ^ k dvd unat p" by (simp add: up round_up_def)
  have "unat (of_nat (?a + unat n) :: 32 word) = ?a + unat n"
    using le limit_bound by (simp only: unat_of_nat) simp
  then show "unat c1 = unat p + unat n" using c1 up by simp
  show "unat p + unat n \<le> limit" using le up by simp
qed

lemma alloc_exhausted:
  assumes "k < 32"
  shows "alloc c (2 ^ k) n = ErrS RESOURCE_EXHAUSTED \<longleftrightarrow> limit < round_up (unat c) (2 ^ k) + unat n"
    "alloc c (2 ^ k) n \<noteq> TrapS" "alloc c (2 ^ k) n = ErrS e \<Longrightarrow> e = RESOURCE_EXHAUSTED"
  using assms by (auto simp: alloc_spec split: if_splits)

lemma alloc_seq_apart:
  assumes "k < 32"
  shows "alloc_seq alloc k ns c = OkS as1 \<Longrightarrow> length as1 = length ns \<and>
    (\<forall>j < length ns. unat c \<le> unat (as1 ! j) \<and> 2 ^ k dvd unat (as1 ! j) \<and> unat (as1 ! j) + unat (ns ! j) \<le> limit) \<and>
    sorted_wrt (\<lambda>(a, n) (b, _). unat a + unat n \<le> unat b) (zip as1 ns)"
proof (induction ns arbitrary: c as1)
  case (Cons n ns)
  then obtain a c1 as2 where a: "alloc c (2 ^ k) n = OkS (a, c1)" and r: "alloc_seq alloc k ns c1 = OkS as2"
    and as1: "as1 = a # as2" by (auto simp: sbind_OkS)
  note b = alloc_block[OF assms a]
  note ih = Cons.IH[OF r]
  have "unat a + unat n \<le> unat x" if "(x, y) \<in> set (zip as2 ns)" for x y
    using that ih b by (fastforce simp: set_zip)
  moreover have "unat c \<le> unat (as1 ! j) \<and> 2 ^ k dvd unat (as1 ! j) \<and> unat (as1 ! j) + unat ((n # ns) ! j) \<le> limit"
    if "j < length (n # ns)" for j
    using that ih b by (cases j) (fastforce simp: as1)+
  ultimately show ?case using ih by (auto simp: as1)
qed simp

end

lemma of_nat_unat_ucast: "unat (x :: 64 word) = n \<Longrightarrow> (ucast x :: 32 word) = of_nat n"
  by (metis of_nat_unat)

interpretation ddr: bump_allocator allocate_ddr "0xC0000000"
proof
  fix c n k assume k: "k < (32 :: nat)"
  have l: "unat (0xC0000000 :: 64 word) \<le> 2 ^ 32" by simp
  note f = allocation_fits[OF k l, of c n]
  show "allocate_ddr c (2 ^ k) n =
      (if 0xC0000000 < round_up (unat c) (2 ^ k) + unat n then ErrS RESOURCE_EXHAUSTED
       else OkS (of_nat (round_up (unat c) (2 ^ k)), of_nat (round_up (unat c) (2 ^ k) + unat n)))"
    using f of_nat_unat_ucast[OF unat_align_up[OF k, of c]] of_nat_unat_ucast[OF f(2)]
    by (simp add: allocate_ddr_def Let_def)
qed simp

interpretation dtcm: bump_allocator "\<lambda>c. allocate_dtcm c heap_end" "unat heap_end" for heap_end
proof
  fix c n k assume k: "k < (32 :: nat)"
  have l: "unat (ucast heap_end :: 64 word) \<le> 2 ^ 32" unfolding unat_up by (rule unat_le_32)
  note f = allocation_fits[OF k l, of c n]
  show "allocate_dtcm c heap_end (2 ^ k) n =
      (if unat heap_end < round_up (unat c) (2 ^ k) + unat n then ErrS RESOURCE_EXHAUSTED
       else OkS (of_nat (round_up (unat c) (2 ^ k)), of_nat (round_up (unat c) (2 ^ k) + unat n)))"
    using f of_nat_unat_ucast[OF unat_align_up[OF k, of c]] of_nat_unat_ucast[OF f(2)]
    by (simp add: allocate_dtcm_def Let_def unat_up)
qed (use unsigned_less[of heap_end, where 'a = nat] in simp)

section \<open>The dispatch\<close>

definition write_mem_u32 :: "'m core_api \<Rightarrow> 32 word \<Rightarrow> 32 word \<Rightarrow> 'm \<Rightarrow> 'm" where
  "write_mem_u32 S address value m =
     simulator_write_mem S address
       [ucast (value AND 0xFF), ucast (drop_bit 8 value AND 0xFF),
        ucast (drop_bit 16 value AND 0xFF), ucast (drop_bit 24 value AND 0xFF)] m"

function zero_mem :: "'m core_api \<Rightarrow> 32 word \<Rightarrow> nat \<Rightarrow> 'm \<Rightarrow> 'm" where
  "zero_mem S address sz m =
    (if sz = 0 then m
     else let chunk = (if sz < 256 then sz else 256)
          in zero_mem S (address + of_nat chunk) (sz - chunk) (simulator_write_mem S address (replicate chunk 0) m))"
  by pat_completeness auto

termination
  by (relation "measure (\<lambda>(S, a, n, m). n)") auto

declare zero_mem.simps [simp del]

type_synonym host = "nat \<Rightarrow> 8 word"

text \<open>The dispatch state the runtime passes, with the field widths of IREE's header.\<close>

record host_state =
  hs_size_x :: "32 word"
  hs_size_y :: "32 word"
  hs_size_z :: "16 word"
  hs_count_x :: "32 word"
  hs_count_y :: "32 word"
  hs_count_z :: "16 word"
  hs_max_concurrency :: "8 word"
  hs_constant_count :: "16 word"
  hs_constants :: "32 word list option"
  hs_binding_count :: "8 word"
  hs_binding_ptrs :: "nat option list option"
  hs_binding_lengths :: "64 word list option"

definition element :: "'a list option \<Rightarrow> nat \<Rightarrow> 'a status" where
  "element xs i = (case xs of None \<Rightarrow> TrapS | Some l \<Rightarrow> if i < length l then OkS (l ! i) else TrapS)"

fun write_constants :: "'m core_api \<Rightarrow> host_state \<Rightarrow> 32 word \<Rightarrow> nat list \<Rightarrow> ('m, unit) core_step" where
  "write_constants S st a [] = ret ()"
| "write_constants S st a (i # is1) =
     next_step (lift (element (hs_constants st) i)) (\<lambda>c.
     next_step (run_step (write_mem_u32 S (a + of_nat i * 4) c)) (\<lambda>_.
     write_constants S st a is1))"

definition place_constants :: "'m core_api \<Rightarrow> elf_layout \<Rightarrow> host_state \<Rightarrow> ('m, 32 word \<times> 32 word) core_step" where
  "place_constants S L st =
    (if hs_constant_count st \<noteq> 0
     then next_step (lift (allocate_dtcm (heap_start_addr L) (heap_end_addr L) 4 (ucast (hs_constant_count st) * 4)))
       (\<lambda>(a, cursor). next_step (write_constants S st a [0..<unat (hs_constant_count st)]) (\<lambda>_. ret (a, cursor)))
     else ret (0, heap_start_addr L))"

definition reserve_tables :: "elf_layout \<Rightarrow> host_state \<Rightarrow> 32 word \<Rightarrow> (32 word \<times> 32 word \<times> 32 word) status" where
  "reserve_tables L st cursor =
    (if hs_binding_count st \<noteq> 0
     then sbind (allocate_dtcm cursor (heap_end_addr L) 4 (ucast (hs_binding_count st) * 4)) (\<lambda>(ptrs, cursor1).
          sbind (allocate_dtcm cursor1 (heap_end_addr L) 4 (ucast (hs_binding_count st) * 4)) (\<lambda>(lens, cursor2).
            OkS (ptrs, lens, cursor2)))
     else OkS (0, 0, cursor))"

definition place_local :: "'m core_api \<Rightarrow> elf_layout \<Rightarrow> 64 word \<Rightarrow> 32 word \<Rightarrow> ('m, 32 word) core_step" where
  "place_local S L local_length cursor =
    (if local_length \<noteq> 0
     then next_step (lift (allocate_dtcm cursor (heap_end_addr L) 64 local_length))
       (\<lambda>(a, _). next_step (run_step (zero_mem S a (unat local_length))) (\<lambda>_. ret a))
     else ret 0)"

definition UINT32_MAX :: "64 word" where "UINT32_MAX = 0xFFFFFFFF"

definition host_bytes :: "host \<Rightarrow> nat \<Rightarrow> nat \<Rightarrow> 8 word list" where
  "host_bytes h p n = map (\<lambda>i. h (p + i)) [0..<n]"

definition place_binding :: "'m core_api \<Rightarrow> host_state \<Rightarrow> host \<Rightarrow> 32 word \<Rightarrow> 32 word \<Rightarrow> nat \<Rightarrow> 32 word \<Rightarrow>
    ('m, 32 word) core_step" where
  "place_binding S st h ptrs lens i cursor =
    next_step (lift (element (hs_binding_ptrs st) i)) (\<lambda>binding_ptr.
    next_step (lift (element (hs_binding_lengths st) i)) (\<lambda>len.
      if UINT32_MAX < len then fail_with RESOURCE_EXHAUSTED
      else if len \<noteq> 0 \<and> binding_ptr = None then fail_with INVALID_ARGUMENT
      else next_step (lift (allocate_ddr cursor 64 len)) (\<lambda>(a, cursor1).
           next_step (run_step (write_mem_u32 S (ptrs + of_nat i * 4) a)) (\<lambda>_.
           next_step (run_step (write_mem_u32 S (lens + of_nat i * 4) (ucast len))) (\<lambda>_.
           next_step (case binding_ptr of
               Some p \<Rightarrow> if len \<noteq> 0 then run_step (simulator_write_mem S a (host_bytes h p (unat len))) else ret ()
             | None \<Rightarrow> ret ()) (\<lambda>_. ret cursor1))))))"

fun place_bindings :: "'m core_api \<Rightarrow> host_state \<Rightarrow> host \<Rightarrow> 32 word \<Rightarrow> 32 word \<Rightarrow> nat list \<Rightarrow> 32 word \<Rightarrow>
    ('m, unit) core_step" where
  "place_bindings S st h ptrs lens [] cursor = ret ()"
| "place_bindings S st h ptrs lens (i # is1) cursor =
     next_step (place_binding S st h ptrs lens i cursor) (\<lambda>cursor1. place_bindings S st h ptrs lens is1 cursor1)"

definition base_request :: "host_state \<Rightarrow> 64 word \<Rightarrow> dispatch_request" where
  "base_request st ord = \<lparr>magic = CORALNPU_DISPATCH_MAGIC, version = CORALNPU_DISPATCH_VERSION,
     status = STATUS_READY, return_code = 0,
     workgroup_size_x = hs_size_x st, workgroup_size_y = hs_size_y st, workgroup_size_z = ucast (hs_size_z st),
     workgroup_count_x = hs_count_x st, workgroup_count_y = hs_count_y st, workgroup_count_z = ucast (hs_count_z st),
     max_concurrency = ucast (hs_max_concurrency st), push_constant_count = ucast (hs_constant_count st),
     binding_count = hs_binding_count st, ordinal = ucast ord,
     push_constants_addr = 0, binding_ptrs_addr = 0, binding_lengths_addr = 0, local_memory_addr = 0\<rparr>"

definition prepare :: "'m core_api \<Rightarrow> elf_layout \<Rightarrow> host_state \<Rightarrow> 64 word \<Rightarrow> 64 word \<Rightarrow> host \<Rightarrow>
    ('m, dispatch_request) core_step" where
  "prepare S L st ord local_length h =
    next_step (place_constants S L st) (\<lambda>(constants, cursor1).
    next_step (lift (reserve_tables L st cursor1)) (\<lambda>(ptrs, lens, cursor2).
    next_step (place_local S L local_length cursor2) (\<lambda>local_memory.
    next_step (place_bindings S st h ptrs lens [0..<unat (hs_binding_count st)] 0x80000000) (\<lambda>_.
      let r = (base_request st ord)\<lparr>push_constants_addr := constants, binding_ptrs_addr := ptrs,
                binding_lengths_addr := lens, local_memory_addr := local_memory\<rparr>
      in next_step (run_step (simulator_write_mem S (dispatch_request_addr L) (encode_request r))) (\<lambda>_. ret r)))))"

definition check_request :: "dispatch_request \<Rightarrow> unit status" where
  "check_request r =
    (if magic r \<noteq> CORALNPU_DISPATCH_MAGIC \<or> version r \<noteq> CORALNPU_DISPATCH_VERSION then ErrS DATA_LOSS
     else if status r \<noteq> STATUS_COMPLETE then ErrS INTERNAL
     else if return_code r \<noteq> 0 then ErrS INTERNAL
     else OkS ())"

definition host_write :: "nat \<Rightarrow> 8 word list \<Rightarrow> host \<Rightarrow> host" where
  "host_write p bs h = (\<lambda>x. if p \<le> x \<and> x < p + length bs then bs ! (x - p) else h x)"

definition writes_back :: "bool list option \<Rightarrow> nat \<Rightarrow> bool status" where
  "writes_back writeable i = (case writeable of None \<Rightarrow> OkS True | Some _ \<Rightarrow> element writeable i)"

fun read_back :: "'m core_api \<Rightarrow> host_state \<Rightarrow> bool list option \<Rightarrow> 'm \<Rightarrow> nat list \<Rightarrow> 32 word \<Rightarrow> host \<Rightarrow>
    unit status \<times> host" where
  "read_back S st writeable m [] cursor h = (OkS (), h)"
| "read_back S st writeable m (i # is1) cursor h =
    (case sbind (element (hs_binding_ptrs st) i) (\<lambda>binding_ptr.
          sbind (element (hs_binding_lengths st) i) (\<lambda>len.
          sbind (allocate_ddr cursor 64 len) (\<lambda>(a, cursor1).
          sbind (if len \<noteq> 0 then writes_back writeable i else OkS False) (\<lambda>back.
            if back then (case binding_ptr of None \<Rightarrow> TrapS | Some p \<Rightarrow> OkS (cursor1, Some (p, a, len)))
            else OkS (cursor1, None))))) of
       ErrS e \<Rightarrow> (ErrS e, h)
     | TrapS \<Rightarrow> (TrapS, h)
     | OkS (cursor1, None) \<Rightarrow> read_back S st writeable m is1 cursor1 h
     | OkS (cursor1, Some (p, a, len)) \<Rightarrow>
         read_back S st writeable m is1 cursor1 (host_write p (simulator_read_mem S a (unat len) m) h))"

definition arguments_ok :: "host_state \<Rightarrow> 64 word \<Rightarrow> unit status" where
  "arguments_ok st ord =
    (if UINT32_MAX < ord then ErrS OUT_OF_RANGE
     else if hs_constant_count st \<noteq> 0 \<and> hs_constants st = None then ErrS INVALID_ARGUMENT
     else if hs_binding_count st \<noteq> 0 \<and> (hs_binding_ptrs st = None \<or> hs_binding_lengths st = None)
       then ErrS INVALID_ARGUMENT
     else OkS ())"

definition load_and_prepare :: "'m core_api \<Rightarrow> image \<Rightarrow> host_state \<Rightarrow> 64 word \<Rightarrow> 64 word \<Rightarrow> host \<Rightarrow>
    ('m, elf_layout \<times> dispatch_request) core_step" where
  "load_and_prepare S img st ord local_length h =
    next_step (lift (arguments_ok st ord)) (\<lambda>_.
    next_step (load_elf_with_layout S img) (\<lambda>L.
      if unat (dispatch_request_size L) \<noteq> sizeof_request then fail_with FAILED_PRECONDITION
      else next_step (prepare S L st ord local_length h) (\<lambda>r. ret (L, r))))"

text \<open>\<open>None\<close> when the core does not halt.\<close>

definition issue_dispatch :: "'m core_api \<Rightarrow> image \<Rightarrow> host_state \<Rightarrow> bool list option \<Rightarrow> 64 word \<Rightarrow> 64 word \<Rightarrow> 'm \<Rightarrow>
    host \<Rightarrow> (unit status \<times> 'm \<times> host) option" where
  "issue_dispatch S img st writeable ord local_length m h =
    (case load_and_prepare S img st ord local_length h m of
       (ErrS e, m1) \<Rightarrow> Some (ErrS e, m1, h)
     | (TrapS, m1) \<Rightarrow> Some (TrapS, m1, h)
     | (OkS (L, _), m1) \<Rightarrow>
       (case core_run S (start_pc L) m1 of
          None \<Rightarrow> None
        | Some m2 \<Rightarrow>
          (case check_request (decode_request (simulator_read_mem S (dispatch_request_addr L) sizeof_request m2)) of
             ErrS e \<Rightarrow> Some (ErrS e, m2, h)
           | TrapS \<Rightarrow> Some (TrapS, m2, h)
           | OkS _ \<Rightarrow>
             (case read_back S st writeable m2 [0..<unat (hs_binding_count st)] 0x80000000 h of
                (s, h1) \<Rightarrow> Some (s, m2, h1)))))"

section \<open>Words in memory\<close>

text \<open>The \<open>i\<close>-th word of a table, and the bytes of its entries \<open>i\<close> up to \<open>n\<close>.\<close>

definition word_at :: "memory \<Rightarrow> 32 word \<Rightarrow> nat \<Rightarrow> 32 word" where
  "word_at M a i = le_word (read_mem (a + of_nat i * 4) 4 M)"

definition in_table :: "32 word \<Rightarrow> nat \<Rightarrow> nat \<Rightarrow> 32 word \<Rightarrow> bool" where
  "in_table a i n x \<longleftrightarrow> unat a + 4 * i \<le> unat x \<and> unat x < unat a + 4 * n"

lemma write_mem_u32_bytes: "write_mem_u32 S a v m = core_write S a (le_bytes 4 v) m"
proof -
  have "[ucast (v AND 0xFF), ucast (drop_bit 8 v AND 0xFF), ucast (drop_bit 16 v AND 0xFF), ucast (drop_bit 24 v AND 0xFF)] =
      (le_bytes 4 v :: 8 word list)"
  proof -
    have m: "ucast (x AND 0xFF) = (ucast x :: 8 word)" for x :: "32 word"
    proof -
      have e: "(0xFF :: 32 word) = mask 8" by (simp add: mask_eq_exp_minus_1)
      show ?thesis unfolding e by (rule bit_word_eqI) (simp add: bit_ucast_iff bit_and_iff bit_mask_iff)
    qed
    have "[0..<4] = [0, 1, 2, 3::nat]" by code_simp
    then show ?thesis by (simp add: le_bytes_def m)
  qed
  then show ?thesis by (simp add: write_mem_u32_def simulator_write_mem_def)
qed

lemma table_address:
  assumes "unat a + 4 * i + 4 \<le> 2 ^ 32"
  shows "unat (a + of_nat i * 4 :: 32 word) = unat a + 4 * i"
proof -
  have "(of_nat i * 4 :: 32 word) = of_nat (4 * i)" by simp
  then show ?thesis using unat_add_small[of a "4 * i"] assms by (simp add: mult.commute)
qed

lemma read_mem_cong:
  assumes "unat a + n \<le> 2 ^ 32" "\<And>x. in_range a n x \<Longrightarrow> M1 x = M x"
  shows "read_mem a n M1 = read_mem a n M"
  using assms by (auto intro!: nth_equalityI simp: read_mem_def in_range_def unat_add_small)

lemma word_at_cong:
  assumes "unat a + 4 * i + 4 \<le> 2 ^ 32" "\<And>x. in_table a i (Suc i) x \<Longrightarrow> M1 x = M x"
  shows "word_at M1 a i = word_at M a i"
  unfolding word_at_def
proof (rule arg_cong[where f = le_word], rule read_mem_cong)
  note u = table_address[OF assms(1)]
  show "unat (a + of_nat i * 4) + 4 \<le> 2 ^ 32" using assms(1) by (simp only: u)
  fix x assume "in_range (a + of_nat i * 4) 4 x"
  then show "M1 x = M x" by (intro assms(2)) (simp add: in_table_def in_range_def u)
qed

lemma word_at_write:
  assumes "unat a + 4 * i + 4 \<le> 2 ^ 32"
  shows "word_at (write_mem (a + of_nat i * 4) (le_bytes 4 v) M) a i = v"
    and "\<not> in_table a i (Suc i) x \<Longrightarrow> write_mem (a + of_nat i * 4) (le_bytes 4 v) M x = M x"
proof -
  note u = table_address[OF assms]
  have b: "unat (a + of_nat i * 4) + length (le_bytes 4 v) \<le> 2 ^ 32" using assms by (simp only: u) simp
  show "word_at (write_mem (a + of_nat i * 4) (le_bytes 4 v) M) a i = v"
    using read_write_same[OF b, of M] by (simp add: word_at_def le_word_bytes)
  show "write_mem (a + of_nat i * 4) (le_bytes 4 v) M x = M x" if "\<not> in_table a i (Suc i) x"
    using that by (simp only: write_mem_at[OF b]) (auto simp: in_range_def in_table_def u)
qed

lemma zero_mem_all:
  assumes "core_ok S"
  shows "unat a + n \<le> 2 ^ 32 \<Longrightarrow> core_byte S (zero_mem S a n m) = write_mem a (replicate n 0) (core_byte S m)"
proof (induction n arbitrary: a m rule: less_induct)
  case (less n)
  show ?case
  proof (cases "n = 0")
    case False
    define c where "c = (if n < 256 then n else (256::nat))"
    have c: "0 < c" "c \<le> n" using False by (auto simp: c_def)
    let ?m1 = "core_write S a (replicate c 0) m"
    have step: "zero_mem S a n m = zero_mem S (a + of_nat c) (n - c) ?m1"
      using False unfolding c_def by (subst zero_mem.simps) (simp only: Let_def if_False simulator_write_mem_def)
    have "core_byte S (zero_mem S (a + of_nat c) (n - c) ?m1) =
        write_mem (a + of_nat c) (replicate (n - c) 0) (core_byte S ?m1)"
    proof (cases "n - c = 0")
      case False2: False
      then have "unat (a + of_nat c) = unat a + c" using less.prems by (intro unat_add_small) linarith
      then show ?thesis using less.prems c by (intro less.IH) auto
    qed (simp add: zero_mem.simps)
    then show ?thesis
      using write_mem_append[of a "replicate c 0" "replicate (n - c) 0" "core_byte S m"] c less.prems
      by (simp add: step core_laws[OF assms] replicate_add[symmetric])
  qed (simp add: zero_mem.simps)
qed

section \<open>What the preparation writes\<close>

lemma write_constants_spec:
  assumes "core_ok S" "unat a + 4 * n \<le> 2 ^ 32"
  shows "i \<le> n \<Longrightarrow> write_constants S st a [i..<n] m = (OkS (), m1) \<Longrightarrow>
    (\<forall>j. i \<le> j \<longrightarrow> j < n \<longrightarrow> element (hs_constants st) j = OkS (word_at (core_byte S m1) a j)) \<and>
    (\<forall>x. \<not> in_table a i n x \<longrightarrow> core_byte S m1 x = core_byte S m x)"
proof (induction "n - i" arbitrary: i m)
  case 0
  then show ?case by (simp add: core_steps)
next
  case (Suc k)
  then have lt: "i < n" by simp
  obtain c where c: "element (hs_constants st) i = OkS c"
    and rest: "write_constants S st a [Suc i..<n] (write_mem_u32 S (a + of_nat i * 4) c m) = (OkS (), m1)"
    using Suc.prems(2) lt by (auto simp: upt_conv_Cons core_steps)
  let ?w = "write_mem_u32 S (a + of_nat i * 4) c m"
  have fit: "unat a + 4 * i + 4 \<le> 2 ^ 32" using lt assms(2) by simp
  have w: "core_byte S ?w = write_mem (a + of_nat i * 4) (le_bytes 4 c) (core_byte S m)"
    by (simp add: write_mem_u32_bytes core_laws[OF assms(1)])
  have ih: "\<And>j. Suc i \<le> j \<Longrightarrow> j < n \<Longrightarrow> element (hs_constants st) j = OkS (word_at (core_byte S m1) a j)"
    "\<And>x. \<not> in_table a (Suc i) n x \<Longrightarrow> core_byte S m1 x = core_byte S ?w x"
    using Suc.hyps(1)[OF _ _ rest] Suc.hyps(2) lt by auto
  have "word_at (core_byte S m1) a i = word_at (core_byte S ?w) a i"
    by (rule word_at_cong[OF fit]) (simp add: ih(2) in_table_def)
  then have here: "element (hs_constants st) i = OkS (word_at (core_byte S m1) a i)"
    using c by (simp add: w word_at_write[OF fit])
  show ?case
  proof (intro conjI allI impI)
    fix j assume "i \<le> j" "j < n"
    then show "element (hs_constants st) j = OkS (word_at (core_byte S m1) a j)"
      using here ih(1)[of j] by (cases "j = i") auto
  next
    fix x assume x: "\<not> in_table a i n x"
    then have "\<not> in_table a (Suc i) n x" "\<not> in_table a i (Suc i) x" using lt by (auto simp: in_table_def)
    then show "core_byte S m1 x = core_byte S m x" by (simp add: ih(2) w word_at_write(2)[OF fit])
  qed
qed

text \<open>The allocations of the bindings alone, and what it means that a binding is in place.\<close>

fun ddr_addresses :: "host_state \<Rightarrow> nat list \<Rightarrow> 32 word \<Rightarrow> 32 word list status" where
  "ddr_addresses st [] cursor = OkS []"
| "ddr_addresses st (i # is1) cursor =
     sbind (element (hs_binding_lengths st) i) (\<lambda>len.
     sbind (allocate_ddr cursor 64 len) (\<lambda>(a, cursor1).
     sbind (ddr_addresses st is1 cursor1) (\<lambda>as1. OkS (a # as1))))"

definition binding_placed :: "host_state \<Rightarrow> host \<Rightarrow> memory \<Rightarrow> 32 word \<Rightarrow> 32 word \<Rightarrow> nat \<Rightarrow> 32 word \<Rightarrow> bool" where
  "binding_placed st h M ptrs lens j a \<longleftrightarrow>
     (\<exists>p len. element (hs_binding_ptrs st) j = OkS p \<and> element (hs_binding_lengths st) j = OkS len \<and>
        word_at M ptrs j = a \<and> word_at M lens j = ucast len \<and> 64 dvd unat a \<and> 0x80000000 \<le> unat a \<and>
        unat a + unat len \<le> 0xC0000000 \<and>
        (len \<noteq> 0 \<longrightarrow> (\<exists>q. p = Some q \<and> read_mem a (unat len) M = host_bytes h q (unat len))))"

text \<open>The tables: room for \<open>n\<close> entries each, below the DDR and apart from each other.\<close>

definition tables_apart :: "32 word \<Rightarrow> 32 word \<Rightarrow> nat \<Rightarrow> bool" where
  "tables_apart ptrs lens n \<longleftrightarrow> unat ptrs + 4 * n \<le> 0x80000000 \<and> unat lens + 4 * n \<le> 0x80000000 \<and>
     (unat ptrs + 4 * n \<le> unat lens \<or> unat lens + 4 * n \<le> unat ptrs)"

lemma binding_placed_cong:
  assumes "binding_placed st h M ptrs lens j a" "tables_apart ptrs lens n" "j < n"
    "element (hs_binding_lengths st) j = OkS len"
    "\<And>x. in_table ptrs j (Suc j) x \<or> in_table lens j (Suc j) x \<or> in_range a (unat len) x \<Longrightarrow> M1 x = M x"
  shows "binding_placed st h M1 ptrs lens j a"
proof -
  have fit: "unat ptrs + 4 * j + 4 \<le> 2 ^ 32" "unat lens + 4 * j + 4 \<le> 2 ^ 32"
    using assms(2,3) by (auto simp: tables_apart_def)
  have "word_at M1 ptrs j = word_at M ptrs j" by (rule word_at_cong[OF fit(1)]) (simp add: assms(5))
  moreover have "word_at M1 lens j = word_at M lens j" by (rule word_at_cong[OF fit(2)]) (simp add: assms(5))
  moreover have "read_mem a (unat len) M1 = read_mem a (unat len) M" if "unat a + unat len \<le> 0xC0000000"
    using that by (intro read_mem_cong) (auto simp: assms(5))
  ultimately show ?thesis using assms(1,4) unfolding binding_placed_def by auto
qed

lemma alloc_ddr_64: "allocate_ddr c 64 n = OkS (a, c1) \<Longrightarrow>
    unat c \<le> unat a \<and> 64 dvd unat a \<and> unat c1 = unat a + unat n \<and> unat a + unat n \<le> 0xC0000000"
  using ddr.alloc_block[of 6 c n a c1] by simp

lemma host_bytes_length [simp]: "length (host_bytes h p n) = n"
  by (simp add: host_bytes_def)

lemma place_binding_OkS:
  assumes "place_binding S st h ptrs lens i cursor m = (OkS cursor1, m1)"
  obtains bp len a where "element (hs_binding_ptrs st) i = OkS bp" "element (hs_binding_lengths st) i = OkS len"
    "len \<noteq> 0 \<longrightarrow> bp \<noteq> None" "allocate_ddr cursor 64 len = OkS (a, cursor1)"
    "m1 = (let w = write_mem_u32 S (lens + of_nat i * 4) (ucast len) (write_mem_u32 S (ptrs + of_nat i * 4) a m)
        in if len = 0 then w else simulator_write_mem S a (host_bytes h (the bp) (unat len)) w)"
proof -
  obtain bp where bp: "element (hs_binding_ptrs st) i = OkS bp"
    using assms by (cases "element (hs_binding_ptrs st) i") (simp_all add: place_binding_def next_step_def core_step_simps)
  obtain len where len: "element (hs_binding_lengths st) i = OkS len"
    using assms bp by (cases "element (hs_binding_lengths st) i") (simp_all add: place_binding_def next_step_def core_step_simps)
  have "\<not> UINT32_MAX < len"
  proof
    assume "UINT32_MAX < len"
    then show False using assms bp len by (simp add: place_binding_def next_step_def core_step_simps)
  qed
  moreover have "\<not> (len \<noteq> 0 \<and> bp = None)"
  proof
    assume "len \<noteq> 0 \<and> bp = None"
    then show False using assms bp len calculation by (simp add: place_binding_def next_step_def core_step_simps)
  qed
  ultimately have g: "\<not> UINT32_MAX < len" "\<not> (len \<noteq> 0 \<and> bp = None)" .
  obtain a c where a: "allocate_ddr cursor 64 len = OkS (a, c)"
    using assms bp len g by (cases "allocate_ddr cursor 64 len") (auto simp: place_binding_def next_step_def core_step_simps)
  note r = assms[unfolded place_binding_def bp len next_step_def core_step_simps prod.case status.case a if_not_P[OF g(1)] if_not_P[OF g(2)]]
  show ?thesis
  proof (rule that[OF bp len])
    show "len \<noteq> 0 \<longrightarrow> bp \<noteq> None" using g(2) by auto
    show "allocate_ddr cursor 64 len = OkS (a, cursor1)"
      using r a by (cases bp; cases "len = 0") (simp_all add: core_step_simps)
    show "m1 = (let w = write_mem_u32 S (lens + of_nat i * 4) (ucast len) (write_mem_u32 S (ptrs + of_nat i * 4) a m)
        in if len = 0 then w else simulator_write_mem S a (host_bytes h (the bp) (unat len)) w)"
      using r g(2) by (cases bp; cases "len = 0") (simp_all add: core_step_simps Let_def)
  qed
qed

lemma place_binding_spec:
  assumes "core_ok S" "tables_apart ptrs lens n" "i < n" "0x80000000 \<le> unat cursor"
    "place_binding S st h ptrs lens i cursor m = (OkS cursor1, m1)"
  shows "\<exists>a len. element (hs_binding_lengths st) i = OkS len \<and> allocate_ddr cursor 64 len = OkS (a, cursor1) \<and>
    binding_placed st h (core_byte S m1) ptrs lens i a \<and>
    (\<forall>x. \<not> in_table ptrs i (Suc i) x \<longrightarrow> \<not> in_table lens i (Suc i) x \<longrightarrow> \<not> in_range a (unat len) x \<longrightarrow>
       core_byte S m1 x = core_byte S m x)"
proof -
  obtain bp len a where e: "element (hs_binding_ptrs st) i = OkS bp" "element (hs_binding_lengths st) i = OkS len"
    and g: "len \<noteq> 0 \<longrightarrow> bp \<noteq> None" and a: "allocate_ddr cursor 64 len = OkS (a, cursor1)"
    and m1: "m1 = (let w = write_mem_u32 S (lens + of_nat i * 4) (ucast len) (write_mem_u32 S (ptrs + of_nat i * 4) a m)
        in if len = 0 then w else simulator_write_mem S a (host_bytes h (the bp) (unat len)) w)"
    using assms(5) by (rule place_binding_OkS)
  note b = alloc_ddr_64[OF a]
  have fit: "unat ptrs + 4 * i + 4 \<le> 2 ^ 32" "unat lens + 4 * i + 4 \<le> 2 ^ 32"
    using assms(2,3) by (auto simp: tables_apart_def)
  define M1 where "M1 = write_mem (ptrs + of_nat i * 4) (le_bytes 4 a) (core_byte S m)"
  define M2 where "M2 = write_mem (lens + of_nat i * 4) (le_bytes 4 (ucast len :: 32 word)) M1"
  have M: "core_byte S m1 = (if len = 0 then M2 else write_mem a (host_bytes h (the bp) (unat len)) M2)"
    by (simp add: m1 Let_def M1_def M2_def write_mem_u32_bytes simulator_write_mem_def core_laws[OF assms(1)])
  have w1: "word_at M1 ptrs i = a" "\<And>x. \<not> in_table ptrs i (Suc i) x \<Longrightarrow> M1 x = core_byte S m x"
    unfolding M1_def by (rule word_at_write[OF fit(1)])+
  have w2: "word_at M2 lens i = ucast len" "\<And>x. \<not> in_table lens i (Suc i) x \<Longrightarrow> M2 x = M1 x"
    unfolding M2_def by (rule word_at_write[OF fit(2)])+
  have room: "unat a + length (host_bytes h (the bp) (unat len)) \<le> 2 ^ 32" using b by simp
  have w3: "core_byte S m1 x = M2 x" if "\<not> in_range a (unat len) x" for x
    using that write_mem_at[OF room, of M2 x] by (cases "len = 0") (simp_all add: M)
  have p: "word_at (core_byte S m1) ptrs i = a"
  proof -
    have "core_byte S m1 x = M1 x" if "in_table ptrs i (Suc i) x" for x
    proof -
      have "\<not> in_table lens i (Suc i) x" "\<not> in_range a (unat len) x"
        using that assms(2-4) b by (auto simp: in_table_def in_range_def tables_apart_def)
      then show ?thesis using w2 w3 by simp
    qed
    then have "word_at (core_byte S m1) ptrs i = word_at M1 ptrs i" by (rule word_at_cong[OF fit(1)])
    then show ?thesis by (simp only: w1(1))
  qed
  have l: "word_at (core_byte S m1) lens i = ucast len"
  proof -
    have "core_byte S m1 x = M2 x" if "in_table lens i (Suc i) x" for x
      using that assms(2-4) b by (intro w3) (auto simp: in_table_def in_range_def tables_apart_def)
    then have "word_at (core_byte S m1) lens i = word_at M2 lens i" by (rule word_at_cong[OF fit(2)])
    then show ?thesis by (simp only: w2(1))
  qed
  have d: "\<exists>q. bp = Some q \<and> read_mem a (unat len) (core_byte S m1) = host_bytes h q (unat len)" if "len \<noteq> 0"
    using g that read_write_same[OF room, of M2] by (auto simp: M)
  have "binding_placed st h (core_byte S m1) ptrs lens i a"
    unfolding binding_placed_def using e p l d b assms(4) by auto
  moreover have "\<forall>x. \<not> in_table ptrs i (Suc i) x \<longrightarrow> \<not> in_table lens i (Suc i) x \<longrightarrow> \<not> in_range a (unat len) x \<longrightarrow>
       core_byte S m1 x = core_byte S m x" using w1(2) w2(2) w3 by simp
  ultimately show ?thesis using e(2) a by blast
qed

lemma place_bindings_spec:
  assumes "core_ok S" "tables_apart ptrs lens n"
  shows "i \<le> n \<Longrightarrow> 0x80000000 \<le> unat cursor \<Longrightarrow> place_bindings S st h ptrs lens [i..<n] cursor m = (OkS (), m1) \<Longrightarrow>
    \<exists>as1. ddr_addresses st [i..<n] cursor = OkS as1 \<and>
      list_all2 (binding_placed st h (core_byte S m1) ptrs lens) [i..<n] as1 \<and>
      (\<forall>x. \<not> in_table ptrs i n x \<longrightarrow> \<not> in_table lens i n x \<longrightarrow> unat x < unat cursor \<or> 0xC0000000 \<le> unat x \<longrightarrow>
         core_byte S m1 x = core_byte S m x)"
proof (induction "n - i" arbitrary: i cursor m)
  case 0
  then show ?case by (simp add: core_steps)
next
  case (Suc k)
  then have lt: "i < n" by simp
  obtain cursor1 m2 where here: "place_binding S st h ptrs lens i cursor m = (OkS cursor1, m2)"
    and rest: "place_bindings S st h ptrs lens [Suc i..<n] cursor1 m2 = (OkS (), m1)"
    using Suc.prems(3) lt by (auto simp: upt_conv_Cons next_step_OkS)
  obtain a len where al: "element (hs_binding_lengths st) i = OkS len" "allocate_ddr cursor 64 len = OkS (a, cursor1)"
    and pl: "binding_placed st h (core_byte S m2) ptrs lens i a"
    and fr: "\<And>x. \<not> in_table ptrs i (Suc i) x \<Longrightarrow> \<not> in_table lens i (Suc i) x \<Longrightarrow> \<not> in_range a (unat len) x \<Longrightarrow>
       core_byte S m2 x = core_byte S m x"
    using place_binding_spec[OF assms lt Suc.prems(2) here] by blast
  note b = alloc_ddr_64[OF al(2)]
  obtain as1 where ih: "ddr_addresses st [Suc i..<n] cursor1 = OkS as1"
      "list_all2 (binding_placed st h (core_byte S m1) ptrs lens) [Suc i..<n] as1"
    and fr1: "\<And>x. \<not> in_table ptrs (Suc i) n x \<Longrightarrow> \<not> in_table lens (Suc i) n x \<Longrightarrow>
        unat x < unat cursor1 \<or> 0xC0000000 \<le> unat x \<Longrightarrow> core_byte S m1 x = core_byte S m2 x"
  proof -
    have "k = n - Suc i" "Suc i \<le> n" "0x80000000 \<le> unat cursor1" using Suc.hyps(2) Suc.prems(2) lt b by linarith+
    from Suc.hyps(1)[OF this rest] show ?thesis using that by blast
  qed
  have keep: "core_byte S m1 x = core_byte S m2 x"
    if "in_table ptrs i (Suc i) x \<or> in_table lens i (Suc i) x \<or> in_range a (unat len) x" for x
    using that assms(2) lt b Suc.prems(2) by (intro fr1) (auto simp: in_table_def in_range_def tables_apart_def)
  have "binding_placed st h (core_byte S m1) ptrs lens i a"
    by (rule binding_placed_cong[OF pl assms(2) lt al(1)]) (rule keep)
  then have l: "list_all2 (binding_placed st h (core_byte S m1) ptrs lens) [i..<n] (a # as1)"
    using ih(2) lt by (simp add: upt_conv_Cons)
  have d: "ddr_addresses st [i..<n] cursor = OkS (a # as1)" using al ih(1) lt by (simp add: upt_conv_Cons)
  show ?case
  proof (intro exI conjI allI impI)
    show "ddr_addresses st [i..<n] cursor = OkS (a # as1)" by (rule d)
    show "list_all2 (binding_placed st h (core_byte S m1) ptrs lens) [i..<n] (a # as1)" by (rule l)
    fix x assume x: "\<not> in_table ptrs i n x" "\<not> in_table lens i n x" "unat x < unat cursor \<or> 0xC0000000 \<le> unat x"
    have "core_byte S m1 x = core_byte S m2 x"
      using x b lt by (intro fr1) (auto simp: in_table_def)
    also have "\<dots> = core_byte S m x"
      using x b lt by (intro fr) (auto simp: in_table_def in_range_def)
    finally show "core_byte S m1 x = core_byte S m x" .
  qed
qed

text \<open>A span of addresses, and the stages that write the heap of the firmware.\<close>

definition span :: "32 word \<Rightarrow> 32 word \<Rightarrow> 32 word \<Rightarrow> bool" where
  "span a b x \<longleftrightarrow> unat a \<le> unat x \<and> unat x < unat b"

lemma alloc_dtcm:
  "allocate_dtcm c e 4 n = OkS (a, c1) \<Longrightarrow> unat c \<le> unat a \<and> unat c1 = unat a + unat n \<and> unat a + unat n \<le> unat e"
  "allocate_dtcm c e 64 n = OkS (a, c1) \<Longrightarrow>
    unat c \<le> unat a \<and> unat c1 = unat a + unat n \<and> unat a + unat n \<le> unat e \<and> 64 dvd unat a"
  using dtcm.alloc_block[of 2 c e n a c1] dtcm.alloc_block[of 6 c e n a c1] by simp_all

lemma unat_count_16: "unat (ucast (n :: 16 word) * 4 :: 64 word) = 4 * unat n"
proof -
  have "unat n < 2 ^ 16" using unsigned_less[of n, where 'a = nat] by simp
  moreover have "unat (ucast n :: 64 word) = unat n" using calculation by (simp add: unsigned_ucast_eq take_bit_nat_eq_self)
  ultimately show ?thesis by (simp add: unat_word_ariths)
qed

lemma unat_count_8: "unat (ucast (n :: 8 word) * 4 :: 64 word) = 4 * unat n"
proof -
  have "unat n < 2 ^ 8" using unsigned_less[of n, where 'a = nat] by simp
  moreover have "unat (ucast n :: 64 word) = unat n" using calculation by (simp add: unsigned_ucast_eq take_bit_nat_eq_self)
  ultimately show ?thesis by (simp add: unat_word_ariths)
qed

lemma place_constants_spec:
  assumes "core_ok S" "place_constants S L st m = (OkS (a, cursor), m1)" "heap_start_addr L \<le> heap_end_addr L"
  shows "unat (heap_start_addr L) \<le> unat cursor \<and> unat cursor \<le> unat (heap_end_addr L) \<and>
    (hs_constant_count st \<noteq> 0 \<longrightarrow> unat (heap_start_addr L) \<le> unat a \<and> unat a + 4 * unat (hs_constant_count st) = unat cursor) \<and>
    (\<forall>j < unat (hs_constant_count st). element (hs_constants st) j = OkS (word_at (core_byte S m1) a j)) \<and>
    (\<forall>x. \<not> span (heap_start_addr L) cursor x \<longrightarrow> core_byte S m1 x = core_byte S m x)"
proof (cases "hs_constant_count st = 0")
  case True
  then show ?thesis using assms(2,3) by (auto simp: place_constants_def core_steps word_le_nat_alt)
next
  case False
  let ?n = "unat (hs_constant_count st)"
  have al: "allocate_dtcm (heap_start_addr L) (heap_end_addr L) 4 (ucast (hs_constant_count st) * 4) = OkS (a, cursor)"
    and w: "write_constants S st a [0..<?n] m = (OkS (), m1)"
    using assms(2) False by (auto simp: place_constants_def next_step_OkS core_step_simps)
  note b = alloc_dtcm(1)[OF al, unfolded unat_count_16]
  have fit: "unat a + 4 * ?n \<le> 2 ^ 32" using b unat_le_32[of "heap_end_addr L"] by linarith
  note sp = write_constants_spec[OF assms(1) fit _ w]
  have "core_byte S m1 x = core_byte S m x" if "\<not> span (heap_start_addr L) cursor x" for x
  proof -
    have "\<not> in_table a 0 ?n x" using that b by (auto simp: span_def in_table_def)
    then show ?thesis using sp by simp
  qed
  then show ?thesis using b sp by auto
qed

lemma reserve_tables_spec:
  assumes "reserve_tables L st cursor = OkS (ptrs, lens, cursor1)" "unat cursor \<le> unat (heap_end_addr L)"
  shows "unat cursor \<le> unat cursor1 \<and> unat cursor1 \<le> unat (heap_end_addr L) \<and>
    (hs_binding_count st \<noteq> 0 \<longrightarrow> unat cursor \<le> unat ptrs \<and> unat ptrs + 4 * unat (hs_binding_count st) \<le> unat lens \<and>
       unat lens + 4 * unat (hs_binding_count st) = unat cursor1)"
proof (cases "hs_binding_count st = 0")
  case False
  then obtain c where a1: "allocate_dtcm cursor (heap_end_addr L) 4 (ucast (hs_binding_count st) * 4) = OkS (ptrs, c)"
    and a2: "allocate_dtcm c (heap_end_addr L) 4 (ucast (hs_binding_count st) * 4) = OkS (lens, cursor1)"
    using assms(1) by (auto simp: reserve_tables_def sbind_OkS)
  show ?thesis using alloc_dtcm(1)[OF a1] alloc_dtcm(1)[OF a2] unfolding unat_count_8 by linarith
qed (use assms in \<open>simp add: reserve_tables_def\<close>)

lemma tables_reserved:
  assumes "reserve_tables L st cursor = OkS (ptrs, lens, cursor1)" "unat cursor \<le> unat (heap_end_addr L)"
    "unat (heap_end_addr L) \<le> 0x18000"
  shows "tables_apart ptrs lens (unat (hs_binding_count st))"
proof (cases "hs_binding_count st = 0")
  case True
  then show ?thesis using assms(1) by (auto simp: reserve_tables_def tables_apart_def)
qed (use reserve_tables_spec[OF assms(1,2)] assms(3) in \<open>auto simp: tables_apart_def\<close>)

lemma place_local_spec:
  assumes "core_ok S" "place_local S L n cursor m = (OkS a, m1)" "unat cursor \<le> unat (heap_end_addr L)"
  shows "(n \<noteq> 0 \<longrightarrow> unat cursor \<le> unat a \<and> 64 dvd unat a \<and> unat a + unat n \<le> unat (heap_end_addr L) \<and>
      read_mem a (unat n) (core_byte S m1) = replicate (unat n) 0) \<and>
    (\<forall>x. \<not> span cursor (heap_end_addr L) x \<longrightarrow> core_byte S m1 x = core_byte S m x)"
proof (cases "n = 0")
  case False
  obtain c where al: "allocate_dtcm cursor (heap_end_addr L) 64 n = OkS (a, c)" and m1: "m1 = zero_mem S a (unat n) m"
    using assms(2) False by (auto simp: place_local_def next_step_OkS core_step_simps)
  note b = alloc_dtcm(2)[OF al]
  have fit: "unat a + unat n \<le> 2 ^ 32" using b unat_le_32[of "heap_end_addr L"] by linarith
  have M: "core_byte S m1 = write_mem a (replicate (unat n) 0) (core_byte S m)"
    by (simp add: m1 zero_mem_all[OF assms(1) fit])
  have "core_byte S m1 x = core_byte S m x" if "\<not> span cursor (heap_end_addr L) x" for x
    using that b fit by (auto simp: M write_mem_at span_def in_range_def)
  then show ?thesis using b fit read_write_same[of a "replicate (unat n) 0" "core_byte S m"] by (simp add: M)
qed (use assms in \<open>simp add: place_local_def core_steps\<close>)

text \<open>The request lies apart from the heap, and has the size of the structure.\<close>

definition request_apart :: "elf_layout \<Rightarrow> bool" where
  "request_apart L \<longleftrightarrow> unat (dispatch_request_size L) = sizeof_request \<and>
     (unat (dispatch_request_addr L) + sizeof_request \<le> unat (heap_start_addr L) \<or>
      unat (heap_end_addr L) \<le> unat (dispatch_request_addr L))"

text \<open>What the core finds in memory.\<close>

definition dispatch_in_memory :: "host_state \<Rightarrow> 64 word \<Rightarrow> host \<Rightarrow> 64 word \<Rightarrow> elf_layout \<Rightarrow> dispatch_request \<Rightarrow> memory \<Rightarrow> bool" where
  "dispatch_in_memory st ord h local_length L r M \<longleftrightarrow>
     request_at M (dispatch_request_addr L) = r \<and>
     r = (base_request st ord)\<lparr>push_constants_addr := push_constants_addr r, binding_ptrs_addr := binding_ptrs_addr r,
       binding_lengths_addr := binding_lengths_addr r, local_memory_addr := local_memory_addr r\<rparr> \<and>
     (\<forall>j < unat (hs_constant_count st). element (hs_constants st) j = OkS (word_at M (push_constants_addr r) j)) \<and>
     (\<exists>as1. ddr_addresses st [0..<unat (hs_binding_count st)] 0x80000000 = OkS as1 \<and>
        list_all2 (binding_placed st h M (binding_ptrs_addr r) (binding_lengths_addr r)) [0..<unat (hs_binding_count st)] as1) \<and>
     (local_length \<noteq> 0 \<longrightarrow> 64 dvd unat (local_memory_addr r) \<and>
        read_mem (local_memory_addr r) (unat local_length) M = replicate (unat local_length) 0)"

lemma write_request_other:
  assumes "layout_ok L" "unat (dispatch_request_size L) = sizeof_request"
    "\<not> in_range (dispatch_request_addr L) sizeof_request x"
  shows "write_mem (dispatch_request_addr L) (encode_request r) M x = M x"
  using assms by (subst write_mem_at) (auto simp: layout_ok_def)

lemma prepare_stages:
  assumes "prepare S L st ord local_length h m = (OkS r, m1)"
  obtains pc c1 ma ptrs lens c2 la mc md where
    "place_constants S L st m = (OkS (pc, c1), ma)"
    "reserve_tables L st c1 = OkS (ptrs, lens, c2)"
    "place_local S L local_length c2 ma = (OkS la, mc)"
    "place_bindings S st h ptrs lens [0..<unat (hs_binding_count st)] 0x80000000 mc = (OkS (), md)"
    "r = (base_request st ord)\<lparr>push_constants_addr := pc, binding_ptrs_addr := ptrs,
      binding_lengths_addr := lens, local_memory_addr := la\<rparr>"
    "m1 = simulator_write_mem S (dispatch_request_addr L) (encode_request r) md"
  using assms by (force simp: prepare_def next_step_OkS core_step_simps Let_def)

text \<open>Later writes that spare a region keep what is in it.\<close>

lemma constants_survive:
  assumes "\<forall>j < n. cs j = OkS (word_at M a j)" "unat a + 4 * n \<le> 2 ^ 32"
    "\<And>x. in_table a 0 n x \<Longrightarrow> M1 x = M x"
  shows "\<forall>j < n. cs j = OkS (word_at M1 a j)"
proof (intro allI impI)
  fix j assume j: "j < n"
  have "word_at M1 a j = word_at M a j"
    by (rule word_at_cong) (use j assms(2,3) in \<open>auto simp: in_table_def\<close>)
  then show "cs j = OkS (word_at M1 a j)" using assms(1) j by simp
qed

lemma bindings_survive:
  assumes "list_all2 (binding_placed st h M ptrs lens) [0..<n] as1" "tables_apart ptrs lens n"
    "\<And>x. in_table ptrs 0 n x \<or> in_table lens 0 n x \<or> 0x80000000 \<le> unat x \<Longrightarrow> M1 x = M x"
  shows "list_all2 (binding_placed st h M1 ptrs lens) [0..<n] as1"
  using assms(1)
proof (rule list.rel_mono_strong)
  fix j a assume j: "j \<in> set [0..<n]" and pl: "binding_placed st h M ptrs lens j a"
  then obtain len where len: "element (hs_binding_lengths st) j = OkS len"
    and a: "0x80000000 \<le> unat a" by (auto simp: binding_placed_def)
  show "binding_placed st h M1 ptrs lens j a"
  proof (rule binding_placed_cong[OF pl assms(2) _ len])
    show "j < n" using j by simp
    fix x assume "in_table ptrs j (Suc j) x \<or> in_table lens j (Suc j) x \<or> in_range a (unat len) x"
    then show "M1 x = M x" using j a by (intro assms(3)) (auto simp: in_table_def in_range_def)
  qed
qed

text \<open>What the stages of a preparation leave in memory once the request is written, and where it differs
  from before the bindings were placed.\<close>

lemma prepare_frame:
  assumes S: "core_ok S" and L: "layout_ok L" "request_apart L"
    and s1: "place_constants S L st m = (OkS (pc, c1), ma)" and s2: "reserve_tables L st c1 = OkS (ptrs, lens, c2)"
    and s4: "place_bindings S st h ptrs lens [0..<unat (hs_binding_count st)] 0x80000000 mc = (OkS (), md)"
    and m1: "m1 = simulator_write_mem S (dispatch_request_addr L) (encode_request r) md"
  shows "request_at (core_byte S m1) (dispatch_request_addr L) = r"
    and "\<exists>as1. ddr_addresses st [0..<unat (hs_binding_count st)] 0x80000000 = OkS as1 \<and>
      list_all2 (binding_placed st h (core_byte S m1) ptrs lens) [0..<unat (hs_binding_count st)] as1"
    and "span (heap_start_addr L) (heap_end_addr L) x \<Longrightarrow> \<not> span c1 c2 x \<Longrightarrow> core_byte S m1 x = core_byte S mc x"
proof -
  let ?nb = "unat (hs_binding_count st)" and ?ra = "dispatch_request_addr L"
  have hl: "heap_start_addr L \<le> heap_end_addr L" "unat (heap_end_addr L) \<le> 0x18000" "0x10000 \<le> unat ?ra"
    "unat ?ra + sizeof_request \<le> 0x18000"
    using L by (auto simp: layout_ok_def request_apart_def)
  note p1 = place_constants_spec[OF S s1 hl(1)]
  note p2 = reserve_tables_spec[OF s2 p1[THEN conjunct2, THEN conjunct1]]
  note ta = tables_reserved[OF s2 p1[THEN conjunct2, THEN conjunct1] hl(2)]
  obtain as1 where as1: "ddr_addresses st [0..<?nb] 0x80000000 = OkS as1"
      "list_all2 (binding_placed st h (core_byte S md) ptrs lens) [0..<?nb] as1"
    and fd: "\<And>x. \<not> in_table ptrs 0 ?nb x \<Longrightarrow> \<not> in_table lens 0 ?nb x \<Longrightarrow>
        unat x < 0x80000000 \<or> 0xC0000000 \<le> unat x \<Longrightarrow> core_byte S md x = core_byte S mc x"
    using place_bindings_spec[OF S ta _ _ s4] by auto
  have M1: "core_byte S m1 = write_mem ?ra (encode_request r) (core_byte S md)"
    by (simp add: m1 simulator_write_mem_def core_laws[OF S])
  show "request_at (core_byte S m1) ?ra = r"
    unfolding M1 using hl by (intro request_at_written) simp
  have f1: "core_byte S m1 x = core_byte S md x" if "\<not> in_range ?ra sizeof_request x" for x
    unfolding M1 using L by (intro write_request_other[OF L(1) _ that]) (simp add: request_apart_def)
  have heap: "\<not> in_range ?ra sizeof_request x" if "span (heap_start_addr L) (heap_end_addr L) x" for x
    using that L(2) by (auto simp: request_apart_def span_def in_range_def)
  have tab: "span c1 c2 x" if t: "in_table ptrs 0 ?nb x \<or> in_table lens 0 ?nb x" for x
  proof -
    have "hs_binding_count st \<noteq> 0" using t by (auto simp: in_table_def)
    then show ?thesis using t p2 by (auto simp: in_table_def span_def)
  qed
  show "core_byte S m1 x = core_byte S mc x" if "span (heap_start_addr L) (heap_end_addr L) x" "\<not> span c1 c2 x"
    using f1[OF heap[OF that(1)]] fd[of x] that tab hl(2) by (auto simp: span_def)
  have "core_byte S m1 x = core_byte S md x" if "in_table ptrs 0 ?nb x \<or> in_table lens 0 ?nb x \<or> 0x80000000 \<le> unat x" for x
  proof (rule f1)
    have "span c1 c2 x \<or> 0x80000000 \<le> unat x" using tab that by blast
    then show "\<not> in_range ?ra sizeof_request x" using heap[of x] p1 p2 hl by (auto simp: span_def in_range_def)
  qed
  then show "\<exists>as1. ddr_addresses st [0..<?nb] 0x80000000 = OkS as1 \<and>
      list_all2 (binding_placed st h (core_byte S m1) ptrs lens) [0..<?nb] as1"
    using as1(1) bindings_survive[OF as1(2) ta] by blast
qed

lemma prepare_spec:
  assumes S: "core_ok S" and L: "layout_ok L" "request_apart L"
    and run: "prepare S L st ord local_length h m = (OkS r, m1)"
  shows "dispatch_in_memory st ord h local_length L r (core_byte S m1)"
proof -
  let ?nb = "unat (hs_binding_count st)" and ?nc = "unat (hs_constant_count st)" and ?ra = "dispatch_request_addr L"
  obtain pc c1 ma ptrs lens c2 la mc md where s1: "place_constants S L st m = (OkS (pc, c1), ma)"
    and s2: "reserve_tables L st c1 = OkS (ptrs, lens, c2)" and s3: "place_local S L local_length c2 ma = (OkS la, mc)"
    and s4: "place_bindings S st h ptrs lens [0..<?nb] 0x80000000 mc = (OkS (), md)"
    and r: "r = (base_request st ord)\<lparr>push_constants_addr := pc, binding_ptrs_addr := ptrs,
      binding_lengths_addr := lens, local_memory_addr := la\<rparr>"
    and m1: "m1 = simulator_write_mem S ?ra (encode_request r) md"
    using run by (rule prepare_stages)
  have hl: "heap_start_addr L \<le> heap_end_addr L" "unat (heap_end_addr L) \<le> 0x18000"
    using L by (auto simp: layout_ok_def request_apart_def)
  note p1 = place_constants_spec[OF S s1 hl(1)]
  note p2 = reserve_tables_spec[OF s2 p1[THEN conjunct2, THEN conjunct1]]
  note p3 = place_local_spec[OF S s3 p2[THEN conjunct2, THEN conjunct1]]
  note frame = prepare_frame[OF S L s1 s2 s4 m1]
  have "\<forall>j < ?nc. element (hs_constants st) j = OkS (word_at (core_byte S m1) pc j)"
  proof (rule constants_survive)
    show "\<forall>j < ?nc. element (hs_constants st) j = OkS (word_at (core_byte S ma) pc j)" using p1 by blast
    show "unat pc + 4 * ?nc \<le> 2 ^ 32" using p1 unat_le_32[of pc] unat_le_32[of c1] by (cases "?nc = 0") auto
    fix x assume x: "in_table pc 0 ?nc x"
    then have "hs_constant_count st \<noteq> 0" by (auto simp: in_table_def)
    then have s: "span (heap_start_addr L) c1 x" using p1 x by (auto simp: in_table_def span_def)
    then have "core_byte S m1 x = core_byte S mc x" using p1 by (intro frame(3)) (auto simp: span_def)
    also have "\<dots> = core_byte S ma x" using p3 p2 s by (auto simp: span_def)
    finally show "core_byte S m1 x = core_byte S ma x" .
  qed
  moreover have "64 dvd unat la \<and> read_mem la (unat local_length) (core_byte S m1) = replicate (unat local_length) 0"
    if nz: "local_length \<noteq> 0"
  proof -
    have b: "unat c2 \<le> unat la" "64 dvd unat la" "unat la + unat local_length \<le> unat (heap_end_addr L)"
      "read_mem la (unat local_length) (core_byte S mc) = replicate (unat local_length) 0" using p3 nz by auto
    have "read_mem la (unat local_length) (core_byte S m1) = read_mem la (unat local_length) (core_byte S mc)"
      by (rule read_mem_cong) (use b hl p1 p2 in \<open>auto intro!: frame(3) simp: in_range_def span_def\<close>)
    then show ?thesis using b by simp
  qed
  ultimately show ?thesis using frame(1,2) by (auto simp: dispatch_in_memory_def r)
qed

section \<open>Reading back\<close>

text \<open>What the read back of one binding does to host memory.\<close>

definition bound_write :: "host_state \<Rightarrow> bool list option \<Rightarrow> memory \<Rightarrow> nat \<times> 32 word \<Rightarrow> host \<Rightarrow> host" where
  "bound_write st writeable M = (\<lambda>(i, a) h.
     case (element (hs_binding_ptrs st) i, element (hs_binding_lengths st) i) of
       (OkS (Some p), OkS len) \<Rightarrow>
         if len \<noteq> 0 \<and> writes_back writeable i = OkS True then host_write p (read_mem a (unat len) M) h else h
     | _ \<Rightarrow> h)"

definition writeable_ok :: "bool list option \<Rightarrow> nat \<Rightarrow> bool" where
  "writeable_ok writeable n \<longleftrightarrow> (case writeable of None \<Rightarrow> True | Some w \<Rightarrow> n \<le> length w)"

definition binding_ready :: "host_state \<Rightarrow> nat \<Rightarrow> bool" where
  "binding_ready st i \<longleftrightarrow> (\<exists>p len. element (hs_binding_ptrs st) i = OkS p \<and>
     element (hs_binding_lengths st) i = OkS len \<and> (len \<noteq> 0 \<longrightarrow> p \<noteq> None))"

lemma writes_back_ok: "writeable_ok writeable n \<Longrightarrow> i < n \<Longrightarrow> \<exists>b. writes_back writeable i = OkS b"
  by (auto simp: writeable_ok_def writes_back_def element_def split: option.splits)

lemma read_back_fold:
  assumes "core_ok S" "writeable_ok writeable n"
  shows "\<forall>i \<in> set is1. i < n \<and> binding_ready st i \<Longrightarrow> ddr_addresses st is1 cursor = OkS as1 \<Longrightarrow>
    read_back S st writeable m is1 cursor h =
      (OkS (), fold (bound_write st writeable (core_byte S m)) (zip is1 as1) h)"
proof (induction is1 arbitrary: cursor as1 h)
  case (Cons i is1)
  obtain bp len where e: "element (hs_binding_ptrs st) i = OkS bp" "element (hs_binding_lengths st) i = OkS len"
    "len \<noteq> 0 \<longrightarrow> bp \<noteq> None" using Cons.prems(1) by (auto simp: binding_ready_def)
  obtain a c1 as2 where a: "allocate_ddr cursor 64 len = OkS (a, c1)" "ddr_addresses st is1 c1 = OkS as2" "as1 = a # as2"
    using Cons.prems(2) e(2) by (auto simp: sbind_OkS)
  obtain b where b: "writes_back writeable i = OkS b"
    using writes_back_ok[OF assms(2), of i] Cons.prems(1) by auto
  have ih: "read_back S st writeable m is1 c1 h1 =
      (OkS (), fold (bound_write st writeable (core_byte S m)) (zip is1 as2) h1)" for h1
    using Cons.IH[OF _ a(2)] Cons.prems(1) by simp
  show ?case
  proof (cases "len \<noteq> 0 \<and> b")
    case True
    then obtain p where "bp = Some p" using e(3) by auto
    then show ?thesis using True e a b ih
      by (simp add: bound_write_def simulator_read_mem_def core_laws[OF assms(1)])
  next
    case False
    then show ?thesis using e a b ih by (cases bp; cases "len = 0") (simp_all add: bound_write_def)
  qed
qed simp

lemma placed_ready: "binding_placed st h M ptrs lens i a \<Longrightarrow> binding_ready st i"
  by (auto simp: binding_placed_def binding_ready_def)

lemma prepare_bindings:
  assumes S: "core_ok S" and L: "layout_ok L" and run: "prepare S L st ord local_length h m = (OkS r, m1)"
  shows "\<exists>as1. ddr_addresses st [0..<unat (hs_binding_count st)] 0x80000000 = OkS as1 \<and>
    (\<forall>i < unat (hs_binding_count st). binding_ready st i)"
proof -
  let ?nb = "unat (hs_binding_count st)"
  obtain pc c1 ma ptrs lens c2 la mc md where s1: "place_constants S L st m = (OkS (pc, c1), ma)"
    and s2: "reserve_tables L st c1 = OkS (ptrs, lens, c2)"
    and s4: "place_bindings S st h ptrs lens [0..<?nb] 0x80000000 mc = (OkS (), md)"
    using run by (rule prepare_stages)
  have hl: "heap_start_addr L \<le> heap_end_addr L" "unat (heap_end_addr L) \<le> 0x18000" using L by (auto simp: layout_ok_def)
  note p1 = place_constants_spec[OF S s1 hl(1)]
  note ta = tables_reserved[OF s2 p1[THEN conjunct2, THEN conjunct1] hl(2)]
  obtain as1 where "ddr_addresses st [0..<?nb] 0x80000000 = OkS as1"
      "list_all2 (binding_placed st h (core_byte S md) ptrs lens) [0..<?nb] as1"
    using place_bindings_spec[OF S ta _ _ s4] by auto
  then show ?thesis using placed_ready by (auto simp: list_all2_conv_all_nth)
qed

section \<open>Properties\<close>

lemma load_and_prepare_OkS:
  assumes "load_and_prepare S img st ord local_length h m = (OkS (L, r), m1)"
  obtains m0 where "arguments_ok st ord = OkS ()" "load_elf_with_layout S img m = (OkS L, m0)"
    "unat (dispatch_request_size L) = sizeof_request" "prepare S L st ord local_length h m0 = (OkS r, m1)"
  using assms by (auto simp: load_and_prepare_def next_step_OkS core_step_simps split: if_splits)

lemma layout_loaded: "core_ok S \<Longrightarrow> load_elf_with_layout S img m = (OkS L, m0) \<Longrightarrow> layout_ok L"
  by (auto simp: load_elf_with_layout_def dest!: elf_layout_bounds split: status.splits if_splits prod.splits)

lemma issue_dispatch_cases:
  assumes "core_ok S" "writeable_ok writeable (unat (hs_binding_count st))"
    "load_and_prepare S img st ord local_length h m = (OkS (L, r), m1)" "core_run S (start_pc L) m1 = Some m2"
  shows "\<exists>as1. ddr_addresses st [0..<unat (hs_binding_count st)] 0x80000000 = OkS as1 \<and>
    issue_dispatch S img st writeable ord local_length m h =
      (case check_request (request_at (core_byte S m2) (dispatch_request_addr L)) of
         ErrS e \<Rightarrow> Some (ErrS e, m2, h)
       | TrapS \<Rightarrow> Some (TrapS, m2, h)
       | OkS _ \<Rightarrow> Some (OkS (), m2,
           fold (bound_write st writeable (core_byte S m2)) (zip [0..<unat (hs_binding_count st)] as1) h))"
proof -
  let ?nb = "unat (hs_binding_count st)"
  obtain m0 where l: "load_elf_with_layout S img m = (OkS L, m0)" and p: "prepare S L st ord local_length h m0 = (OkS r, m1)"
    using assms(3) by (rule load_and_prepare_OkS)
  obtain as1 where a: "ddr_addresses st [0..<?nb] 0x80000000 = OkS as1" "\<forall>i < ?nb. binding_ready st i"
    using prepare_bindings[OF assms(1) layout_loaded[OF assms(1) l] p] by blast
  have "read_back S st writeable m2 [0..<?nb] 0x80000000 h =
      (OkS (), fold (bound_write st writeable (core_byte S m2)) (zip [0..<?nb] as1) h)"
    by (rule read_back_fold[OF assms(1,2) _ a(1)]) (use a(2) in auto)
  then show ?thesis using a(1) assms(3,4)
    by (intro exI[of _ as1]) (simp add: issue_dispatch_def simulator_read_mem_def core_laws[OF assms(1)] request_at_def
        split: status.split)
qed

text \<open>
  A dispatch that returns an error leaves every byte of host memory as it
  was: results are copied back only after the firmware completed with return
  code 0, and copying back the bindings cannot fail once they were placed.
\<close>

theorem dispatch_error_keeps_host:
  assumes "core_ok S" "writeable_ok writeable (unat (hs_binding_count st))"
    "issue_dispatch S img st writeable ord local_length m h = Some (s, m2, h2)" "s \<noteq> OkS ()"
  shows "h2 = h"
proof (cases "load_and_prepare S img st ord local_length h m")
  case (Pair s1 m1)
  show ?thesis
  proof (cases s1)
    case (OkS Lr)
    obtain L r where Lr: "Lr = (L, r)" by (cases Lr)
    have lp: "load_and_prepare S img st ord local_length h m = (OkS (L, r), m1)" using Pair OkS Lr by simp
    obtain m3 where run: "core_run S (start_pc L) m1 = Some m3"
      using assms(3) lp by (cases "core_run S (start_pc L) m1") (auto simp: issue_dispatch_def)
    show ?thesis using issue_dispatch_cases[OF assms(1,2) lp run] assms(3,4)
      by (cases "check_request (request_at (core_byte S m3) (dispatch_request_addr L))") auto
  qed (use assms(3) Pair in \<open>auto simp: issue_dispatch_def\<close>)
qed

lemma dispatch_success:
  assumes "core_ok S" "writeable_ok writeable (unat (hs_binding_count st))"
    "\<forall>L m0. load_elf_with_layout S img m = (OkS L, m0) \<longrightarrow>
       unat (dispatch_request_size L) = sizeof_request \<longrightarrow> request_apart L"
    "issue_dispatch S img st writeable ord local_length m h = Some (OkS (), m2, h2)"
  obtains L r m0 m1 as1 where "load_elf_with_layout S img m = (OkS L, m0)"
    "dispatch_in_memory st ord h local_length L r (core_byte S m1)"
    "core_run S (start_pc L) m1 = Some m2"
    "status (request_at (core_byte S m2) (dispatch_request_addr L)) = STATUS_COMPLETE"
    "return_code (request_at (core_byte S m2) (dispatch_request_addr L)) = 0"
    "ddr_addresses st [0..<unat (hs_binding_count st)] 0x80000000 = OkS as1"
    "h2 = fold (bound_write st writeable (core_byte S m2)) (zip [0..<unat (hs_binding_count st)] as1) h"
proof -
  obtain L r m1 where lp: "load_and_prepare S img st ord local_length h m = (OkS (L, r), m1)"
    using assms(4) by (auto simp: issue_dispatch_def split: prod.splits status.splits)
  then obtain m0 where l: "load_elf_with_layout S img m = (OkS L, m0)"
    and z: "unat (dispatch_request_size L) = sizeof_request" and p: "prepare S L st ord local_length h m0 = (OkS r, m1)"
    by (rule load_and_prepare_OkS)
  obtain m3 where run: "core_run S (start_pc L) m1 = Some m3"
    using assms(4) lp by (cases "core_run S (start_pc L) m1") (auto simp: issue_dispatch_def)
  have "dispatch_in_memory st ord h local_length L r (core_byte S m1)"
    by (rule prepare_spec[OF assms(1) layout_loaded[OF assms(1) l] assms(3)[rule_format, OF l z] p])
  then show ?thesis using issue_dispatch_cases[OF assms(1,2) lp run] assms(4) run l
    by (auto simp: check_request_def intro: that split: status.splits if_splits)
qed

text \<open>
  When a dispatch succeeds, the core was started at the entry point with
  the request, the push constants, the binding tables, the bytes of every binding
  and a zeroed local memory in place; the request it left is complete with return
  code 0; and host memory then holds, for each writeable binding, the bytes at the
  binding's address in the core.
\<close>

theorem dispatch_end_to_end:
  assumes "core_ok S" "writeable_ok writeable (unat (hs_binding_count st))"
    "\<forall>L m0. load_elf_with_layout S img m = (OkS L, m0) \<longrightarrow>
       unat (dispatch_request_size L) = sizeof_request \<longrightarrow> request_apart L"
    "issue_dispatch S img st writeable ord local_length m h = Some (OkS (), m2, h2)"
  shows "\<exists>L r m1 as1. dispatch_in_memory st ord h local_length L r (core_byte S m1) \<and>
    core_run S (start_pc L) m1 = Some m2 \<and>
    status (request_at (core_byte S m2) (dispatch_request_addr L)) = STATUS_COMPLETE \<and>
    return_code (request_at (core_byte S m2) (dispatch_request_addr L)) = 0 \<and>
    ddr_addresses st [0..<unat (hs_binding_count st)] 0x80000000 = OkS as1 \<and>
    h2 = fold (bound_write st writeable (core_byte S m2)) (zip [0..<unat (hs_binding_count st)] as1) h"
  using assms by (rule dispatch_success) (intro exI conjI)

lemma dispatch_kernel_run:
  assumes "core_ok S" "writeable_ok writeable (unat (hs_binding_count st))"
    "load_elf_with_layout S img m = (OkS L, m0)"
    "unat (dispatch_request_size L) = sizeof_request \<Longrightarrow> request_apart L"
    "\<And>m. map_option (core_byte S) (core_run S (start_pc L) m) =
       firmware_main library (dispatch_request_addr L) (core_byte S m)"
    "exported library (ucast ord) K" "keeps_request K (dispatch_request_addr L)"
    "issue_dispatch S img st writeable ord local_length m h = Some (OkS (), m2, h2)"
  shows "\<exists>r M1 M2. dispatch_in_memory st ord h local_length L r M1 \<and>
    run_groups (group_call K (dispatch_state_of r) r) (workgroup_grid r) (started (dispatch_request_addr L) M1) = Some (0, M2) \<and>
    core_byte S m2 =
      set_status (dispatch_request_addr L) STATUS_COMPLETE (set_return_code (dispatch_request_addr L) 0 M2)"
proof -
  let ?ra = "dispatch_request_addr L"
  have ap: "\<forall>L1 m01. load_elf_with_layout S img m = (OkS L1, m01) \<longrightarrow>
    unat (dispatch_request_size L1) = sizeof_request \<longrightarrow> request_apart L1" using assms(3,4) by simp
  obtain r m1 where d: "dispatch_in_memory st ord h local_length L r (core_byte S m1)"
    and run: "core_run S (start_pc L) m1 = Some m2" and c: "status (request_at (core_byte S m2) ?ra) = STATUS_COMPLETE"
    using assms(3) by (auto intro: dispatch_success[OF assms(1,2) ap assms(8)])
  have u: "unat ?ra + sizeof_request \<le> 2 ^ 32"
  proof -
    obtain m01 where "unat (dispatch_request_size L) = sizeof_request"
      using assms(3,8) by (auto simp: issue_dispatch_def elim!: load_and_prepare_OkS split: prod.splits status.splits)
    then show ?thesis using layout_loaded[OF assms(1,3)] by (simp add: layout_ok_def)
  qed
  have r: "request_at (core_byte S m1) ?ra = r" using d by (simp add: dispatch_in_memory_def)
  have "r = (base_request st ord)\<lparr>push_constants_addr := push_constants_addr r, binding_ptrs_addr := binding_ptrs_addr r,
       binding_lengths_addr := binding_lengths_addr r, local_memory_addr := local_memory_addr r\<rparr>"
    using d unfolding dispatch_in_memory_def by (elim conjE)
  from arg_cong[OF this, of ordinal] have ord: "ordinal r = ucast ord" by (simp add: base_request_def)
  have fw: "firmware_main library ?ra (core_byte S m1) = Some (core_byte S m2)"
    using assms(5)[of m1] run by simp
  have notfail: "core_byte S m2 \<noteq> coralnpu_dispatch_fail ?ra code M" for code M
    using c request_failed[OF u, of code M] by (auto simp: status_codes)
  have ready: "request_ready r"
  proof (rule ccontr)
    assume "\<not> request_ready r"
    then obtain code M where "firmware_main library ?ra (core_byte S m1) = Some (coralnpu_dispatch_fail ?ra code M)"
      using firmware_reject[OF u, of "core_byte S m1" library] r by blast
    then show False using fw notfail by simp
  qed
  have K: "exported library (ordinal (request_at (core_byte S m1) ?ra)) K" unfolding r ord by (rule assms(6))
  note fr = firmware_run[OF u ready[folded r] K assms(7), unfolded r fw]
  obtain res M2 where g: "run_groups (group_call K (dispatch_state_of r) r) (workgroup_grid r)
      (started ?ra (core_byte S m1)) = Some (res, M2)"
    and e: "core_byte S m2 = (if res \<noteq> 0 then coralnpu_dispatch_fail ?ra res M2
      else set_status ?ra STATUS_COMPLETE (set_return_code ?ra 0 M2))"
    using fr[symmetric] unfolding bind_eq_Some_conv by (auto split: if_splits)
  have "res = 0" using e notfail by (auto split: if_splits)
  then show ?thesis using d g e by (intro exI[of _ r] exI[of _ "core_byte S m1"] exI[of _ M2]) simp
qed


text \<open>A kernel that increments the first byte of the first binding, and a dispatch with one binding.\<close>

definition bump_kernel :: kernel where
  "bump_kernel ds ws m = Some (0, write_mem 0x80000000 [m 0x80000000 + 1] m)"

definition small_core :: "memory core_api" where
  "small_core = core_ref (\<lambda>pc m. firmware_main (Some (Some [Some bump_kernel])) 0x10000 m)"

definition small_dispatch :: host_state where
  "small_dispatch = \<lparr>hs_size_x = 1, hs_size_y = 1, hs_size_z = 1, hs_count_x = 1, hs_count_y = 1, hs_count_z = 1,
     hs_max_concurrency = 1, hs_constant_count = 0, hs_constants = Some [], hs_binding_count = 1,
     hs_binding_ptrs = Some [Some 100], hs_binding_lengths = Some [2]\<rparr>"

definition small_loaded :: memory where
  "small_loaded = snd (load_elf_with_layout small_core tiny_elf (\<lambda>_. 0))"

definition small_ready :: dispatch_request where
  "small_ready = (base_request small_dispatch 0)\<lparr>push_constants_addr := 0, binding_ptrs_addr := 0x10040,
     binding_lengths_addr := 0x10044, local_memory_addr := 0\<rparr>"

definition small_prepared :: memory where
  "small_prepared = write_mem 0x10000 (encode_request small_ready)
     (write_mem 0x80000000 [7, 7] (write_mem 0x10044 (le_bytes 4 (2 :: 32 word))
       (write_mem 0x10040 (le_bytes 4 (0x80000000 :: 32 word)) small_loaded)))"

lemma small_core_ok: "core_ok small_core"
  by (simp add: small_core_def)

lemma core_write_ref: "core_write (core_ref run) = write_mem"
  by (simp add: core_ref_def)

lemma small_load: "load_elf_with_layout small_core tiny_elf (\<lambda>_. 0) = (OkS tiny_layout, small_loaded)"
proof -
  have "fst (load_elf_with_layout small_core tiny_elf (\<lambda>_. 0)) = OkS tiny_layout" by code_simp
  then show ?thesis by (simp add: small_loaded_def prod_eq_iff)
qed

lemma small_tables: "reserve_tables tiny_layout small_dispatch 0x10040 = OkS (0x10040, 0x10044, 0x10048)"
  by code_simp

lemma small_block: "allocate_ddr 0x80000000 64 2 = OkS (0x80000000, 0x80000002)"
  by code_simp

lemma small_host: "host_bytes (\<lambda>_. 7) 100 2 = [7, 7]"
  by code_simp

lemma small_load_and_prepare:
  "load_and_prepare small_core tiny_elf small_dispatch 0 0 (\<lambda>_. 7) (\<lambda>_. 0) = (OkS (tiny_layout, small_ready), small_prepared)"
proof -
  have a: "arguments_ok small_dispatch 0 = OkS ()" by code_simp
  have b: "place_binding small_core small_dispatch (\<lambda>_. 7) 0x10040 0x10044 0 0x80000000 m =
      (OkS 0x80000002, write_mem 0x80000000 [7, 7] (write_mem 0x10044 (le_bytes 4 (2 :: 32 word))
       (write_mem 0x10040 (le_bytes 4 (0x80000000 :: 32 word)) m)))" for m
    by (simp add: place_binding_def element_def small_dispatch_def UINT32_MAX_def next_step_def core_step_simps small_block
      small_host write_mem_u32_bytes simulator_write_mem_def small_core_def core_write_ref)
  have f: "heap_start_addr tiny_layout = 0x10040" "dispatch_request_addr tiny_layout = 0x10000"
      "unat (dispatch_request_size tiny_layout) = sizeof_request"
      "hs_constant_count small_dispatch = 0" "hs_binding_count small_dispatch = 1"
    by (simp_all add: tiny_layout_def small_dispatch_def sizeof_request_def)
  have w: "core_write small_core = write_mem" by (simp add: small_core_def core_write_ref)
  have p: "prepare small_core tiny_layout small_dispatch 0 0 (\<lambda>_. 7) small_loaded = (OkS small_ready, small_prepared)"
    by (simp add: prepare_def place_constants_def place_local_def next_step_def core_step_simps small_tables f b Let_def
      small_ready_def small_prepared_def simulator_write_mem_def w)
  show ?thesis
    by (simp add: load_and_prepare_def next_step_def core_step_simps a small_load f p)
qed

lemma small_at: "unat (0x10000 :: 32 word) + sizeof_request \<le> 2 ^ 32"
  by (simp add: sizeof_request_def)

lemma small_prepared_request: "request_at small_prepared 0x10000 = small_ready"
  unfolding small_prepared_def by (rule request_at_written[OF small_at])

lemma small_ready_facts: "request_ready small_ready" "ordinal small_ready = 0" "workgroup_grid small_ready = [(0, 0, 0)]"
  by code_simp+

lemma bump_keeps: "keeps_request bump_kernel 0x10000"
  by (auto simp: keeps_request_def bump_kernel_def request_at_def sizeof_request_def read_write_other)

definition small_done :: memory where
  "small_done = set_status 0x10000 STATUS_COMPLETE (set_return_code 0x10000 0
     (write_mem 0x80000000 [started 0x10000 small_prepared 0x80000000 + 1] (started 0x10000 small_prepared)))"

lemma small_run: "core_run small_core 0 small_prepared = Some small_done"
  using firmware_run[OF small_at, of small_prepared "Some (Some [Some bump_kernel])" bump_kernel] bump_keeps
  by (simp add: small_core_def core_ref_def small_prepared_request small_ready_facts exported_def group_call_def
      bump_kernel_def small_done_def)

lemma small_done_request: "status (request_at small_done 0x10000) = STATUS_COMPLETE"
  "return_code (request_at small_done 0x10000) = 0" 
  by (simp_all add: small_done_def request_set_status[OF small_at] request_set_return_code[OF small_at])

lemma small_done_intact: "magic (request_at small_done 0x10000) = CORALNPU_DISPATCH_MAGIC"
  "version (request_at small_done 0x10000) = CORALNPU_DISPATCH_VERSION"
proof -
  have "request_at (write_mem 0x80000000 [b] m) 0x10000 = request_at m 0x10000" for b m
    by (simp add: request_at_def sizeof_request_def read_write_other)
  then show "magic (request_at small_done 0x10000) = CORALNPU_DISPATCH_MAGIC"
    "version (request_at small_done 0x10000) = CORALNPU_DISPATCH_VERSION"
    by (simp_all add: small_done_def request_set_status[OF small_at] request_set_return_code[OF small_at]
        request_started[OF small_at] small_prepared_request small_ready_def base_request_def)
qed

lemma small_done_bytes: "small_done 0x80000000 = 8" "small_done 0x80000001 = 7"
  by (simp_all add: small_done_def set_status_def set_return_code_def started_def write_mem_def small_prepared_def sizeof_request_def)

lemma small_issue_writeable:
  assumes "writes_back writeable 0 = OkS True" "writeable_ok writeable (unat (hs_binding_count small_dispatch))"
  shows "issue_dispatch small_core tiny_elf small_dispatch writeable 0 0 (\<lambda>_. 0) (\<lambda>_. 7) =
    Some (OkS (), small_done, host_write 100 [8, 7] (\<lambda>_. 7))"
proof -
  have f: "start_pc tiny_layout = 0" "dispatch_request_addr tiny_layout = 0x10000"
    "hs_binding_count small_dispatch = 1"
    by (simp_all add: tiny_layout_def small_dispatch_def)
  have e: "element (hs_binding_ptrs small_dispatch) 0 = OkS (Some 100)"
    "element (hs_binding_lengths small_dispatch) 0 = OkS 2"
    by (simp_all add: small_dispatch_def element_def)
  have cb: "core_byte small_core = (\<lambda>m. m)" by (simp add: small_core_def core_byte_ref)
  have r: "read_mem 0x80000000 2 small_done = [8, 7]"
    by (simp add: read_mem_def small_done_bytes numeral_2_eq_2)
  have run: "core_run small_core (start_pc tiny_layout) small_prepared = Some small_done" by (simp add: f small_run)
  show ?thesis
    using issue_dispatch_cases[OF small_core_ok assms(2) small_load_and_prepare run]
    by (simp add: f e small_block cb check_request_def small_done_intact small_done_request bound_write_def
        assms(1) r)
qed

lemma small_issue: "issue_dispatch small_core tiny_elf small_dispatch None 0 0 (\<lambda>_. 0) (\<lambda>_. 7) =
    Some (OkS (), small_done, host_write 100 [8, 7] (\<lambda>_. 7))"
  by (rule small_issue_writeable) (simp_all add: writes_back_def writeable_ok_def)

lemma small_request_apart: "request_apart tiny_layout"
  by (simp add: request_apart_def tiny_layout_def sizeof_request_def)

lemma small_apart:
  "\<forall>L m0. load_elf_with_layout small_core tiny_elf (\<lambda>_. 0) = (OkS L, m0) \<longrightarrow>
    unat (dispatch_request_size L) = sizeof_request \<longrightarrow> request_apart L"
  using small_request_apart by (simp add: small_load)

lemma dispatch_error_keeps_host_witness:
  "\<exists>m2 h2. issue_dispatch small_core [] small_dispatch None 0 0 (\<lambda>_. 0) (\<lambda>_. 7) = Some (ErrS INVALID_ARGUMENT, m2, h2) \<and>
     h2 = (\<lambda>_. 7)"
proof -
  have i: "issue_dispatch small_core [] small_dispatch None 0 0 (\<lambda>_. 0) (\<lambda>_. 7) =
      Some (ErrS INVALID_ARGUMENT, \<lambda>_. 0, \<lambda>_. 7)"
    by (simp add: issue_dispatch_def load_and_prepare_def next_step_def core_step_simps arguments_ok_def UINT32_MAX_def
      small_dispatch_def load_elf_with_layout_def is_elf32_def sizeof_Ehdr_def)
  have "(\<lambda>_. 7 :: 8 word) = (\<lambda>_ :: nat. 7)"
    by (rule dispatch_error_keeps_host[OF small_core_ok _ i]) (simp_all add: writeable_ok_def)
  then show ?thesis using i by blast
qed

lemma dispatch_end_to_end_witness:
  "\<exists>L r m1 as1 m2. dispatch_in_memory small_dispatch 0 (\<lambda>_. 7) 0 L r (core_byte small_core m1) \<and>
     core_run small_core (start_pc L) m1 = Some m2 \<and>
     host_write 100 [8, 7] (\<lambda>_. 7) =
       fold (bound_write small_dispatch None (core_byte small_core m2)) (zip [0..<unat (hs_binding_count small_dispatch)] as1) (\<lambda>_. 7)"
proof -
  have w: "writeable_ok None (unat (hs_binding_count small_dispatch))" by (simp add: writeable_ok_def)
  from dispatch_end_to_end[OF small_core_ok w small_apart small_issue] show ?thesis by blast
qed


lemma ddr_addresses_seq:
  assumes "\<forall>i \<in> set is1. element (hs_binding_lengths st) i = OkS (len i)"
  shows "ddr_addresses st is1 c = alloc_seq allocate_ddr 6 (map len is1) c"
  using assms
proof (induction is1 arbitrary: c)
  case (Cons i is1)
  have ih: "ddr_addresses st is1 c1 = alloc_seq allocate_ddr 6 (map len is1) c1" for c1
    by (rule Cons.IH) (use Cons.prems in simp)
  have e: "element (hs_binding_lengths st) i = OkS (len i)" using Cons.prems by simp
  have p: "(2 :: 32 word) ^ 6 = 64" by simp
  show ?case by (simp only: ddr_addresses.simps list.map alloc_seq.simps e sbind.simps ih p)
qed simp

text \<open>
  The bindings of a dispatch lie in the first gigabyte of the DDR, each at a
  multiple of 64, each after the end of those before it.
\<close>

theorem binding_blocks_apart:
  assumes "hs_binding_lengths st = Some lens" "unat (hs_binding_count st) \<le> length lens"
    "ddr_addresses st [0..<unat (hs_binding_count st)] 0x80000000 = OkS as1"
  shows "length as1 = unat (hs_binding_count st) \<and>
    (\<forall>j < length as1. 0x80000000 \<le> unat (as1 ! j) \<and> 64 dvd unat (as1 ! j) \<and> unat (as1 ! j) + unat (lens ! j) \<le> 0xC0000000) \<and>
    sorted_wrt (\<lambda>(a, n) (b, _). unat a + unat n \<le> unat b) (zip as1 (take (unat (hs_binding_count st)) lens))"
proof -
  let ?n = "unat (hs_binding_count st)"
  have "\<forall>i \<in> set [0..<?n]. element (hs_binding_lengths st) i = OkS (lens ! i)"
    using assms(1,2) by (simp add: element_def)
  moreover have "map ((!) lens) [0..<?n] = take ?n lens" using assms(2) by (intro nth_equalityI) auto
  ultimately have "alloc_seq allocate_ddr 6 (take ?n lens) 0x80000000 = OkS as1"
    using assms(3) ddr_addresses_seq[of "[0..<?n]" st "(!) lens"] by simp
  from ddr.alloc_seq_apart[OF _ this] show ?thesis using assms(2) by simp
qed

definition two_bindings :: host_state where
  "two_bindings = small_dispatch\<lparr>hs_binding_count := 2, hs_binding_ptrs := Some [Some 100, Some 200],
     hs_binding_lengths := Some [100, 5]\<rparr>"

lemma binding_blocks_apart_witness:
  "ddr_addresses two_bindings [0..<2] 0x80000000 = OkS [0x80000000, 0x80000080] \<and>
   sorted_wrt (\<lambda>(a, n) (b, _). unat a + unat n \<le> unat b) (zip [0x80000000 :: 32 word, 0x80000080] [100 :: 64 word, 5])"
proof -
  have d: "ddr_addresses two_bindings [0..<2] 0x80000000 = OkS [0x80000000, 0x80000080]" by code_simp
  have f: "hs_binding_lengths two_bindings = Some [100, 5]" "unat (hs_binding_count two_bindings) = 2"
    by (simp_all add: two_bindings_def)
  have d2: "ddr_addresses two_bindings [0..<unat (hs_binding_count two_bindings)] 0x80000000 = OkS [0x80000000, 0x80000080]"
    unfolding f by (rule d)
  from binding_blocks_apart[OF f(1) _ d2] show ?thesis by (simp add: f d)
qed

end
