(* ===== verification/Executables.thy ===== *)
theory Executables
  imports Firmware
begin

text \<open>
  Executables of the runtime: inline issue of the workgroups of a dispatch
  (\<open>coralnpu_executable.c\<close>), the executable that holds an image for the simulator
  (\<open>simulator_executable.c\<close>) and the cache that picks a loader
  (\<open>coralnpu_executable_cache.c\<close>). A status is \<open>None\<close> for ok; the loaders of IREE
  and the kernels of other executables are parameters.
\<close>

section \<open>Inline issue\<close>

type_synonym 's call = "nat \<times> nat \<times> nat \<Rightarrow> 's \<Rightarrow> status_code option \<times> 's"

text \<open>The loop over x, which a failing call leaves.\<close>

fun issue_row :: "'s call \<Rightarrow> (nat \<times> nat \<times> nat) list \<Rightarrow> status_code option \<Rightarrow> 's \<Rightarrow> status_code option \<times> 's" where
  "issue_row call [] st s = (st, s)"
| "issue_row call (g # gs) st s =
     (case call g s of (r, s1) \<Rightarrow> if r \<noteq> None then (r, s1) else issue_row call gs r s1)"

text \<open>The loops over z and y, which go on whatever the row returned.\<close>

fun issue_rows :: "'s call \<Rightarrow> (nat \<times> nat \<times> nat) list list \<Rightarrow> status_code option \<Rightarrow> 's \<Rightarrow> status_code option \<times> 's" where
  "issue_rows call [] st s = (st, s)"
| "issue_rows call (row # rows) st s =
     (case issue_row call row st s of (r, s1) \<Rightarrow> issue_rows call rows r s1)"

definition grid_rows :: "nat \<Rightarrow> nat \<Rightarrow> nat \<Rightarrow> (nat \<times> nat \<times> nat) list list" where
  "grid_rows cz cy cx = concat (map (\<lambda>z. map (\<lambda>y. grid_x z y 0 cx) [0..<cy]) [0..<cz])"

definition issue_dispatch_inline :: "'s call \<Rightarrow> 32 word \<Rightarrow> 32 word \<Rightarrow> 32 word \<Rightarrow> 's \<Rightarrow> status_code option \<times> 's" where
  "issue_dispatch_inline call cx cy cz s = issue_rows call (grid_rows (unat cz) (unat cy) (unat cx)) None s"

lemma grid_rows_concat: "concat (grid_rows cz cy cx) = grid_z 0 cz cy cx"
proof -
  have "concat (concat (map f xs)) = concat (map (\<lambda>x. concat (f x)) xs)" for f :: "nat \<Rightarrow> (nat \<times> nat \<times> nat) list list" and xs
    by (induction xs) simp_all
  then show ?thesis by (simp add: grid_rows_def grid_z_def grid_y_def)
qed

section \<open>The executable of the simulator\<close>

record sim_executable =
  dispatch_image :: image
  export_count :: nat

definition simulator_executable_create :: "bool \<Rightarrow> 8 word list option \<Rightarrow> sim_executable status" where
  "simulator_executable_create alloc_ok executable_data =
     (case executable_data of
        None \<Rightarrow> ErrS INVALID_ARGUMENT
      | Some bytes \<Rightarrow>
          if bytes = [] then ErrS INVALID_ARGUMENT
          else if \<not> alloc_ok then ErrS RESOURCE_EXHAUSTED
          else OkS \<lparr>dispatch_image = bytes, export_count = 1\<rparr>)"

definition simulator_export_info :: "sim_executable \<Rightarrow> nat \<Rightarrow> bool \<Rightarrow> status_code option" where
  "simulator_export_info e export_ordinal has_out_info =
     (if \<not> has_out_info then Some INVALID_ARGUMENT
      else if export_count e \<le> export_ordinal then Some OUT_OF_RANGE
      else None)"

definition simulator_export_parameters :: "sim_executable \<Rightarrow> nat \<Rightarrow> nat \<Rightarrow> bool \<Rightarrow> status_code option" where
  "simulator_export_parameters e export_ordinal capacity has_out_parameters =
     (if export_count e \<le> export_ordinal then Some OUT_OF_RANGE
      else if 0 < capacity \<and> \<not> has_out_parameters then Some INVALID_ARGUMENT
      else None)"

definition simulator_issue_call :: "'s call" where
  "simulator_issue_call g s = (Some UNIMPLEMENTED, s)"

section \<open>The cache\<close>

definition is_simulator_format :: "string \<Rightarrow> bool" where
  "is_simulator_format executable_format \<longleftrightarrow> executable_format = ''embedded-elf-riscv_32''"

text \<open>A loader of IREE, over the executables \<open>'e\<close> it makes.\<close>

record 'e loader =
  query_support :: "string \<Rightarrow> bool"
  try_load :: "string \<Rightarrow> 8 word list option \<Rightarrow> 'e status"
  infer_format :: "8 word list \<Rightarrow> (string \<times> nat) option \<Rightarrow> status_code option \<times> (string \<times> nat) option"

datatype 'e executable = SimulatorExecutable sim_executable | LoadedExecutable 'e

fun cache_load :: "'e loader list \<Rightarrow> string \<Rightarrow> 8 word list option \<Rightarrow> 'e executable status" where
  "cache_load [] executable_format executable_data = ErrS NOT_FOUND"
| "cache_load (l # ls) executable_format executable_data =
     (if \<not> query_support l executable_format then cache_load ls executable_format executable_data
      else case try_load l executable_format executable_data of
        OkS e \<Rightarrow> OkS (LoadedExecutable e)
      | TrapS \<Rightarrow> TrapS
      | ErrS c \<Rightarrow>
          if c \<noteq> CANCELLED \<and> c \<noteq> NOT_FOUND then ErrS c
          else cache_load ls executable_format executable_data)"

definition prepare_executable :: "bool \<Rightarrow> 'e loader list \<Rightarrow> string \<Rightarrow> 8 word list option \<Rightarrow> 'e executable status" where
  "prepare_executable alloc_ok loaders executable_format executable_data =
     (if is_simulator_format executable_format
      then map_status SimulatorExecutable (simulator_executable_create alloc_ok executable_data)
      else cache_load loaders executable_format executable_data)"

definition can_prepare_format :: "'e loader list \<Rightarrow> string \<Rightarrow> bool" where
  "can_prepare_format loaders executable_format \<longleftrightarrow>
     is_simulator_format executable_format \<or> list_ex (\<lambda>l. query_support l executable_format) loaders"

text \<open>
  The loop of \<open>infer_format\<close>: \<open>status\<close> is the variable the code tests, the
  status of the loader another. The out parameters are threaded through.
\<close>

fun cache_infer :: "'e loader list \<Rightarrow> 8 word list \<Rightarrow> status_code option \<Rightarrow> (string \<times> nat) option \<Rightarrow>
    status_code option \<times> (string \<times> nat) option" where
  "cache_infer [] executable_data st out = (st, out)"
| "cache_infer (l # ls) executable_data st out =
     (case infer_format l executable_data out of (infer_status, out1) \<Rightarrow>
        if st = None then (None, out1)
        else if infer_status = Some INCOMPATIBLE then cache_infer ls executable_data (Some INCOMPATIBLE) out1
        else (infer_status, out1))"

section \<open>Lemmas on the loops\<close>

text \<open>Every call of a list returns ok, each on the state the one before left.\<close>

fun all_ok :: "'s call \<Rightarrow> (nat \<times> nat \<times> nat) list \<Rightarrow> 's \<Rightarrow> bool" where
  "all_ok call [] s \<longleftrightarrow> True"
| "all_ok call (g # gs) s \<longleftrightarrow> fst (call g s) = None \<and> all_ok call gs (snd (call g s))"

definition after :: "'s call \<Rightarrow> (nat \<times> nat \<times> nat) list \<Rightarrow> 's \<Rightarrow> 's" where
  "after call gs s = fold (\<lambda>g s. snd (call g s)) gs s"

lemma all_ok_append: "all_ok call (gs @ hs) s \<longleftrightarrow> all_ok call gs s \<and> all_ok call hs (after call gs s)"
  by (induction gs arbitrary: s) (auto simp: after_def)

lemma after_append: "after call (gs @ hs) s = after call hs (after call gs s)"
  by (simp add: after_def)

lemma issue_row_ok: "all_ok call gs s \<Longrightarrow> issue_row call gs None s = (None, after call gs s)"
  by (induction gs arbitrary: s) (auto simp: after_def split: prod.splits)

lemma issue_rows_ok: "all_ok call (concat rows) s \<Longrightarrow> issue_rows call rows None s = (None, after call (concat rows) s)"
  by (induction rows arbitrary: s) (simp_all add: all_ok_append after_append issue_row_ok, simp add: after_def)

lemma issue_rows_append:
  "issue_rows call (rows @ rows1) st s =
    (case issue_rows call rows st s of (r, s1) \<Rightarrow> issue_rows call rows1 r s1)"
  by (induction rows arbitrary: st s) (auto split: prod.split)

lemma issue_row_status: "gs \<noteq> [] \<Longrightarrow> issue_row call gs st s = issue_row call gs None s"
  by (cases gs) (auto split: prod.split)

lemma grid_rows_split:
  assumes "0 < cz" "0 < cy"
  shows "\<exists>rows. grid_rows cz cy cx = rows @ [grid_x (cz - 1) (cy - 1) 0 cx]"
proof -
  obtain a b where ab: "cz = Suc a" "cy = Suc b" using assms by (cases cz; cases cy) auto
  show ?thesis by (simp add: grid_rows_def ab)
qed

section \<open>Properties\<close>

text \<open>
  When every call succeeds, the inline issue calls the workgroups in the order
  the firmware does, x fastest and z slowest, each on the state the one before left,
  and returns ok.
\<close>

theorem issue_inline_order:
  assumes "all_ok call (grid_z 0 (unat cz) (unat cy) (unat cx)) s"
  shows "issue_dispatch_inline call cx cy cz s = (None, after call (grid_z 0 (unat cz) (unat cy) (unat cx)) s)"
  using issue_rows_ok[of call "grid_rows (unat cz) (unat cy) (unat cx)" s] assms
  by (simp add: issue_dispatch_inline_def grid_rows_concat)

text \<open>
  The \<open>break\<close> leaves only the innermost loop: the status of a dispatch is that of its
  last row, so a failure in an earlier row is lost and the later rows still run.
\<close>

lemma issue_inline_last_row:
  assumes "0 < cx" "0 < cy" "0 < cz"
  shows "\<exists>s1. fst (issue_dispatch_inline call cx cy cz s) =
    fst (issue_row call (grid_x (unat cz - 1) (unat cy - 1) 0 (unat cx)) None s1)"
proof -
  have p: "0 < unat cx" "0 < unat cy" "0 < unat cz" using assms by (simp_all add: word_less_nat_alt)
  obtain rows where r: "grid_rows (unat cz) (unat cy) (unat cx) = rows @ [grid_x (unat cz - 1) (unat cy - 1) 0 (unat cx)]"
    using grid_rows_split[OF p(3,2)] by blast
  obtain st s1 where s1: "issue_rows call rows None s = (st, s1)" by (cases "issue_rows call rows None s")
  have n: "grid_x (unat cz - 1) (unat cy - 1) 0 (unat cx) \<noteq> []" using p(1) by (simp add: grid_x_def)
  have "issue_dispatch_inline call cx cy cz s = issue_row call (grid_x (unat cz - 1) (unat cy - 1) 0 (unat cx)) None s1"
    using issue_row_status[OF n, of call st s1] by (simp add: issue_dispatch_inline_def r issue_rows_append s1 split: prod.split)
  then show ?thesis by (intro exI[of _ s1]) simp
qed

definition first_row_fails :: "nat list call" where
  "first_row_fails g s = (case g of (z, y, x) \<Rightarrow> (if y = 0 then Some INTERNAL else None, s @ [y]))"

lemma failed_row_lost: "issue_dispatch_inline first_row_fails 1 2 1 [] = (None, [0, 1])"
  by code_simp

text \<open>
  The cache gives an executable for the simulator when the format is the one of
  embedded 32-bit RISC-V, holding the bytes it was given; otherwise the result is that
  of the first loader that supports the format and neither declines nor lacks the
  executable, and not found when there is none.
\<close>

theorem prepare_executable_spec:
  "(is_simulator_format f \<longrightarrow> data = Some bytes \<longrightarrow> bytes \<noteq> [] \<longrightarrow>
      prepare_executable True ls f data = OkS (SimulatorExecutable \<lparr>dispatch_image = bytes, export_count = 1\<rparr>)) \<and>
   (\<not> is_simulator_format f \<longrightarrow>
      (\<forall>l \<in> set ls. query_support l f \<longrightarrow> try_load l f data \<in> {ErrS CANCELLED, ErrS NOT_FOUND}) \<longrightarrow>
      prepare_executable a ls f data = ErrS NOT_FOUND) \<and>
   (\<not> is_simulator_format f \<longrightarrow> ls = pre @ l # post \<longrightarrow>
      (\<forall>l \<in> set pre. query_support l f \<longrightarrow> try_load l f data \<in> {ErrS CANCELLED, ErrS NOT_FOUND}) \<longrightarrow>
      query_support l f \<longrightarrow> try_load l f data \<notin> {ErrS CANCELLED, ErrS NOT_FOUND} \<longrightarrow>
      prepare_executable a ls f data = map_status LoadedExecutable (try_load l f data))"
proof (intro conjI impI)
  assume "is_simulator_format f" "data = Some bytes" "bytes \<noteq> []"
  then show "prepare_executable True ls f data = OkS (SimulatorExecutable \<lparr>dispatch_image = bytes, export_count = 1\<rparr>)"
    by (simp add: prepare_executable_def simulator_executable_create_def)
next
  assume f: "\<not> is_simulator_format f"
    and "\<forall>l \<in> set ls. query_support l f \<longrightarrow> try_load l f data \<in> {ErrS CANCELLED, ErrS NOT_FOUND}"
  then have "cache_load ls f data = ErrS NOT_FOUND" by (induction ls) auto
  then show "prepare_executable a ls f data = ErrS NOT_FOUND" using f by (simp add: prepare_executable_def)
next
  assume f: "\<not> is_simulator_format f" and ls: "ls = pre @ l # post"
    and pre: "\<forall>l \<in> set pre. query_support l f \<longrightarrow> try_load l f data \<in> {ErrS CANCELLED, ErrS NOT_FOUND}"
    and l: "query_support l f" "try_load l f data \<notin> {ErrS CANCELLED, ErrS NOT_FOUND}"
  have "cache_load (l # post) f data = map_status LoadedExecutable (try_load l f data)"
    using l by (cases "try_load l f data") auto
  then have "cache_load (pre @ l # post) f data = map_status LoadedExecutable (try_load l f data)"
    using pre by (induction pre) auto
  then show "prepare_executable a ls f data = map_status LoadedExecutable (try_load l f data)"
    using f by (simp add: prepare_executable_def ls)
qed

text \<open>The inference of a format tests the wrong status: it asks the first loader only, and reports success.\<close>

lemma infer_format_first_loader: "fst (cache_infer (l # ls) executable_data None out) = None"
  by (simp split: prod.split)

lemma can_prepare_simulator: "can_prepare_format ls ''embedded-elf-riscv_32''"
  by (simp add: can_prepare_format_def is_simulator_format_def)

lemma issue_inline_order_witness:
  "issue_dispatch_inline (\<lambda>(z, y, x) s. (None, s @ [x + 10 * y])) 2 2 1 [] = (None, [0, 1, 10, 11])"
proof -
  let ?call = "\<lambda>(z, y, x) s. (None, s @ [x + 10 * y]) :: status_code option \<times> nat list"
  have g: "grid_z 0 (unat (1 :: 32 word)) (unat (2 :: 32 word)) (unat (2 :: 32 word)) = [(0, 0, 0), (0, 0, 1), (0, 1, 0), (0, 1, 1)]"
    by code_simp
  have "all_ok ?call (grid_z 0 (unat (1 :: 32 word)) (unat (2 :: 32 word)) (unat (2 :: 32 word))) []"
    unfolding g by simp
  from issue_inline_order[OF this] show ?thesis unfolding g by (simp add: after_def)
qed

definition picky_loader :: "nat loader" where
  "picky_loader = \<lparr>query_support = (\<lambda>f. True), try_load = (\<lambda>f d. ErrS NOT_FOUND), infer_format = (\<lambda>d out. (None, out))\<rparr>"

definition plain_loader :: "nat loader" where
  "plain_loader = picky_loader\<lparr>try_load := (\<lambda>f d. OkS 7)\<rparr>"

lemma prepare_executable_spec_witness:
  "prepare_executable True [picky_loader, plain_loader] ''static'' (Some [1]) = OkS (LoadedExecutable 7)"
  using prepare_executable_spec[of "''static''" "Some [1]" "[]" "[picky_loader, plain_loader]" True "[picky_loader]" plain_loader "[]"]
  by (simp add: is_simulator_format_def picky_loader_def plain_loader_def)

end

