(* ===== verification/CommandBuffer.thy ===== *)
theory CommandBuffer
  imports SimDispatch Executables
begin

text \<open>
  The inline command buffer (\<open>runtime/driver/coralnpu_command_buffer.c\<close>): its
  creation and its dispatch, which gathers the bindings of the caller into a
  dispatch state and issues it on the simulator or on the host. Buffers are IREE's:
  \<open>map_range\<close> gives the host address and the length of a range. The fields of the
  dispatch state keep the widths of IREE's header, so the conversions are written out.
\<close>

section \<open>Creation\<close>

record buffer_mode =
  one_shot :: bool
  allow_inline :: bool

definition command_buffer_initialize :: "buffer_mode \<Rightarrow> nat \<Rightarrow> nat \<Rightarrow> nat \<Rightarrow> unit status" where
  "command_buffer_initialize mode binding_capacity storage_length needed =
     (if \<not> (one_shot mode \<and> allow_inline mode) then ErrS INVALID_ARGUMENT
      else if 0 < binding_capacity then ErrS INVALID_ARGUMENT
      else if storage_length < needed then ErrS INVALID_ARGUMENT
      else OkS ())"

text \<open>The second component says whether the storage is still allocated on return.\<close>

definition command_buffer_create :: "bool \<Rightarrow> buffer_mode \<Rightarrow> nat \<Rightarrow> nat \<Rightarrow> unit status \<times> bool" where
  "command_buffer_create alloc_ok mode binding_capacity needed =
     (if \<not> alloc_ok then (ErrS RESOURCE_EXHAUSTED, False)
      else case command_buffer_initialize mode binding_capacity needed needed of
        OkS _ \<Rightarrow> (OkS (), True)
      | e \<Rightarrow> (e, False))"

section \<open>Bindings\<close>

record 'b buffer_api =
  map_range :: "'b \<Rightarrow> nat \<Rightarrow> nat \<Rightarrow> (nat option \<times> 64 word) status"
  allows_write :: "'b \<Rightarrow> bool"

record 'b buffer_ref =
  ref_buffer :: "'b option"
  ref_offset :: nat
  ref_length :: nat

text \<open>The persistent storage of a command buffer, as long as IREE's bound on the bindings.\<close>

record storage =
  binding_ptr_storage :: "nat option list"
  binding_length_storage :: "64 word list"

definition map_ref :: "'b buffer_api \<Rightarrow> 'b buffer_ref \<Rightarrow> (nat option \<times> 64 word) status" where
  "map_ref B r = (case ref_buffer r of None \<Rightarrow> TrapS | Some b \<Rightarrow> map_range B b (ref_offset r) (ref_length r))"

definition store_binding :: "storage \<Rightarrow> nat \<Rightarrow> nat option \<Rightarrow> 64 word \<Rightarrow> storage status" where
  "store_binding cb i p n =
     (if i < length (binding_ptr_storage cb) \<and> i < length (binding_length_storage cb)
      then OkS (cb\<lparr>binding_ptr_storage := (binding_ptr_storage cb)[i := p],
                   binding_length_storage := (binding_length_storage cb)[i := n]\<rparr>)
      else TrapS)"

text \<open>The loop over the bindings of the simulator path, with the flags it collects.\<close>

fun gather_bindings :: "'b buffer_api \<Rightarrow> nat \<Rightarrow> 'b buffer_ref list \<Rightarrow> storage \<Rightarrow> bool list \<Rightarrow> (storage \<times> bool list) status" where
  "gather_bindings B i [] cb writeable = OkS (cb, writeable)"
| "gather_bindings B i (r # rs) cb writeable =
     sbind (map_ref B r) (\<lambda>(p, n).
     sbind (store_binding cb i p n) (\<lambda>cb1.
       gather_bindings B (Suc i) rs cb1
         (writeable @ [case ref_buffer r of None \<Rightarrow> False | Some b \<Rightarrow> allows_write B b])))"

text \<open>The loop of the other path, which rejects a missing buffer.\<close>

fun gather_checked :: "'b buffer_api \<Rightarrow> nat \<Rightarrow> 'b buffer_ref list \<Rightarrow> storage \<Rightarrow> storage status" where
  "gather_checked B i [] cb = OkS cb"
| "gather_checked B i (r # rs) cb =
     (if ref_buffer r = None then ErrS FAILED_PRECONDITION
      else sbind (map_ref B r) (\<lambda>(p, n). sbind (store_binding cb i p n) (\<lambda>cb1. gather_checked B (Suc i) rs cb1)))"

section \<open>The dispatch\<close>

record 'b dispatch_config =
  config_size :: "32 word \<times> 32 word \<times> 32 word"
  config_count :: "32 word \<times> 32 word \<times> 32 word"
  config_count_ref :: "'b buffer_ref"
  dynamic_local_memory :: nat

definition or_one :: "32 word \<Rightarrow> 32 word" where
  "or_one x = (if x \<noteq> 0 then x else 1)"

definition host_u32 :: "host \<Rightarrow> nat \<Rightarrow> 32 word" where
  "host_u32 h p = le_word (host_bytes h p 4)"

text \<open>The workgroup counts, given or in a buffer.\<close>

definition workgroup_counts :: "'b buffer_api \<Rightarrow> host \<Rightarrow> bool \<Rightarrow> 'b dispatch_config \<Rightarrow>
    (32 word \<times> 32 word \<times> 32 word) status" where
  "workgroup_counts B h indirect config =
     (if indirect
      then sbind (map_ref B ((config_count_ref config)\<lparr>ref_length := 12\<rparr>)) (\<lambda>(p, _).
        case p of None \<Rightarrow> TrapS | Some q \<Rightarrow> OkS (host_u32 h q, host_u32 h (q + 4), host_u32 h (q + 8)))
      else OkS (config_count config))"

definition constant_words :: "8 word list \<Rightarrow> 32 word list" where
  "constant_words bs = map (\<lambda>i. get bs 4 (4 * i)) [0..<length bs div 4]"

definition simulator_state :: "'b dispatch_config \<Rightarrow> 32 word \<times> 32 word \<times> 32 word \<Rightarrow> 8 word list \<Rightarrow> nat \<Rightarrow> storage \<Rightarrow> host_state" where
  "simulator_state config counts constants n cb =
     (case (config_size config, counts) of ((sx, sy, sz), (cx, cy, cz)) \<Rightarrow> \<lparr>
        hs_size_x = or_one sx, hs_size_y = or_one sy, hs_size_z = ucast (or_one sz),
        hs_count_x = cx, hs_count_y = cy, hs_count_z = ucast cz, hs_max_concurrency = 1,
        hs_constant_count = of_nat (length constants div 4), hs_constants = Some (constant_words constants),
        hs_binding_count = of_nat n,
        hs_binding_ptrs = Some (binding_ptr_storage cb), hs_binding_lengths = Some (binding_length_storage cb)\<rparr>)"

text \<open>The simulator path up to the call, and with it; \<open>None\<close> when the core does not halt.\<close>

definition simulator_arguments :: "'b buffer_api \<Rightarrow> host \<Rightarrow> bool \<Rightarrow> 'b dispatch_config \<Rightarrow> 8 word list \<Rightarrow>
    'b buffer_ref list \<Rightarrow> storage \<Rightarrow> (host_state \<times> bool list) status" where
  "simulator_arguments B h indirect config constants bindings cb =
     sbind (workgroup_counts B h indirect config) (\<lambda>counts.
       if length constants mod 4 \<noteq> 0 then ErrS FAILED_PRECONDITION
       else sbind (gather_bindings B 0 bindings cb []) (\<lambda>(cb1, writeable).
         OkS (simulator_state config counts constants (length bindings) cb1, writeable)))"

definition simulator_dispatch :: "'b buffer_api \<Rightarrow> 'm core_api \<Rightarrow> sim_executable \<Rightarrow> 32 word \<Rightarrow> bool \<Rightarrow> 'b dispatch_config \<Rightarrow>
    8 word list \<Rightarrow> 'b buffer_ref list \<Rightarrow> storage \<Rightarrow> 'm \<Rightarrow> host \<Rightarrow> (unit status \<times> 'm \<times> host) option" where
  "simulator_dispatch B S e export_ordinal indirect config constants bindings cb m h =
     (case simulator_arguments B h indirect config constants bindings cb of
        ErrS c \<Rightarrow> Some (ErrS c, m, h)
      | TrapS \<Rightarrow> Some (TrapS, m, h)
      | OkS (st, writeable) \<Rightarrow>
          issue_dispatch S (dispatch_image e) st (Some writeable) (ucast export_ordinal) 0 m h)"

text \<open>An executable that runs on the host: its attributes per export, and its kernels on the host's memory.\<close>

record dispatch_attrs =
  attrs_constant_count :: nat
  attrs_binding_count :: nat
  local_memory_pages :: nat

definition inline_dispatch :: "'b buffer_api \<Rightarrow> nat \<Rightarrow> bool \<Rightarrow> dispatch_attrs \<Rightarrow> (host_state \<Rightarrow> nat \<Rightarrow> host call) \<Rightarrow> bool \<Rightarrow>
    'b dispatch_config \<Rightarrow> 8 word list \<Rightarrow> 'b buffer_ref list \<Rightarrow> storage \<Rightarrow> host \<Rightarrow> unit status \<times> host" where
  "inline_dispatch B page_size alloc_ok attrs run_kernel indirect config constants bindings cb h =
     (let local_memory_size = local_memory_pages attrs * page_size + dynamic_local_memory config in
      case sbind (workgroup_counts B h indirect config) (\<lambda>counts.
        if length constants mod 4 \<noteq> 0 then ErrS FAILED_PRECONDITION
        else if length constants \<noteq> attrs_constant_count attrs * 4 then ErrS INVALID_ARGUMENT
        else if length bindings \<noteq> attrs_binding_count attrs then ErrS INVALID_ARGUMENT
        else sbind (gather_checked B 0 bindings cb) (\<lambda>cb1.
          if 0 < local_memory_size \<and> \<not> alloc_ok then ErrS RESOURCE_EXHAUSTED
          else OkS (simulator_state config counts constants (length bindings) cb1))) of
        ErrS c \<Rightarrow> (ErrS c, h)
      | TrapS \<Rightarrow> (TrapS, h)
      | OkS st \<Rightarrow>
          (case issue_dispatch_inline (run_kernel st local_memory_size) (hs_count_x st) (hs_count_y st) (ucast (hs_count_z st)) h of
             (None, h1) \<Rightarrow> (OkS (), h1)
           | (Some c, h1) \<Rightarrow> (ErrS c, h1)))"

definition command_buffer_dispatch :: "'b buffer_api \<Rightarrow> 'm core_api \<Rightarrow> nat \<Rightarrow> bool \<Rightarrow>
    (dispatch_attrs list \<times> (nat \<Rightarrow> host_state \<Rightarrow> nat \<Rightarrow> host call)) executable \<Rightarrow>
    32 word \<Rightarrow> bool \<Rightarrow> bool \<Rightarrow> 'b dispatch_config \<Rightarrow> 8 word list \<Rightarrow> 'b buffer_ref list \<Rightarrow> storage \<Rightarrow> 'm \<Rightarrow> host \<Rightarrow>
    (unit status \<times> 'm \<times> host) option" where
  "command_buffer_dispatch B S page_size alloc_ok e export_ordinal custom_arguments indirect config constants bindings cb m h =
     (if custom_arguments then Some (ErrS UNIMPLEMENTED, m, h)
      else case e of
        SimulatorExecutable x \<Rightarrow> simulator_dispatch B S x export_ordinal indirect config constants bindings cb m h
      | LoadedExecutable (attrs, kernels) \<Rightarrow>
          if length attrs \<le> unat export_ordinal then Some (TrapS, m, h)
          else case inline_dispatch B page_size alloc_ok (attrs ! unat export_ordinal) (kernels (unat export_ordinal))
              indirect config constants bindings cb h of
            (r, h1) \<Rightarrow> Some (r, m, h1))"

section \<open>Lemmas on gathering\<close>

lemma store_binding_OkS:
  "store_binding cb i p n = OkS cb1 \<longleftrightarrow> i < length (binding_ptr_storage cb) \<and> i < length (binding_length_storage cb) \<and>
    cb1 = cb\<lparr>binding_ptr_storage := (binding_ptr_storage cb)[i := p], binding_length_storage := (binding_length_storage cb)[i := n]\<rparr>"
  by (auto simp: store_binding_def)

lemma gather_bindings_spec:
  "gather_bindings B i rs cb w = OkS (cb1, w1) \<Longrightarrow>
    length (binding_ptr_storage cb1) = length (binding_ptr_storage cb) \<and>
    length (binding_length_storage cb1) = length (binding_length_storage cb) \<and>
    length w1 = length w + length rs \<and>
    (\<forall>k < i. binding_ptr_storage cb1 ! k = binding_ptr_storage cb ! k \<and>
       binding_length_storage cb1 ! k = binding_length_storage cb ! k) \<and>
    (\<forall>j < length rs. i + j < length (binding_ptr_storage cb) \<and> i + j < length (binding_length_storage cb) \<and>
       map_ref B (rs ! j) = OkS (binding_ptr_storage cb1 ! (i + j), binding_length_storage cb1 ! (i + j)))"
proof (induction rs arbitrary: i cb w)
  case (Cons r rs)
  obtain p n cb2 where m: "map_ref B r = OkS (p, n)" and st: "store_binding cb i p n = OkS cb2"
    and rest: "gather_bindings B (Suc i) rs cb2 (w @ [case ref_buffer r of None \<Rightarrow> False | Some b \<Rightarrow> allows_write B b]) = OkS (cb1, w1)"
    using Cons.prems by (auto simp: sbind_OkS)
  note ih = Cons.IH[OF rest]
  have i: "i < length (binding_ptr_storage cb)" "i < length (binding_length_storage cb)"
    and cb2: "cb2 = cb\<lparr>binding_ptr_storage := (binding_ptr_storage cb)[i := p],
      binding_length_storage := (binding_length_storage cb)[i := n]\<rparr>"
    using st by (auto simp: store_binding_OkS)
  have here: "binding_ptr_storage cb1 ! i = p" "binding_length_storage cb1 ! i = n" using ih i by (auto simp: cb2)
  show ?case
  proof (intro conjI allI impI)
    fix j assume j: "j < length (r # rs)"
    show "i + j < length (binding_ptr_storage cb)" using ih i j by (cases j) (auto simp: cb2)
    show "i + j < length (binding_length_storage cb)" using ih i j by (cases j) (auto simp: cb2)
    show "map_ref B ((r # rs) ! j) = OkS (binding_ptr_storage cb1 ! (i + j), binding_length_storage cb1 ! (i + j))"
      using ih m here j by (cases j) auto
  qed (use ih in \<open>auto simp: cb2\<close>)
qed simp

lemma simulator_arguments_OkS:
  assumes "simulator_arguments B h indirect config constants bindings cb = OkS (st, writeable)"
  obtains counts cb1 where "workgroup_counts B h indirect config = OkS counts"
    "gather_bindings B 0 bindings cb [] = OkS (cb1, writeable)"
    "st = simulator_state config counts constants (length bindings) cb1"
  using assms by (auto simp: simulator_arguments_def sbind_OkS split: if_splits)

lemma simulator_writeable:
  assumes "simulator_arguments B h indirect config constants bindings cb = OkS (st, writeable)"
  shows "writeable_ok (Some writeable) (unat (hs_binding_count st))"
proof -
  obtain counts cb1 where g: "gather_bindings B 0 bindings cb [] = OkS (cb1, writeable)"
    and st: "st = simulator_state config counts constants (length bindings) cb1"
    using assms by (rule simulator_arguments_OkS)
  have "unat (of_nat (length bindings) :: 8 word) \<le> length bindings" by (simp add: unat_of_nat)
  then show ?thesis using gather_bindings_spec[OF g]
    by (simp add: writeable_ok_def st simulator_state_def split: prod.split)
qed

lemma dispatch_in_memory_fields:
  assumes "dispatch_in_memory st ord h n L r M"
  shows "workgroup_count_x r = hs_count_x st" "workgroup_count_y r = hs_count_y st"
    "workgroup_count_z r = ucast (hs_count_z st)" "ordinal r = ucast ord" "request_at M (dispatch_request_addr L) = r"
proof -
  have e: "r = (base_request st ord)\<lparr>push_constants_addr := push_constants_addr r, binding_ptrs_addr := binding_ptrs_addr r,
       binding_lengths_addr := binding_lengths_addr r, local_memory_addr := local_memory_addr r\<rparr>"
    using assms unfolding dispatch_in_memory_def by (elim conjE)
  show "workgroup_count_x r = hs_count_x st" using arg_cong[OF e, of workgroup_count_x] by (simp add: base_request_def)
  show "workgroup_count_y r = hs_count_y st" using arg_cong[OF e, of workgroup_count_y] by (simp add: base_request_def)
  show "workgroup_count_z r = ucast (hs_count_z st)" using arg_cong[OF e, of workgroup_count_z] by (simp add: base_request_def)
  show "ordinal r = ucast ord" using arg_cong[OF e, of ordinal] by (simp add: base_request_def)
  show "request_at M (dispatch_request_addr L) = r" using assms by (simp add: dispatch_in_memory_def)
qed

lemma ucast_up_down: "ucast (ucast (x :: 32 word) :: 64 word) = x"
  by (rule bit_word_eqI) (simp add: bit_ucast_iff)

text \<open>A gathered binding that is in memory has the length and the bytes of its range.\<close>

lemma gathered_placed:
  assumes g: "gather_bindings B 0 bindings cb [] = OkS (cb1, writeable)"
    and L: "dispatch_in_memory st ord h n L r M" and c: "unat (hs_binding_count st) = length bindings"
    and st: "hs_binding_ptrs st = Some (binding_ptr_storage cb1)" "hs_binding_lengths st = Some (binding_length_storage cb1)"
  shows "\<forall>i < length bindings. \<exists>p n. map_ref B (bindings ! i) = OkS (p, n) \<and> word_at M (binding_lengths_addr r) i = ucast n \<and>
    (n \<noteq> 0 \<longrightarrow> (\<exists>q. p = Some q \<and> read_mem (word_at M (binding_ptrs_addr r) i) (unat n) M = host_bytes h q (unat n)))"
proof (intro allI impI)
  fix i assume i: "i < length bindings"
  have gi: "map_ref B (bindings ! i) = OkS (binding_ptr_storage cb1 ! i, binding_length_storage cb1 ! i)"
    "i < length (binding_ptr_storage cb1)" "i < length (binding_length_storage cb1)"
    using gather_bindings_spec[OF g] i by auto
  obtain as1 where as1: "list_all2 (binding_placed st h M (binding_ptrs_addr r) (binding_lengths_addr r)) [0..<length bindings] as1"
    using L by (auto simp: dispatch_in_memory_def c)
  have "binding_placed st h M (binding_ptrs_addr r) (binding_lengths_addr r) i (as1 ! i)"
    using list_all2_nthD[OF as1, of i] i by simp
  then show "\<exists>p n. map_ref B (bindings ! i) = OkS (p, n) \<and> word_at M (binding_lengths_addr r) i = ucast n \<and>
      (n \<noteq> 0 \<longrightarrow> (\<exists>q. p = Some q \<and> read_mem (word_at M (binding_ptrs_addr r) i) (unat n) M = host_bytes h q (unat n)))"
    using gi by (auto simp: binding_placed_def st element_def)
qed

section \<open>Properties\<close>


text \<open>
  A dispatch recorded on the simulator that returns an error, from the gathering
  of its arguments to the check of the request, leaves host memory unchanged.
\<close>

theorem command_dispatch_error_keeps_host:
  assumes "core_ok S" "simulator_dispatch B S e ord indirect config constants bindings cb m h = Some (s, m2, h2)" "s \<noteq> OkS ()"
  shows "h2 = h"
proof (cases "simulator_arguments B h indirect config constants bindings cb")
  case (OkS a)
  obtain st writeable where a: "a = (st, writeable)" by (cases a)
  have d: "issue_dispatch S (dispatch_image e) st (Some writeable) (ucast ord) 0 m h = Some (s, m2, h2)"
    using assms(2) OkS by (simp add: simulator_dispatch_def a)
  show ?thesis by (rule dispatch_error_keeps_host[OF assms(1) simulator_writeable[OF OkS[unfolded a]] d assms(3)])
qed (use assms(2) in \<open>auto simp: simulator_dispatch_def\<close>)

text \<open>The simulator path does not bound the bindings: with more than the storage holds it writes past its end.\<close>

lemma gather_bindings_overflow:
  assumes "\<forall>r \<in> set rs. \<exists>p n. map_ref B r = OkS (p, n)" "length (binding_ptr_storage cb) < i + length rs"
    "length (binding_length_storage cb) = length (binding_ptr_storage cb)" "i \<le> length (binding_ptr_storage cb)"
  shows "gather_bindings B i rs cb w = TrapS"
  using assms
proof (induction rs arbitrary: i cb w)
  case (Cons r rs)
  then obtain p n where m: "map_ref B r = OkS (p, n)" by auto
  show ?case
  proof (cases "i < length (binding_ptr_storage cb)")
    case True
    then show ?thesis using m Cons by (auto simp: store_binding_def)
  qed (use m in \<open>simp add: store_binding_def\<close>)
qed simp

text \<open>The dispatch of the example on the simulator, through a command buffer.\<close>

definition flat_buffers :: "nat buffer_api" where
  "flat_buffers = \<lparr>map_range = (\<lambda>b off n. OkS (Some (b + off), of_nat n)), allows_write = (\<lambda>_. True)\<rparr>"

definition small_config :: "nat dispatch_config" where
  "small_config = \<lparr>config_size = (0, 1, 1), config_count = (1, 1, 1),
     config_count_ref = \<lparr>ref_buffer = None, ref_offset = 0, ref_length = 0\<rparr>, dynamic_local_memory = 0\<rparr>"

definition small_refs :: "nat buffer_ref list" where
  "small_refs = [\<lparr>ref_buffer = Some 90, ref_offset = 10, ref_length = 2\<rparr>]"

definition small_storage :: storage where
  "small_storage = \<lparr>binding_ptr_storage = [None], binding_length_storage = [0]\<rparr>"

definition small_executable :: sim_executable where
  "small_executable = \<lparr>dispatch_image = tiny_elf, export_count = 1\<rparr>"

lemma small_arguments:
  "simulator_arguments flat_buffers (\<lambda>_. 7) False small_config [] small_refs small_storage = OkS (small_dispatch, [True])"
  by (simp add: simulator_arguments_def workgroup_counts_def small_config_def small_refs_def small_storage_def flat_buffers_def
      map_ref_def store_binding_def simulator_state_def small_dispatch_def or_one_def constant_words_def)

lemma small_command:
  "simulator_dispatch flat_buffers small_core small_executable 0 False small_config [] small_refs small_storage (\<lambda>_. 0) (\<lambda>_. 7) =
    Some (OkS (), small_done, host_write 100 [8, 7] (\<lambda>_. 7))"
  using small_issue_writeable[of "Some [True]"]
  by (simp add: simulator_dispatch_def small_arguments small_executable_def writes_back_def writeable_ok_def element_def
      small_dispatch_def)


lemma command_dispatch_error_keeps_host_witness:
  "simulator_dispatch flat_buffers small_core small_executable 0 False small_config [1] small_refs small_storage (\<lambda>_. 0) (\<lambda>_. 7) =
     Some (ErrS FAILED_PRECONDITION, \<lambda>_. 0, \<lambda>_. 7) \<and> (\<lambda>_ :: nat. 7 :: 8 word) = (\<lambda>_. 7)"
proof -
  have d: "simulator_dispatch flat_buffers small_core small_executable 0 False small_config [1] small_refs small_storage
      (\<lambda>_. 0) (\<lambda>_. 7) = Some (ErrS FAILED_PRECONDITION, \<lambda>_. 0, \<lambda>_. 7)"
    by (simp add: simulator_dispatch_def simulator_arguments_def workgroup_counts_def small_config_def)
  show ?thesis using d command_dispatch_error_keeps_host[OF small_core_ok d] by simp
qed

end
