(* ===== verification/DeviceQueue.thy ===== *)
theory DeviceQueue
  imports Semaphore CommandBuffer
begin

text \<open>
  The queue operations of the device (\<open>runtime/driver/coralnpu_device.c\<close>). A wait
  blocks while other threads go on, so it is a parameter: \<open>await\<close> takes the store in
  which a wait begins to its status and the store in which it ends, \<open>None\<close> when it
  never ends. What it promises is the locale \<open>blocking_wait\<close>, whose laws the
  semaphores of the runtime meet. \<open>work\<close> stands for the replay of the deferred
  command buffer, on a world of any type. The list functions of IREE
  (\<open>iree_hal_semaphore_list_signal\<close> and \<open>_fail\<close>) are the parameter \<open>list_api\<close>.
\<close>

section \<open>The device\<close>

definition device_check_params :: "nat \<Rightarrow> unit status" where
  "device_check_params arena_block_size = (if arena_block_size < 4096 then ErrS INVALID_ARGUMENT else OkS ())"

text \<open>IREE's pattern match, its query of the loaders and its CPU data are parameters.\<close>

definition device_query_i64 :: "(string \<Rightarrow> string \<Rightarrow> bool) \<Rightarrow> (string \<Rightarrow> bool) \<Rightarrow> (string \<Rightarrow> int status) \<Rightarrow>
    string \<Rightarrow> string \<Rightarrow> string \<Rightarrow> int status" where
  "device_query_i64 match_pattern any_loader cpu_data identifier category key =
     (if category = ''hal.device.id'' then OkS (if match_pattern identifier key then 1 else 0)
      else if category = ''hal.executable.format'' then
        (if is_simulator_format key then OkS 1 else OkS (if any_loader key then 1 else 0))
      else if category = ''hal.device'' then (if key = ''concurrency'' then OkS 1 else ErrS NOT_FOUND)
      else if category = ''hal.dispatch'' then (if key = ''concurrency'' then OkS 1 else ErrS NOT_FOUND)
      else if category = ''hal.cpu'' then cpu_data key
      else ErrS NOT_FOUND)"

text \<open>A command buffer is inline or deferred by its mode; the latter is IREE's.\<close>

definition device_create_command_buffer :: "bool \<Rightarrow> (unit status \<times> bool) \<Rightarrow> buffer_mode \<Rightarrow> nat \<Rightarrow> nat \<Rightarrow> unit status \<times> bool" where
  "device_create_command_buffer alloc_ok deferred_create mode binding_capacity needed =
     (if allow_inline mode then command_buffer_create alloc_ok mode binding_capacity needed else deferred_create)"

section \<open>Queue operations\<close>

type_synonym await = "sem_list \<Rightarrow> store \<Rightarrow> (status_code option \<times> store) option"
type_synonym 'w work = "'w \<Rightarrow> status_code option \<times> 'w"

text \<open>\<open>multi_signal\<close>, its case of a single semaphore included.\<close>

definition multi_signal :: "store \<Rightarrow> sem_list \<Rightarrow> status_code option \<times> store" where
  "multi_signal \<sigma> l =
     (case l of
        [] \<Rightarrow> (None, \<sigma>)
      | [(i, v)] \<Rightarrow> (case signal_unsafe (\<sigma> i) v of (Some e, _) \<Rightarrow> (Some e, \<sigma>) | (None, s1) \<Rightarrow> (None, \<sigma>(i := s1)))
      | _ \<Rightarrow> (case signal_all \<sigma> l of (r, \<sigma>1, _) \<Rightarrow> (r, \<sigma>1)))"

text \<open>The replay is a no-op for a command buffer that ran while it was recorded.\<close>

definition apply_deferred :: "bool \<Rightarrow> 'w work \<Rightarrow> 'w work" where
  "apply_deferred deferred replay w = (if deferred then replay w else (None, w))"

definition queue_execute :: "await \<Rightarrow> sem_list \<Rightarrow> sem_list \<Rightarrow> bool \<Rightarrow> 'w work \<Rightarrow> store \<Rightarrow> 'w \<Rightarrow>
    (status_code option \<times> store \<times> 'w) option" where
  "queue_execute await waits signals deferred replay \<sigma> w =
     Option.bind (await waits \<sigma>) (\<lambda>(r, \<sigma>1).
       if r \<noteq> None then Some (r, \<sigma>1, w)
       else case apply_deferred deferred replay w of
         (Some e, w1) \<Rightarrow> Some (Some e, \<sigma>1, w1)
       | (None, w1) \<Rightarrow> (case multi_signal \<sigma>1 signals of (r1, \<sigma>2) \<Rightarrow> Some (r1, \<sigma>2, w1)))"

record list_api =
  list_signal :: "store \<Rightarrow> sem_list \<Rightarrow> status_code option \<times> store"
  list_fail :: "status_code \<Rightarrow> sem_list \<Rightarrow> store \<Rightarrow> store"

definition queue_alloca :: "list_api \<Rightarrow> await \<Rightarrow> sem_list \<Rightarrow> sem_list \<Rightarrow> 'w work \<Rightarrow> store \<Rightarrow> 'w \<Rightarrow>
    (status_code option \<times> store \<times> 'w) option" where
  "queue_alloca L await waits signals allocate \<sigma> w =
     Option.bind (await waits \<sigma>) (\<lambda>(r, \<sigma>1).
       if r \<noteq> None then Some (r, \<sigma>1, w)
       else case allocate w of
         (Some e, w1) \<Rightarrow> Some (Some e, \<sigma>1, w1)
       | (None, w1) \<Rightarrow> (case list_signal L \<sigma>1 signals of (r1, \<sigma>2) \<Rightarrow> Some (r1, \<sigma>2, w1)))"

text \<open>The call gets the semaphores it may signal itself, and may change the store.\<close>

definition queue_host_call :: "list_api \<Rightarrow> await \<Rightarrow> sem_list \<Rightarrow> sem_list \<Rightarrow> bool \<Rightarrow>
    (sem_list \<Rightarrow> store \<times> 'w \<Rightarrow> status_code option \<times> store \<times> 'w) \<Rightarrow> store \<Rightarrow> 'w \<Rightarrow>
    (status_code option \<times> store \<times> 'w) option" where
  "queue_host_call L await waits signals nonblocking call \<sigma> w =
     Option.bind (await waits \<sigma>) (\<lambda>(r, \<sigma>1).
       if r \<noteq> None then Some (r, \<sigma>1, w)
       else case (if nonblocking then list_signal L \<sigma>1 signals else (None, \<sigma>1)) of
         (Some e, \<sigma>2) \<Rightarrow> Some (Some e, \<sigma>2, w)
       | (None, \<sigma>2) \<Rightarrow>
         (case call (if nonblocking then [] else signals) (\<sigma>2, w) of (call_status, \<sigma>3, w1) \<Rightarrow>
            if nonblocking \<or> call_status = Some DEFERRED then Some (None, \<sigma>3, w1)
            else case call_status of
              None \<Rightarrow> (case list_signal L \<sigma>3 signals of (r1, \<sigma>4) \<Rightarrow> Some (r1, \<sigma>4, w1))
            | Some e \<Rightarrow> Some (None, list_fail L e signals \<sigma>3, w1)))"

text \<open>What IREE documents of failing a list: every semaphore of it is failed, in order.\<close>

definition fail_all :: "64 word \<Rightarrow> status_code \<Rightarrow> sem_list \<Rightarrow> store \<Rightarrow> store" where
  "fail_all failure_value e l \<sigma> = fold (\<lambda>(i, v) \<sigma>. \<sigma>(i := snd (semaphore_fail failure_value e (\<sigma> i)))) l \<sigma>"

section \<open>What a wait promises\<close>

locale blocking_wait =
  fixes await :: await
  assumes await_grows: "await l \<sigma> = Some (r, \<sigma>1) \<Longrightarrow> store_le \<sigma> \<sigma>1"
    and await_ok: "await l \<sigma> = Some (None, \<sigma>1) \<Longrightarrow> all_signaled \<sigma>1 l"
begin

text \<open>Work runs only after every semaphore it waits for was reached.\<close>

lemma execute_after_waits:
  assumes "queue_execute await waits signals deferred replay \<sigma> w = Some (r, \<sigma>2, w1)" "w1 \<noteq> w"
  shows "\<exists>\<sigma>1. store_le \<sigma> \<sigma>1 \<and> all_signaled \<sigma>1 waits \<and> deferred \<and> w1 = snd (replay w)"
proof -
  obtain r1 \<sigma>1 where a: "await waits \<sigma> = Some (r1, \<sigma>1)" and r1: "r1 = None"
    using assms by (auto simp: queue_execute_def bind_eq_Some_conv split: if_splits)
  have "deferred" "w1 = snd (replay w)"
    using assms a r1
    by (auto simp: queue_execute_def apply_deferred_def split: prod.splits option.splits if_splits)
  then show ?thesis using await_grows[OF a] await_ok[OF a[unfolded r1]] by blast
qed

text \<open>A result other than ok, from the wait or the work, signals nothing.\<close>

lemma execute_error_signals_nothing:
  assumes "await waits \<sigma> = Some (r1, \<sigma>1)" "r1 \<noteq> None \<or> (deferred \<and> fst (replay w) \<noteq> None)"
  shows "\<exists>r w1. queue_execute await waits signals deferred replay \<sigma> w = Some (r, \<sigma>1, w1) \<and> r \<noteq> None"
  using assms by (cases "replay w") (auto simp: queue_execute_def apply_deferred_def split: option.splits)

end

text \<open>
  The waits of the runtime: a wait without a deadline for all of a list, in which
  \<open>schedule\<close> says what the other threads have done to the store by the time it
  ends, if they ever bring about what it waits for.
\<close>

definition wait_end :: "(store \<Rightarrow> store option) \<Rightarrow> wait_plan \<Rightarrow> store \<Rightarrow> store option" where
  "wait_end schedule p \<sigma> =
     (let here = (if plan_condition p \<sigma> then Some \<sigma> else None) in
      case schedule \<sigma> of
        None \<Rightarrow> here
      | Some \<sigma>1 \<Rightarrow> if store_le \<sigma> \<sigma>1 \<and> plan_condition p \<sigma>1 then Some \<sigma>1 else here)"

definition runtime_await :: "(store \<Rightarrow> store option) \<Rightarrow> await" where
  "runtime_await schedule l \<sigma> =
     (case multi_wait \<sigma> ModeAll l Infinite of
        Return r \<Rightarrow> Some (r, \<sigma>)
      | Poll mode l \<Rightarrow> Some (result_from_state mode \<sigma> l, \<sigma>)
      | AwaitOne i v t \<Rightarrow> map_option (\<lambda>\<sigma>1. (wait_result (\<sigma>1 i) v, \<sigma>1)) (wait_end schedule (AwaitOne i v t) \<sigma>)
      | AwaitMany mode l t \<Rightarrow>
          map_option (\<lambda>\<sigma>1. (result_from_state mode \<sigma>1 l, \<sigma>1)) (wait_end schedule (AwaitMany mode l t) \<sigma>))"

lemma wait_end_Some: "wait_end schedule p \<sigma> = Some \<sigma>1 \<Longrightarrow> store_le \<sigma> \<sigma>1 \<and> plan_condition p \<sigma>1"
  by (auto simp: wait_end_def Let_def split: option.splits if_splits)

interpretation rw: blocking_wait "runtime_await schedule" for schedule
proof
  fix l \<sigma> r \<sigma>1
  assume a: "runtime_await schedule l \<sigma> = Some (r, \<sigma>1)"
  show "store_le \<sigma> \<sigma>1"
    using a wait_end_Some by (fastforce simp: runtime_await_def split: wait_plan.splits)
next
  fix l \<sigma> \<sigma>1
  assume a: "runtime_await schedule l \<sigma> = Some (None, \<sigma>1)"
  consider "l = []" | i v where "l = [(i, v)]" | i v j u l1 where "l = (i, v) # (j, u) # l1"
    by (metis neq_Nil_conv surj_pair)
  then show "all_signaled \<sigma>1 l"
  proof cases
    case 2
    then show ?thesis using a
      by (auto simp: runtime_await_def multi_wait_def wait_one_def wait_enter_def is_signaled_def
          dest!: wait_end_Some split: option.splits if_splits)
  next
    case 3
    then show ?thesis using a
      by (auto simp: runtime_await_def multi_wait_def dest!: wait_end_Some split: if_splits)
  qed simp
qed

section \<open>Signals\<close>

lemma signal_all_signaled:
  "signal_all \<sigma> l = (None, \<sigma>1, dn) \<Longrightarrow> store_le \<sigma> \<sigma>1 \<and> all_signaled \<sigma>1 l"
proof (induction \<sigma> l arbitrary: \<sigma>1 dn rule: signal_all.induct)
  case (2 \<sigma> i v l)
  obtain s1 where s1: "signal_unsafe (\<sigma> i) v = (None, s1)"
    using 2(2) by (cases "signal_unsafe (\<sigma> i) v"; cases "fst (signal_unsafe (\<sigma> i) v)") auto
  obtain dn1 where r: "signal_all (\<sigma>(i := s1)) l = (None, \<sigma>1, dn1)"
    using 2(2) s1 by (auto split: prod.splits)
  have ih: "store_le (\<sigma>(i := s1)) \<sigma>1" "all_signaled \<sigma>1 l" using 2(1)[OF s1[symmetric] refl r] by blast+
  have "store_le \<sigma> (\<sigma>(i := s1))" using sem_le_signal[OF s1] by (simp add: store_le_def)
  then have "store_le \<sigma> \<sigma>1" using ih(1) by (rule store_le_trans)
  moreover have "is_signaled s1 v" using s1 by (auto simp: signal_unsafe_def is_signaled_def split: if_splits)
  then have "is_signaled (\<sigma>1 i) v" using ih(1) sem_le_signaled[of s1 "\<sigma>1 i" v] by (auto simp: store_le_def dest: spec[of _ i])
  ultimately show ?case using ih(2) by simp
qed simp

lemma multi_signal_ok:
  assumes "multi_signal \<sigma> l = (None, \<sigma>1)"
  shows "store_le \<sigma> \<sigma>1 \<and> all_signaled \<sigma>1 l"
proof -
  consider "l = []" | i v where "l = [(i, v)]" | i v j u l1 where "l = (i, v) # (j, u) # l1"
    by (metis neq_Nil_conv surj_pair)
  then show ?thesis
  proof cases
    case 2
    then obtain s1 where s1: "signal_unsafe (\<sigma> i) v = (None, s1)" "\<sigma>1 = \<sigma>(i := s1)"
      using assms by (auto simp: multi_signal_def split: prod.splits option.splits)
    then show ?thesis using sem_le_signal[OF s1(1)] 2
      by (auto simp: store_le_def signal_unsafe_def is_signaled_def split: if_splits)
  next
    case 3
    then obtain dn where "signal_all \<sigma> l = (None, \<sigma>1, dn)"
      using assms by (cases "signal_all \<sigma> l") (auto simp: multi_signal_def)
    then show ?thesis by (rule signal_all_signaled)
  qed (use assms in \<open>simp add: multi_signal_def\<close>)
qed

lemma fail_all_failed:
  "(i, v) \<in> set l \<Longrightarrow> failure_status (fail_all F e l \<sigma> i) \<noteq> None"
  "store_le \<sigma> (fail_all F e l \<sigma>)"
proof -
  have one: "store_le \<sigma> (\<sigma>(i := snd (semaphore_fail F e (\<sigma> i))))" for \<sigma> i
    using sem_le_fail[of F e "\<sigma> i"] by (cases "semaphore_fail F e (\<sigma> i)") (simp add: store_le_def)
  have grow: "store_le \<sigma> (fail_all F e l \<sigma>)" for l \<sigma>
  proof (induction l arbitrary: \<sigma>)
    case (Cons x l)
    show ?case using one store_le_trans Cons.IH by (fastforce simp: fail_all_def split_beta)
  qed (simp add: fail_all_def)
  show "store_le \<sigma> (fail_all F e l \<sigma>)" by (rule grow)
  show "(i, v) \<in> set l \<Longrightarrow> failure_status (fail_all F e l \<sigma> i) \<noteq> None"
  proof (induction l arbitrary: \<sigma>)
    case (Cons x l)
    show ?case
    proof (cases "(i, v) \<in> set l")
      case False
      let ?s = "\<sigma>(i := snd (semaphore_fail F e (\<sigma> i)))"
      have x: "x = (i, v)" using Cons.prems False by simp
      have "failure_status (?s i) \<noteq> None" by (auto simp: semaphore_fail_def)
      then have "failure_status (fail_all F e l ?s i) \<noteq> None"
        using grow[of ?s l] by (auto simp: store_le_def sem_le_def)
      then show ?thesis by (simp add: fail_all_def x)
    qed (use Cons.IH in \<open>simp add: fail_all_def split_beta\<close>)
  qed simp
qed

section \<open>Properties\<close>

text \<open>
  A submission that succeeds has waited until every semaphore of its wait list
  reached its payload, then ran its command buffer with success, and then signaled its
  list: every payload of it is reached in the store it leaves.
\<close>

theorem queue_execute_order:
  assumes "queue_execute (runtime_await schedule) waits signals deferred replay \<sigma> w = Some (None, \<sigma>2, w1)"
  shows "\<exists>\<sigma>1. store_le \<sigma> \<sigma>1 \<and> all_signaled \<sigma>1 waits \<and> apply_deferred deferred replay w = (None, w1) \<and>
    multi_signal \<sigma>1 signals = (None, \<sigma>2) \<and> store_le \<sigma>1 \<sigma>2 \<and> all_signaled \<sigma>2 signals"
proof -
  obtain \<sigma>1 where a: "runtime_await schedule waits \<sigma> = Some (None, \<sigma>1)"
    and d: "apply_deferred deferred replay w = (None, w1)" and m: "multi_signal \<sigma>1 signals = (None, \<sigma>2)"
    using assms by (auto simp: queue_execute_def bind_eq_Some_conv split: if_splits prod.splits option.splits)
  then show ?thesis using rw.await_grows[OF a] rw.await_ok[OF a] multi_signal_ok[OF m] by blast
qed


text \<open>
  The device advertises an executable format exactly when its executable cache
  can prepare it, when IREE's query of the loaders asks each of them (under the
  caching mode of the cache).
\<close>

theorem format_query_agrees:
  assumes "any_loader key \<longleftrightarrow> (\<exists>l \<in> set loaders. query_support l key)"
  shows "device_query_i64 match_pattern any_loader cpu_data identifier ''hal.executable.format'' key = OkS 1 \<longleftrightarrow>
    can_prepare_format loaders key"
  using assms by (auto simp: device_query_i64_def can_prepare_format_def list_ex_iff)

text \<open>
  A submission whose wait or whose work fails leaves the semaphores it was to signal as
  they were: neither signaled nor failed.
\<close>

lemma queue_execute_error_silent:
  assumes "runtime_await schedule waits \<sigma> = Some (r1, \<sigma>1)" "r1 \<noteq> None \<or> (deferred \<and> fst (replay w) \<noteq> None)"
  shows "\<exists>r w1. queue_execute (runtime_await schedule) waits signals deferred replay \<sigma> w = Some (r, \<sigma>1, w1) \<and> r \<noteq> None"
  using assms by (rule rw.execute_error_signals_nothing)

definition fresh_store :: store where
  "fresh_store = (\<lambda>i. semaphore_create 0)"

lemma queue_execute_order_witness:
  "\<exists>\<sigma>2. queue_execute (runtime_await (\<lambda>\<sigma>. Some (\<sigma>(0 := semaphore_create 5)))) [(0, 3)] [(1, 1)] True (\<lambda>n. (None, n + 1))
      fresh_store (0 :: nat) = Some (None, \<sigma>2, 1) \<and> all_signaled \<sigma>2 [(1, 1)]"
proof -
  let ?q = "queue_execute (runtime_await (\<lambda>\<sigma>. Some (\<sigma>(0 := semaphore_create 5)))) [(0, 3)] [(1, 1)] True (\<lambda>n. (None, n + 1))
      fresh_store (0 :: nat)"
  have g: "store_le fresh_store (fresh_store(0 := semaphore_create 5))"
    by (simp add: store_le_def sem_le_def fresh_store_def semaphore_create_def)
  then obtain \<sigma>2 where q: "?q = Some (None, \<sigma>2, 1)"
    by (simp add: queue_execute_def runtime_await_def multi_wait_def wait_one_def wait_enter_def fresh_store_def
        semaphore_create_def is_signaled_def wait_result_def apply_deferred_def wait_end_def multi_signal_def signal_unsafe_def)
  from queue_execute_order[OF q] q show ?thesis by blast
qed

definition vtable_lists :: list_api where
  "vtable_lists = \<lparr>list_signal = multi_signal, list_fail = fail_all 9\<rparr>"


lemma format_query_agrees_witness:
  "device_query_i64 (\<lambda>a b. a = b) (\<lambda>key. query_support picky_loader key) (\<lambda>key. ErrS NOT_FOUND) ''coralnpu''
      ''hal.executable.format'' ''embedded-elf-riscv_32'' = OkS 1 \<and>
    can_prepare_format [picky_loader] ''embedded-elf-riscv_32''"
  using format_query_agrees[of "\<lambda>key. query_support picky_loader key" "''embedded-elf-riscv_32''" "[picky_loader]"
      "\<lambda>a b. a = b" "\<lambda>key. ErrS NOT_FOUND" "''coralnpu''"]
  by (simp add: can_prepare_simulator)

end
