(* ===== verification/CommandReplay.thy ===== *)
theory CommandReplay
  imports DeviceQueue
begin

text \<open>
  Every command of the inline command buffer
  (\<open>runtime/driver/coralnpu_command_buffer.c\<close>) as a value, issued on a world that
  holds the buffer's state, the core and host memory; and the replay of a deferred
  command buffer by the device (\<open>coralnpu_device.c\<close>). IREE's buffer transfers are the
  parameter \<open>transfer_api\<close>, and its \<open>iree_hal_deferred_command_buffer_apply\<close> a function
  that gets the issue function of the target, with what it documents as the
  hypothesis \<open>replays\<close>: it issues the recorded commands in order up to the first error.
\<close>

section \<open>The state of a command buffer\<close>

text \<open>
  The storage of the bindings and the guess at the processor. The cached dispatch
  state is not kept: a dispatch assigns every field of it before it is read.
\<close>

record command_buffer =
  cb_storage :: storage
  cb_processor :: "nat \<times> 32 word"

definition command_buffer_reset :: "command_buffer \<Rightarrow> command_buffer" where
  "command_buffer_reset cb = \<lparr>
     cb_storage = \<lparr>binding_ptr_storage = map (\<lambda>_. None) (binding_ptr_storage (cb_storage cb)),
                   binding_length_storage = map (\<lambda>_. 0) (binding_length_storage (cb_storage cb))\<rparr>,
     cb_processor = (0, 0)\<rparr>"

definition update_processor_id :: "(nat \<times> 32 word \<Rightarrow> nat \<times> 32 word) \<Rightarrow> command_buffer \<Rightarrow> command_buffer" where
  "update_processor_id requery cb = cb\<lparr>cb_processor := requery (cb_processor cb)\<rparr>"

definition command_buffer_size :: "nat \<Rightarrow> nat \<Rightarrow> nat" where
  "command_buffer_size struct_size validation_state_size = struct_size + validation_state_size"

definition command_buffer_deinitialize :: "command_buffer \<Rightarrow> command_buffer" where
  "command_buffer_deinitialize cb = command_buffer_reset cb"

text \<open>What the loops over the bindings leave in the storage, wherever they stop.\<close>

fun gather_storage :: "'b buffer_api \<Rightarrow> bool \<Rightarrow> nat \<Rightarrow> 'b buffer_ref list \<Rightarrow> storage \<Rightarrow> storage" where
  "gather_storage B checked i [] cb = cb"
| "gather_storage B checked i (r # rs) cb =
     (if checked \<and> ref_buffer r = None then cb
      else case map_ref B r of
        OkS (p, n) \<Rightarrow> (case store_binding cb i p n of OkS cb1 \<Rightarrow> gather_storage B checked (Suc i) rs cb1 | _ \<Rightarrow> cb)
      | _ \<Rightarrow> cb)"

section \<open>Commands\<close>

type_synonym local_executable = "(dispatch_attrs list \<times> (nat \<Rightarrow> host_state \<Rightarrow> nat \<Rightarrow> host call)) executable"

datatype 'b command =
    Begin
  | End
  | BeginDebugGroup string
  | EndDebugGroup
  | ExecutionBarrier
  | SignalEvent nat
  | ResetEvent nat
  | WaitEvents "nat list"
  | AdviseBuffer "'b buffer_ref"
  | FillBuffer "'b buffer_ref" "8 word list"
  | UpdateBuffer "8 word list" nat "'b buffer_ref"
  | CopyBuffer "'b buffer_ref" "'b buffer_ref"
  | Collective
  | Dispatch local_executable "32 word" bool bool "'b dispatch_config" "8 word list" "'b buffer_ref list"

text \<open>
  IREE's transfers on host memory: a fill with a pattern, a write of the bytes a host
  pointer leads to, a copy.
\<close>

record 'b transfer_api =
  map_fill :: "'b \<Rightarrow> nat \<Rightarrow> nat \<Rightarrow> 8 word list \<Rightarrow> host \<Rightarrow> unit status \<times> host"
  map_write :: "'b \<Rightarrow> nat \<Rightarrow> 8 word list \<Rightarrow> nat \<Rightarrow> host \<Rightarrow> unit status \<times> host"
  map_copy :: "'b \<Rightarrow> nat \<Rightarrow> 'b \<Rightarrow> nat \<Rightarrow> nat \<Rightarrow> host \<Rightarrow> unit status \<times> host"

record ('b, 'm) env =
  env_buffers :: "'b buffer_api"
  env_transfers :: "'b transfer_api"
  env_core :: "'m core_api"
  env_page_size :: nat
  env_alloc_ok :: bool
  env_requery :: "nat \<times> 32 word \<Rightarrow> nat \<times> 32 word"

record 'm world =
  w_buffer :: command_buffer
  w_core :: 'm
  w_host :: host

definition on_host :: "(host \<Rightarrow> unit status \<times> host) \<Rightarrow> 'm world \<Rightarrow> (unit status \<times> 'm world) option" where
  "on_host f w = (case f (w_host w) of (s, h1) \<Rightarrow> Some (s, w\<lparr>w_host := h1\<rparr>))"

definition fill_buffer :: "'b transfer_api \<Rightarrow> 'b buffer_ref \<Rightarrow> 8 word list \<Rightarrow> host \<Rightarrow> unit status \<times> host" where
  "fill_buffer T target pattern h =
     (case ref_buffer target of None \<Rightarrow> (TrapS, h)
      | Some b \<Rightarrow> map_fill T b (ref_offset target) (ref_length target) pattern h)"

definition update_buffer :: "'b transfer_api \<Rightarrow> 8 word list \<Rightarrow> nat \<Rightarrow> 'b buffer_ref \<Rightarrow> host \<Rightarrow> unit status \<times> host" where
  "update_buffer T source source_offset target h =
     (case ref_buffer target of None \<Rightarrow> (TrapS, h)
      | Some b \<Rightarrow> map_write T b (ref_offset target) (drop source_offset source) (ref_length target) h)"

definition copy_buffer :: "'b transfer_api \<Rightarrow> 'b buffer_ref \<Rightarrow> 'b buffer_ref \<Rightarrow> host \<Rightarrow> unit status \<times> host" where
  "copy_buffer T source target h =
     (case (ref_buffer source, ref_buffer target) of
        (Some a, Some b) \<Rightarrow> map_copy T a (ref_offset source) b (ref_offset target) (ref_length target) h
      | _ \<Rightarrow> (TrapS, h))"

text \<open>The state a dispatch leaves in the command buffer, on every path of it.\<close>

definition dispatch_gathers :: "'b buffer_api \<Rightarrow> host \<Rightarrow> dispatch_attrs option \<Rightarrow> bool \<Rightarrow> 'b dispatch_config \<Rightarrow> 8 word list \<Rightarrow>
    nat \<Rightarrow> bool" where
  "dispatch_gathers B h attrs indirect config constants n \<longleftrightarrow>
     (\<exists>counts. workgroup_counts B h indirect config = OkS counts) \<and> length constants mod 4 = 0 \<and>
     (case attrs of None \<Rightarrow> True
      | Some a \<Rightarrow> length constants = attrs_constant_count a * 4 \<and> n = attrs_binding_count a)"

definition dispatch_buffer :: "('b, 'm) env \<Rightarrow> host \<Rightarrow> local_executable \<Rightarrow> 32 word \<Rightarrow> bool \<Rightarrow> bool \<Rightarrow> 'b dispatch_config \<Rightarrow>
    8 word list \<Rightarrow> 'b buffer_ref list \<Rightarrow> command_buffer \<Rightarrow> command_buffer" where
  "dispatch_buffer E h e export_ordinal custom_arguments indirect config constants bindings cb =
     (if custom_arguments then cb
      else let cb1 = update_processor_id (env_requery E) cb in
        case e of
          SimulatorExecutable x \<Rightarrow>
            (if dispatch_gathers (env_buffers E) h None indirect config constants (length bindings)
             then cb1\<lparr>cb_storage := gather_storage (env_buffers E) False 0 bindings (cb_storage cb1)\<rparr> else cb1)
        | LoadedExecutable (attrs, kernels) \<Rightarrow>
            if length attrs \<le> unat export_ordinal then cb
            else if dispatch_gathers (env_buffers E) h (Some (attrs ! unat export_ordinal)) indirect config constants (length bindings)
            then cb1\<lparr>cb_storage := gather_storage (env_buffers E) True 0 bindings (cb_storage cb1)\<rparr> else cb1)"

fun issue_command :: "('b, 'm) env \<Rightarrow> 'b command \<Rightarrow> 'm world \<Rightarrow> (unit status \<times> 'm world) option" where
  "issue_command E Begin w =
     Some (OkS (), w\<lparr>w_buffer := update_processor_id (env_requery E) (command_buffer_reset (w_buffer w))\<rparr>)"
| "issue_command E End w = Some (OkS (), w\<lparr>w_buffer := command_buffer_reset (w_buffer w)\<rparr>)"
| "issue_command E (BeginDebugGroup label) w = Some (OkS (), w)"
| "issue_command E EndDebugGroup w = Some (OkS (), w)"
| "issue_command E ExecutionBarrier w = Some (OkS (), w)"
| "issue_command E (SignalEvent event) w = Some (OkS (), w)"
| "issue_command E (ResetEvent event) w = Some (OkS (), w)"
| "issue_command E (WaitEvents events) w = Some (OkS (), w)"
| "issue_command E (AdviseBuffer r) w = Some (OkS (), w)"
| "issue_command E (FillBuffer target pattern) w = on_host (fill_buffer (env_transfers E) target pattern) w"
| "issue_command E (UpdateBuffer source source_offset target) w =
     on_host (update_buffer (env_transfers E) source source_offset target) w"
| "issue_command E (CopyBuffer source target) w = on_host (copy_buffer (env_transfers E) source target) w"
| "issue_command E Collective w = Some (ErrS UNIMPLEMENTED, w)"
| "issue_command E (Dispatch e export_ordinal custom_arguments indirect config constants bindings) w =
     (case command_buffer_dispatch (env_buffers E) (env_core E) (env_page_size E) (env_alloc_ok E) e export_ordinal
         custom_arguments indirect config constants bindings (cb_storage (w_buffer w)) (w_core w) (w_host w) of
        None \<Rightarrow> None
      | Some (s, m1, h1) \<Rightarrow> Some (s, \<lparr>
          w_buffer = dispatch_buffer E (w_host w) e export_ordinal custom_arguments indirect config constants bindings (w_buffer w),
          w_core = m1, w_host = h1\<rparr>))"

text \<open>Commands one after another, up to the first that does not return ok.\<close>

fun run_commands :: "('c \<Rightarrow> 'w \<Rightarrow> (unit status \<times> 'w) option) \<Rightarrow> 'c list \<Rightarrow> 'w \<Rightarrow> (unit status \<times> 'w) option" where
  "run_commands issue [] w = Some (OkS (), w)"
| "run_commands issue (c # cs) w =
     (case issue c w of
        None \<Rightarrow> None
      | Some (OkS _, w1) \<Rightarrow> run_commands issue cs w1
      | Some (ErrS e, w1) \<Rightarrow> Some (ErrS e, w1)
      | Some (TrapS, w1) \<Rightarrow> Some (TrapS, w1))"

section \<open>The replay of a deferred command buffer\<close>

datatype 'r submitted = NoBuffer | InlineBuffer | DeferredBuffer buffer_mode 'r

type_synonym ('b, 'm, 'r) deferred_apply =
  "('b command \<Rightarrow> 'm world \<Rightarrow> (unit status \<times> 'm world) option) \<Rightarrow> 'r \<Rightarrow> 'm world \<Rightarrow> (unit status \<times> 'm world) option"

text \<open>The inline command buffer of the replay lives on the stack, whatever was there.\<close>

definition apply_deferred_command_buffer :: "('b, 'm) env \<Rightarrow> ('b, 'm, 'r) deferred_apply \<Rightarrow> nat \<Rightarrow> 'r submitted \<Rightarrow>
    command_buffer \<Rightarrow> 'm \<Rightarrow> host \<Rightarrow> (unit status \<times> 'm \<times> host) option" where
  "apply_deferred_command_buffer E deferred_apply storage_size buffer stack m h =
     (case buffer of
        NoBuffer \<Rightarrow> Some (OkS (), m, h)
      | InlineBuffer \<Rightarrow> Some (OkS (), m, h)
      | DeferredBuffer mode r \<Rightarrow>
          (case command_buffer_initialize (mode\<lparr>one_shot := True, allow_inline := True\<rparr>) 0 storage_size storage_size of
             ErrS e \<Rightarrow> Some (ErrS e, m, h)
           | TrapS \<Rightarrow> Some (TrapS, m, h)
           | OkS _ \<Rightarrow>
               map_option (\<lambda>(s, w). (s, w_core w, w_host w))
                 (deferred_apply (issue_command E) r \<lparr>w_buffer = command_buffer_reset stack, w_core = m, w_host = h\<rparr>)))"

text \<open>The submission of a command buffer: wait, replay, signal.\<close>

definition device_queue_execute :: "await \<Rightarrow> ('b, 'm) env \<Rightarrow> ('b, 'm, 'r) deferred_apply \<Rightarrow> nat \<Rightarrow> sem_list \<Rightarrow> sem_list \<Rightarrow>
    'r submitted \<Rightarrow> command_buffer \<Rightarrow> store \<Rightarrow> 'm \<Rightarrow> host \<Rightarrow> (unit status \<times> store \<times> 'm \<times> host) option" where
  "device_queue_execute await E deferred_apply storage_size waits signals buffer stack \<sigma> m h =
     Option.bind (await waits \<sigma>) (\<lambda>(r, \<sigma>1).
       case r of
         Some e \<Rightarrow> Some (ErrS e, \<sigma>1, m, h)
       | None \<Rightarrow>
         Option.bind (apply_deferred_command_buffer E deferred_apply storage_size buffer stack m h) (\<lambda>(s, m1, h1).
           case s of
             OkS _ \<Rightarrow> (case multi_signal \<sigma>1 signals of
                 (None, \<sigma>2) \<Rightarrow> Some (OkS (), \<sigma>2, m1, h1)
               | (Some e, \<sigma>2) \<Rightarrow> Some (ErrS e, \<sigma>2, m1, h1))
           | ErrS e \<Rightarrow> Some (ErrS e, \<sigma>1, m1, h1)
           | TrapS \<Rightarrow> Some (TrapS, \<sigma>1, m1, h1)))"

definition replays :: "('b, 'm, 'r) deferred_apply \<Rightarrow> 'r \<Rightarrow> 'b command list \<Rightarrow> bool" where
  "replays deferred_apply r cs \<longleftrightarrow> (\<forall>issue w. deferred_apply issue r w = run_commands issue cs w)"

section \<open>The bindings of a dispatch, and nothing else of the storage\<close>

text \<open>The same dispatch state over other storage, which agrees with its own on the bindings it counts.\<close>

definition rebound :: "host_state \<Rightarrow> storage \<Rightarrow> host_state" where
  "rebound st cb = st\<lparr>hs_binding_ptrs := Some (binding_ptr_storage cb), hs_binding_lengths := Some (binding_length_storage cb)\<rparr>"

definition agrees :: "nat \<Rightarrow> storage \<Rightarrow> storage \<Rightarrow> bool" where
  "agrees n cb cb1 \<longleftrightarrow> length (binding_ptr_storage cb) = length (binding_ptr_storage cb1) \<and>
     length (binding_length_storage cb) = length (binding_length_storage cb1) \<and>
     (\<forall>i < n. i < length (binding_ptr_storage cb) \<longrightarrow> binding_ptr_storage cb ! i = binding_ptr_storage cb1 ! i) \<and>
     (\<forall>i < n. i < length (binding_length_storage cb) \<longrightarrow> binding_length_storage cb ! i = binding_length_storage cb1 ! i)"

definition same_shape :: "storage \<Rightarrow> storage \<Rightarrow> bool" where
  "same_shape cb cb1 \<longleftrightarrow> length (binding_ptr_storage cb) = length (binding_ptr_storage cb1) \<and>
     length (binding_length_storage cb) = length (binding_length_storage cb1)"

lemma agrees_elements:
  "agrees n cb cb1 \<Longrightarrow> i < n \<Longrightarrow> element (Some (binding_ptr_storage cb)) i = element (Some (binding_ptr_storage cb1)) i"
  "agrees n cb cb1 \<Longrightarrow> i < n \<Longrightarrow> element (Some (binding_length_storage cb)) i = element (Some (binding_length_storage cb1)) i"
  by (simp_all add: agrees_def element_def)

lemma rebound_fields [simp]:
  "hs_binding_ptrs (rebound st cb) = Some (binding_ptr_storage cb)"
  "hs_binding_lengths (rebound st cb) = Some (binding_length_storage cb)"
  "hs_binding_count (rebound st cb) = hs_binding_count st"
  "hs_constant_count (rebound st cb) = hs_constant_count st"
  "hs_constants (rebound st cb) = hs_constants st"
  by (simp_all add: rebound_def)

lemma place_bindings_agrees:
  assumes "agrees n cb cb1" "set is1 \<subseteq> {..<n}"
  shows "place_bindings S (rebound st cb) h ptrs lens is1 cursor = place_bindings S (rebound st cb1) h ptrs lens is1 cursor"
  using assms(2)
proof (induction is1 arbitrary: cursor)
  case (Cons i is1)
  then have "place_binding S (rebound st cb) h ptrs lens i c = place_binding S (rebound st cb1) h ptrs lens i c" for c
    using agrees_elements[OF assms(1), of i] by (simp add: place_binding_def)
  moreover have "place_bindings S (rebound st cb) h ptrs lens is1 = place_bindings S (rebound st cb1) h ptrs lens is1"
    using Cons by (intro ext) simp
  ultimately show ?case by simp
qed simp

lemma read_back_agrees:
  assumes "agrees n cb cb1" "set is1 \<subseteq> {..<n}"
  shows "read_back S (rebound st cb) writeable m is1 cursor h = read_back S (rebound st cb1) writeable m is1 cursor h"
  using assms(2)
proof (induction is1 arbitrary: cursor h)
  case (Cons i is1)
  have e: "element (Some (binding_ptr_storage cb)) i = element (Some (binding_ptr_storage cb1)) i"
    "element (Some (binding_length_storage cb)) i = element (Some (binding_length_storage cb1)) i"
    using agrees_elements[OF assms(1), of i] Cons.prems by auto
  have ih: "read_back S (rebound st cb) writeable m is1 c h1 = read_back S (rebound st cb1) writeable m is1 c h1" for c h1
    using Cons by simp
  show ?case by (simp only: read_back.simps rebound_fields e ih)
qed simp

lemma write_constants_rebound:
  "write_constants S (rebound st cb) a is1 = write_constants S (rebound st cb1) a is1"
  by (induction is1) simp_all

lemma issue_dispatch_agrees:
  assumes "agrees (unat (hs_binding_count st)) cb cb1"
  shows "issue_dispatch S img (rebound st cb) writeable ord local_length m h =
    issue_dispatch S img (rebound st cb1) writeable ord local_length m h"
proof -
  let ?is = "[0..<unat (hs_binding_count st)]"
  have is1: "set ?is \<subseteq> {..<unat (hs_binding_count st)}" by auto
  have b: "place_constants S L (rebound st cb) = place_constants S L (rebound st cb1)"
    "reserve_tables L (rebound st cb) c = reserve_tables L (rebound st cb1) c"
    "base_request (rebound st cb) ord = base_request (rebound st cb1) ord"
    "arguments_ok (rebound st cb) ord = arguments_ok (rebound st cb1) ord" for L c
    by (simp_all only: place_constants_def reserve_tables_def arguments_ok_def rebound_fields write_constants_rebound[of S st cb _ _ cb1]
        option.distinct) (simp add: base_request_def rebound_def)
  have "prepare S L (rebound st cb) ord local_length h = prepare S L (rebound st cb1) ord local_length h" for L
    unfolding prepare_def rebound_fields by (simp only: b place_bindings_agrees[OF assms is1])
  then have "load_and_prepare S img (rebound st cb) ord local_length h = load_and_prepare S img (rebound st cb1) ord local_length h"
    by (simp only: load_and_prepare_def b)
  then show ?thesis unfolding issue_dispatch_def rebound_fields by (simp only: read_back_agrees[OF assms is1])
qed

text \<open>Gathering the same bindings into storage of the same shape.\<close>

lemma store_binding_shape:
  assumes "same_shape cb cb1"
  shows "rel_status same_shape (store_binding cb i p n) (store_binding cb1 i p n)"
  using assms by (simp add: store_binding_def same_shape_def)

lemma store_binding_keeps: "store_binding cb i p n = OkS cb1 \<Longrightarrow> same_shape cb cb1"
  by (auto simp: store_binding_OkS same_shape_def)

lemma same_shape_trans: "same_shape a b \<Longrightarrow> same_shape b c \<Longrightarrow> same_shape a c"
  by (simp add: same_shape_def)

lemma same_shape_sym: "same_shape a b \<Longrightarrow> same_shape b a"
  by (simp add: same_shape_def)

lemma gather_bindings_shape:
  "same_shape cb cb1 \<Longrightarrow>
    rel_status (rel_prod same_shape (=)) (gather_bindings B i rs cb w) (gather_bindings B i rs cb1 w)"
proof (induction rs arbitrary: i cb cb1 w)
  case (Cons r rs)
  show ?case
  proof (cases "map_ref B r")
    case (OkS pn)
    obtain p n where pn: "pn = (p, n)" by (cases pn)
    show ?thesis using store_binding_shape[OF Cons.prems, of i p n] Cons.IH
      by (cases "store_binding cb i p n"; cases "store_binding cb1 i p n") (simp_all add: OkS pn)
  qed simp_all
qed simp

lemma gather_checked_shape:
  "same_shape cb cb1 \<Longrightarrow> rel_status same_shape (gather_checked B i rs cb) (gather_checked B i rs cb1)"
proof (induction rs arbitrary: i cb cb1)
  case (Cons r rs)
  show ?case
  proof (cases "map_ref B r")
    case (OkS pn)
    obtain p n where pn: "pn = (p, n)" by (cases pn)
    show ?thesis using store_binding_shape[OF Cons.prems, of i p n] Cons.IH
      by (cases "store_binding cb i p n"; cases "store_binding cb1 i p n") (simp_all add: OkS pn)
  qed simp_all
qed simp

lemma gather_checked_spec:
  "gather_checked B i rs cb = OkS cb1 \<Longrightarrow> gather_bindings B i rs cb w = OkS (cb1, w @ map
     (\<lambda>r. case ref_buffer r of None \<Rightarrow> False | Some b \<Rightarrow> allows_write B b) rs)"
  by (induction rs arbitrary: i cb w) (fastforce simp: sbind_OkS split: if_splits)+

lemma gathered_agree:
  assumes "same_shape cb cb1" "gather_bindings B 0 rs cb w = OkS (cb2, w2)" "gather_bindings B 0 rs cb1 w = OkS (cb3, w3)"
  shows "agrees (length rs) cb2 cb3"
proof -
  note a = gather_bindings_spec[OF assms(2)] and b = gather_bindings_spec[OF assms(3)]
  have "binding_ptr_storage cb2 ! j = binding_ptr_storage cb3 ! j \<and> binding_length_storage cb2 ! j = binding_length_storage cb3 ! j"
    if "j < length rs" for j using a b that by (metis Pair_inject add_0 status.inject(1))
  then show ?thesis using a b assms(1) by (simp add: agrees_def same_shape_def)
qed

lemma simulator_state_rebound:
  "simulator_state config counts constants n cb = rebound (simulator_state config counts constants n cb1) cb"
  by (simp add: simulator_state_def rebound_def split: prod.split)

lemma simulator_state_count: "unat (hs_binding_count (simulator_state config counts constants n cb)) \<le> n"
  by (simp add: simulator_state_def unat_of_nat split: prod.split)

lemma agrees_mono: "agrees n cb cb1 \<Longrightarrow> k \<le> n \<Longrightarrow> agrees k cb cb1"
  by (simp add: agrees_def)

lemma simulator_dispatch_shape:
  assumes "same_shape cb cb1"
  shows "simulator_dispatch B S e ord indirect config constants bindings cb m h =
    simulator_dispatch B S e ord indirect config constants bindings cb1 m h"
proof -
  note g = gather_bindings_shape[OF assms, of B 0 bindings "[]"]
  show ?thesis
  proof (cases "\<exists>counts cb2 w2. workgroup_counts B h indirect config = OkS counts \<and> length constants mod 4 = 0 \<and>
      gather_bindings B 0 bindings cb [] = OkS (cb2, w2)")
    case True
    then obtain counts cb2 w2 where c: "workgroup_counts B h indirect config = OkS counts" "length constants mod 4 = 0"
      and g2: "gather_bindings B 0 bindings cb [] = OkS (cb2, w2)" by (elim exE conjE)
    obtain cb3 where g3: "gather_bindings B 0 bindings cb1 [] = OkS (cb3, w2)"
      using g g2 by (cases "gather_bindings B 0 bindings cb1 []") (auto elim: rel_prod.cases)
    let ?st = "simulator_state config counts constants (length bindings) cb2"
    have "agrees (unat (hs_binding_count ?st)) cb2 cb3"
      by (rule agrees_mono[OF gathered_agree[OF assms g2 g3] simulator_state_count])
    from issue_dispatch_agrees[OF this] show ?thesis
      using simulator_state_rebound[of config counts constants "length bindings" cb3 cb2]
        simulator_state_rebound[of config counts constants "length bindings" cb2 cb2]
      by (simp add: simulator_dispatch_def simulator_arguments_def c g2 g3)
  next
    case False
    then show ?thesis using g
      by (cases "workgroup_counts B h indirect config"; cases "gather_bindings B 0 bindings cb []";
          cases "gather_bindings B 0 bindings cb1 []") (auto simp: simulator_dispatch_def simulator_arguments_def)
  qed
qed

text \<open>A kernel on the host that reads only the bindings the dispatch state counts.\<close>

definition reads_bindings :: "(host_state \<Rightarrow> nat \<Rightarrow> host call) \<Rightarrow> bool" where
  "reads_bindings K \<longleftrightarrow> (\<forall>st cb cb1 n. agrees (unat (hs_binding_count st)) cb cb1 \<longrightarrow> K (rebound st cb) n = K (rebound st cb1) n)"

fun command_ok :: "'b command \<Rightarrow> bool" where
  "command_ok (Dispatch (LoadedExecutable (attrs, kernels)) export_ordinal custom_arguments indirect config constants bindings) =
     (\<forall>i. reads_bindings (kernels i))"
| "command_ok _ = True"

lemma inline_dispatch_shape:
  assumes "same_shape cb cb1" "reads_bindings K"
  shows "inline_dispatch B page_size alloc_ok attrs K indirect config constants bindings cb h =
    inline_dispatch B page_size alloc_ok attrs K indirect config constants bindings cb1 h"
proof -
  note g = gather_checked_shape[OF assms(1), of B 0 bindings]
  show ?thesis
  proof (cases "gather_checked B 0 bindings cb")
    case (OkS cb2)
    then obtain cb3 where g3: "gather_checked B 0 bindings cb1 = OkS cb3"
      using g by (cases "gather_checked B 0 bindings cb1") auto
    have "agrees (length bindings) cb2 cb3"
      by (rule gathered_agree[OF assms(1) gather_checked_spec[OF OkS] gather_checked_spec[OF g3]])
    then have "agrees (unat (hs_binding_count (simulator_state config counts constants (length bindings) cb2))) cb2 cb3" for counts
      by (rule agrees_mono[OF _ simulator_state_count])
    then have kk: "k = length bindings \<Longrightarrow> K (simulator_state config counts constants k cb2) n =
        K (simulator_state config counts constants k cb3) n" for counts n k
      using assms(2) simulator_state_rebound[of config counts constants "length bindings" cb2 cb2]
        simulator_state_rebound[of config counts constants "length bindings" cb3 cb2] unfolding reads_bindings_def by metis
    have counts: "hs_count_x (simulator_state config counts constants n c) = fst counts"
      "hs_count_y (simulator_state config counts constants n c) = fst (snd counts)"
      "hs_count_z (simulator_state config counts constants n c) = ucast (snd (snd counts))" for counts n c
      by (simp_all add: simulator_state_def split: prod.split)
    show ?thesis
      by (cases "workgroup_counts B h indirect config") (simp_all add: inline_dispatch_def OkS g3 Let_def kk counts)
  next
    case (ErrS e)
    then have "gather_checked B 0 bindings cb1 = ErrS e" using g by (cases "gather_checked B 0 bindings cb1") auto
    then show ?thesis by (cases "workgroup_counts B h indirect config") (simp_all add: inline_dispatch_def ErrS Let_def)
  next
    case TrapS
    then have "gather_checked B 0 bindings cb1 = TrapS" using g by (cases "gather_checked B 0 bindings cb1") auto
    then show ?thesis by (cases "workgroup_counts B h indirect config") (simp_all add: inline_dispatch_def TrapS Let_def)
  qed
qed

lemma command_buffer_dispatch_shape:
  assumes "same_shape cb cb1" "command_ok (Dispatch e ord custom indirect config constants bindings)"
  shows "command_buffer_dispatch B S page_size alloc_ok e ord custom indirect config constants bindings cb m h =
    command_buffer_dispatch B S page_size alloc_ok e ord custom indirect config constants bindings cb1 m h"
proof (cases e)
  case (SimulatorExecutable x)
  show ?thesis by (simp only: command_buffer_dispatch_def SimulatorExecutable executable.case simulator_dispatch_shape[OF assms(1)])
next
  case (LoadedExecutable p)
  obtain attrs kernels where p: "p = (attrs, kernels)" by (cases p)
  have k: "reads_bindings (kernels i)" for i using assms(2) by (simp add: LoadedExecutable p)
  show ?thesis
    by (simp only: command_buffer_dispatch_def LoadedExecutable p executable.case prod.case inline_dispatch_shape[OF assms(1) k])
qed

section \<open>Worlds that differ in the storage only\<close>

definition same_world :: "'m world \<Rightarrow> 'm world \<Rightarrow> bool" where
  "same_world w w1 \<longleftrightarrow> w_core w = w_core w1 \<and> w_host w = w_host w1 \<and> same_shape (cb_storage (w_buffer w)) (cb_storage (w_buffer w1))"

lemma gather_storage_shape: "same_shape cb (gather_storage B checked i rs cb)"
proof (induction rs arbitrary: i cb)
  case (Cons r rs)
  show ?case
    using Cons.IH store_binding_keeps same_shape_trans
    by (fastforce simp: same_shape_def split: status.split prod.split)
qed (simp add: same_shape_def)

lemma dispatch_buffer_shape:
  "same_shape (cb_storage cb) (cb_storage (dispatch_buffer E h e ord custom indirect config constants bindings cb))"
proof -
  have "same_shape x x" for x by (simp add: same_shape_def)
  then show ?thesis
    by (simp add: dispatch_buffer_def Let_def update_processor_id_def gather_storage_shape split: executable.split prod.split)
qed

lemma command_buffer_reset_shape: "same_shape (cb_storage cb) (cb_storage (command_buffer_reset cb))"
  by (simp add: command_buffer_reset_def same_shape_def)

lemma issue_command_shape:
  assumes "same_world w w1" "command_ok c"
  shows "rel_option (rel_prod (=) same_world) (issue_command E c w) (issue_command E c w1)"
proof (cases c)
  case Begin
  then show ?thesis using assms(1) command_buffer_reset_shape[of "w_buffer w"] command_buffer_reset_shape[of "w_buffer w1"]
    by (simp add: same_world_def update_processor_id_def same_shape_def)
next
  case End
  then show ?thesis using assms(1) command_buffer_reset_shape[of "w_buffer w"] command_buffer_reset_shape[of "w_buffer w1"]
    by (simp add: same_world_def same_shape_def)
next
  case (Dispatch e ord custom indirect config constants bindings)
  have s: "same_shape (cb_storage (w_buffer w)) (cb_storage (w_buffer w1))" using assms(1) by (simp add: same_world_def)
  have "command_buffer_dispatch (env_buffers E) (env_core E) (env_page_size E) (env_alloc_ok E) e ord custom indirect config
      constants bindings (cb_storage (w_buffer w)) (w_core w) (w_host w) =
    command_buffer_dispatch (env_buffers E) (env_core E) (env_page_size E) (env_alloc_ok E) e ord custom indirect config
      constants bindings (cb_storage (w_buffer w1)) (w_core w1) (w_host w1)"
    using command_buffer_dispatch_shape[OF s assms(2)[unfolded Dispatch]] assms(1) by (simp only: same_world_def)
  moreover have "same_shape (cb_storage (dispatch_buffer E h e ord custom indirect config constants bindings (w_buffer w)))
      (cb_storage (dispatch_buffer E h e ord custom indirect config constants bindings (w_buffer w1)))" for h
    by (rule same_shape_trans[OF same_shape_trans[OF same_shape_sym[OF dispatch_buffer_shape] s] dispatch_buffer_shape])
  ultimately show ?thesis using assms(1) by (simp add: Dispatch same_world_def split: option.split)
qed (use assms(1) in \<open>auto simp: same_world_def on_host_def split: prod.split\<close>)

lemma run_commands_shape:
  "same_world w w1 \<Longrightarrow> list_all command_ok cs \<Longrightarrow>
    rel_option (rel_prod (=) same_world) (run_commands (issue_command E) cs w) (run_commands (issue_command E) cs w1)"
proof (induction cs arbitrary: w w1)
  case (Cons c cs)
  have "command_ok c" "list_all command_ok cs" using Cons.prems(2) by simp_all
  note r = issue_command_shape[OF Cons.prems(1) this(1), of E] and ih = Cons.IH[OF _ this(2)]
  show ?case
  proof (cases "issue_command E c w")
    case None
    then show ?thesis using r by (cases "issue_command E c w1") auto
  next
    case (Some x)
    then obtain s w2 where x: "issue_command E c w = Some (s, w2)" by (cases x) simp
    then obtain w3 where y: "issue_command E c w1 = Some (s, w3)" "same_world w2 w3"
      using r by (cases "issue_command E c w1") auto
    show ?thesis using x y ih[OF y(2)] by (cases s) simp_all
  qed
qed simp

text \<open>The commands that do something on a device that runs what it is given at once.\<close>

fun has_effect :: "'b command \<Rightarrow> bool" where
  "has_effect (FillBuffer target pattern) = True"
| "has_effect (UpdateBuffer source source_offset target) = True"
| "has_effect (CopyBuffer source target) = True"
| "has_effect Collective = True"
| "has_effect (Dispatch e export_ordinal custom_arguments indirect config constants bindings) = True"
| "has_effect _ = False"

lemma no_effect_command:
  assumes "\<not> has_effect c"
  obtains w1 where "issue_command E c w = Some (OkS (), w1)" "same_world w w1"
proof -
  have "same_shape cb cb" for cb by (simp add: same_shape_def)
  then show thesis
    using assms that by (cases c) (auto simp: same_world_def update_processor_id_def command_buffer_reset_shape)
qed

lemma same_world_trans: "same_world a b \<Longrightarrow> same_world b c \<Longrightarrow> same_world a c"
  by (auto simp: same_world_def intro: same_shape_trans)

lemma same_world_sym: "same_world a b \<Longrightarrow> same_world b a"
  by (auto simp: same_world_def intro: same_shape_sym)

lemma run_commands_effects:
  "same_world w w1 \<Longrightarrow> list_all command_ok cs \<Longrightarrow>
    rel_option (rel_prod (=) same_world) (run_commands (issue_command E) cs w)
      (run_commands (issue_command E) (filter has_effect cs) w1)"
proof (induction cs arbitrary: w w1)
  case (Cons c cs)
  have ok: "command_ok c" "list_all command_ok cs" using Cons.prems(2) by simp_all
  show ?case
  proof (cases "has_effect c")
    case False
    then obtain w2 where c: "issue_command E c w = Some (OkS (), w2)" "same_world w w2" by (rule no_effect_command)
    have "same_world w2 w1" using c(2) Cons.prems(1) same_world_sym same_world_trans by blast
    from Cons.IH[OF this ok(2)] show ?thesis using False c by simp
  next
    case True
    note r = issue_command_shape[OF Cons.prems(1) ok(1), of E]
    show ?thesis
    proof (cases "issue_command E c w")
      case None
      then show ?thesis using r True by (cases "issue_command E c w1") auto
    next
      case (Some x)
      then obtain s w2 where x: "issue_command E c w = Some (s, w2)" by (cases x) simp
      then obtain w3 where y: "issue_command E c w1 = Some (s, w3)" "same_world w2 w3"
        using r by (cases "issue_command E c w1") auto
      show ?thesis using x y True Cons.IH[OF y(2) ok(2)] by (cases s) simp_all
    qed
  qed
qed simp

section \<open>Recordings, step by step\<close>

lemma issue_dispatch_result:
  "issue_command E (Dispatch e ord custom indirect config constants bindings) w = Some (s, w1) \<Longrightarrow>
    command_buffer_dispatch (env_buffers E) (env_core E) (env_page_size E) (env_alloc_ok E) e ord custom indirect config
      constants bindings (cb_storage (w_buffer w)) (w_core w) (w_host w) = Some (s, w_core w1, w_host w1)"
  by (auto split: option.splits)

lemma run_commands_trace:
  "run_commands issue cs w = Some (OkS (), w1) \<Longrightarrow>
    \<exists>ws. length ws = Suc (length cs) \<and> ws ! 0 = w \<and> ws ! length cs = w1 \<and>
      (\<forall>i < length cs. issue (cs ! i) (ws ! i) = Some (OkS (), ws ! Suc i))"
proof (induction cs arbitrary: w)
  case Nil
  then show ?case by (intro exI[of _ "[w]"]) simp
next
  case (Cons c cs)
  obtain w2 where c: "issue c w = Some (OkS (), w2)" and r: "run_commands issue cs w2 = Some (OkS (), w1)"
    using Cons.prems by (auto split: option.splits status.splits)
  obtain ws where ws: "length ws = Suc (length cs)" "ws ! 0 = w2" "ws ! length cs = w1"
      "\<forall>i < length cs. issue (cs ! i) (ws ! i) = Some (OkS (), ws ! Suc i)" using Cons.IH[OF r] by blast
  have "\<forall>i < length (c # cs). issue ((c # cs) ! i) ((w # ws) ! i) = Some (OkS (), (w # ws) ! Suc i)"
    using c ws by (auto simp: less_Suc_eq_0_disj)
  then show ?case using ws by (intro exI[of _ "w # ws"]) simp
qed

lemma run_commands_error:
  "run_commands issue cs w = Some (ErrS e, w2) \<Longrightarrow>
    \<exists>pre c post w1. cs = pre @ c # post \<and> run_commands issue pre w = Some (OkS (), w1) \<and> issue c w1 = Some (ErrS e, w2)"
proof (induction cs arbitrary: w)
  case (Cons c cs)
  show ?case
  proof (cases "issue c w = Some (ErrS e, w2)")
    case True
    then show ?thesis by (intro exI[of _ "[]"]) auto
  next
    case False
    then obtain w3 where c: "issue c w = Some (OkS (), w3)" and r: "run_commands issue cs w3 = Some (ErrS e, w2)"
      using Cons.prems by (auto split: option.splits status.splits)
    obtain pre d post w1 where "cs = pre @ d # post" "run_commands issue pre w3 = Some (OkS (), w1)"
        "issue d w1 = Some (ErrS e, w2)" using Cons.IH[OF r] by blast
    then show ?thesis using c by (intro exI[of _ "c # pre"]) auto
  qed
qed simp

text \<open>The layout of an image, which loading it returns whatever the memory.\<close>

definition image_layout :: "image \<Rightarrow> elf_layout \<Rightarrow> bool" where
  "image_layout img L \<longleftrightarrow> (\<exists>eh. read_ehdr img = OkS eh \<and> elf_layout_of img eh = OkS L)"

lemma image_layout_loaded: "load_elf_with_layout S img m = (OkS L, m0) \<Longrightarrow> image_layout img L"
  by (auto simp: load_elf_with_layout_def image_layout_def sbind_OkS split: status.splits if_splits prod.splits)

lemma image_layout_unique: "image_layout img L \<Longrightarrow> image_layout img L1 \<Longrightarrow> L1 = L"
  by (auto simp: image_layout_def)

text \<open>The firmware is what runs on the core at the entry point.\<close>

definition firmware_on :: "'m core_api \<Rightarrow> elf_layout \<Rightarrow> exports option \<Rightarrow> bool" where
  "firmware_on S L library \<longleftrightarrow> (\<forall>m. map_option (core_byte S) (core_run S (start_pc L) m) =
     firmware_main library (dispatch_request_addr L) (core_byte S m))"

text \<open>The run of a kernel for a request: once per workgroup of its grid, every call returning 0.\<close>

definition grid_ran :: "'m core_api \<Rightarrow> elf_layout \<Rightarrow> kernel \<Rightarrow> dispatch_request \<Rightarrow> 'm \<Rightarrow> bool" where
  "grid_ran S L K r m2 \<longleftrightarrow> (\<exists>M1 M2. request_at M1 (dispatch_request_addr L) = r \<and>
     run_groups (group_call K (dispatch_state_of r) r) (workgroup_grid r) (started (dispatch_request_addr L) M1) = Some (0, M2) \<and>
     core_byte S m2 = set_status (dispatch_request_addr L) STATUS_COMPLETE (set_return_code (dispatch_request_addr L) 0 M2))"

definition simulated :: "'m core_api \<Rightarrow> sim_executable \<Rightarrow> 32 word \<Rightarrow> elf_layout \<Rightarrow> exports option \<Rightarrow> kernel \<Rightarrow> bool" where
  "simulated S x ord L library K \<longleftrightarrow> image_layout (dispatch_image x) L \<and> request_apart L \<and> firmware_on S L library \<and>
     exported library ord K \<and> keeps_request K (dispatch_request_addr L)"

lemma simulator_dispatch_kernel:
  assumes "core_ok S" "simulated S x ord L library K"
    "simulator_dispatch B S x ord indirect config constants bindings cb m h = Some (OkS (), m2, h2)"
  shows "\<exists>cx cy cz r. workgroup_counts B h indirect config = OkS (cx, cy, cz) \<and> workgroup_count_x r = cx \<and>
    workgroup_count_y r = cy \<and> workgroup_count_z r = ucast (ucast cz :: 16 word) \<and> grid_ran S L K r m2"
proof -
  obtain st writeable where a: "simulator_arguments B h indirect config constants bindings cb = OkS (st, writeable)"
    and d: "issue_dispatch S (dispatch_image x) st (Some writeable) (ucast ord) 0 m h = Some (OkS (), m2, h2)"
    using assms(3) by (auto simp: simulator_dispatch_def split: status.splits prod.splits)
  obtain counts cb1 where c: "workgroup_counts B h indirect config = OkS counts"
    and st: "st = simulator_state config counts constants (length bindings) cb1"
    using a by (rule simulator_arguments_OkS)
  obtain cx cy cz where xyz: "counts = (cx, cy, cz)" by (cases counts)
  have f: "hs_count_x st = cx" "hs_count_y st = cy" "hs_count_z st = ucast cz"
    by (simp_all add: st xyz simulator_state_def split: prod.split)
  obtain L1 r1 m1 where lp: "load_and_prepare S (dispatch_image x) st (ucast ord) 0 h m = (OkS (L1, r1), m1)"
    using d by (auto simp: issue_dispatch_def split: prod.splits status.splits)
  then obtain m0 where l: "load_elf_with_layout S (dispatch_image x) m = (OkS L1, m0)" by (rule load_and_prepare_OkS)
  have sim: "image_layout (dispatch_image x) L" "request_apart L" "exported library ord K"
    "keeps_request K (dispatch_request_addr L)" "firmware_on S L library"
    using assms(2) by (simp_all add: simulated_def)
  have L1: "L1 = L" by (rule image_layout_unique[OF sim(1) image_layout_loaded[OF l]])
  have k: "exported library (ucast (ucast ord :: 64 word)) K" by (simp add: ucast_up_down sim(3))
  have fw: "map_option (core_byte S) (core_run S (start_pc L) mm) =
      firmware_main library (dispatch_request_addr L) (core_byte S mm)" for mm
    using sim(5) by (simp add: firmware_on_def)
  obtain r M1 M2 where dm: "dispatch_in_memory st (ucast ord) h 0 L r M1"
    and g: "run_groups (group_call K (dispatch_state_of r) r) (workgroup_grid r) (started (dispatch_request_addr L) M1) = Some (0, M2)"
    and e: "core_byte S m2 = set_status (dispatch_request_addr L) STATUS_COMPLETE (set_return_code (dispatch_request_addr L) 0 M2)"
    using dispatch_kernel_run[OF assms(1) simulator_writeable[OF a] l[unfolded L1] sim(2) fw k sim(4) d] by blast
  note fld = dispatch_in_memory_fields[OF dm]
  have "grid_ran S L K r m2" unfolding grid_ran_def using fld(5) g e by blast
  then show ?thesis using c xyz fld f
    by (intro exI[of _ cx] exI[of _ cy] exI[of _ cz] exI[of _ r]) simp
qed

lemma device_queue_execute_OkS:
  assumes "device_queue_execute await E deferred_apply storage_size waits signals buffer stack \<sigma> m h = Some (OkS (), \<sigma>2, m2, h2)"
  obtains \<sigma>1 where "await waits \<sigma> = Some (None, \<sigma>1)"
    "apply_deferred_command_buffer E deferred_apply storage_size buffer stack m h = Some (OkS (), m2, h2)"
    "multi_signal \<sigma>1 signals = (None, \<sigma>2)"
proof -
  obtain \<sigma>1 where a: "await waits \<sigma> = Some (None, \<sigma>1)"
    using assms by (auto simp: device_queue_execute_def bind_eq_Some_conv split: option.splits)
  then obtain s m1 h1 where d: "apply_deferred_command_buffer E deferred_apply storage_size buffer stack m h = Some (s, m1, h1)"
    using assms by (auto simp: device_queue_execute_def bind_eq_Some_conv)
  show thesis using that[OF a] a d assms
    by (cases s; cases "multi_signal \<sigma>1 signals") (auto simp: device_queue_execute_def split: option.splits)
qed

text \<open>The queue operation is the one of the abstract device, with the replay as its work.\<close>

lemma device_queue_execute_refines:
  assumes "apply_deferred_command_buffer E deferred_apply storage_size buffer stack m h = Some (s, m1, h1)"
    "s = (case c of None \<Rightarrow> OkS () | Some e \<Rightarrow> ErrS e)"
  shows "device_queue_execute await E deferred_apply storage_size waits signals buffer stack \<sigma> m h =
    map_option (\<lambda>(r, \<sigma>1, m1, h1). (case r of None \<Rightarrow> OkS () | Some e \<Rightarrow> ErrS e, \<sigma>1, m1, h1))
      (queue_execute await waits signals True (\<lambda>_. (c, m1, h1)) \<sigma> (m, h))"
  unfolding device_queue_execute_def queue_execute_def apply_deferred_def
  by (cases "await waits \<sigma>") (auto simp: assms split: option.split prod.split)

section \<open>Properties\<close>



text \<open>The commands that leave host memory alone when they fail.\<close>

fun error_keeps_host :: "'b command \<Rightarrow> bool" where
  "error_keeps_host (Dispatch (LoadedExecutable e) ord custom_arguments indirect config constants bindings) = custom_arguments"
| "error_keeps_host (FillBuffer target pattern) = False"
| "error_keeps_host (UpdateBuffer source source_offset target) = False"
| "error_keeps_host (CopyBuffer source target) = False"
| "error_keeps_host _ = True"

lemma command_error_host:
  assumes "core_ok (env_core E)" "issue_command E c w = Some (ErrS e, w1)" "error_keeps_host c"
  shows "w_host w1 = w_host w"
proof (cases c)
  case (Dispatch x ord custom indirect config constants bindings)
  note d = issue_dispatch_result[OF assms(2)[unfolded Dispatch]]
  show ?thesis
  proof (cases custom)
    case False
    then obtain y where "x = SimulatorExecutable y" using assms(3) Dispatch by (cases x) auto
    then have "simulator_dispatch (env_buffers E) (env_core E) y ord indirect config constants bindings (cb_storage (w_buffer w))
        (w_core w) (w_host w) = Some (ErrS e, w_core w1, w_host w1)"
      using d False by (simp add: command_buffer_dispatch_def)
    from command_dispatch_error_keeps_host[OF assms(1) this] show ?thesis by simp
  qed (use d in \<open>simp add: command_buffer_dispatch_def\<close>)
qed (use assms(2,3) in auto)

text \<open>
  C14. A submission of a deferred command buffer that returns an error fails in one of
  three ways. Its wait failed, and nothing ran. Or a command failed: the commands before
  it ran with success, none after it ran, no semaphore was touched after the wait, and
  host memory is what the commands before it left, when the failing one is a collective,
  a dispatch on the simulator or one with custom arguments. Or every command ran and
  the signals failed.
\<close>

theorem failed_submission_stops:
  assumes "core_ok (env_core E)" "replays deferred_apply r cs"
    "device_queue_execute (runtime_await schedule) E deferred_apply storage_size waits signals (DeferredBuffer mode r)
       stack \<sigma> m h = Some (ErrS e, \<sigma>2, m2, h2)"
  shows "runtime_await schedule waits \<sigma> = Some (Some e, \<sigma>2) \<and> m2 = m \<and> h2 = h \<or>
    (\<exists>pre c post w1 w2. runtime_await schedule waits \<sigma> = Some (None, \<sigma>2) \<and> cs = pre @ c # post \<and>
       run_commands (issue_command E) pre \<lparr>w_buffer = command_buffer_reset stack, w_core = m, w_host = h\<rparr> = Some (OkS (), w1) \<and>
       issue_command E c w1 = Some (ErrS e, w2) \<and> m2 = w_core w2 \<and> h2 = w_host w2 \<and>
       (error_keeps_host c \<longrightarrow> h2 = w_host w1)) \<or>
    (\<exists>\<sigma>1 w2. runtime_await schedule waits \<sigma> = Some (None, \<sigma>1) \<and>
       run_commands (issue_command E) cs \<lparr>w_buffer = command_buffer_reset stack, w_core = m, w_host = h\<rparr> = Some (OkS (), w2) \<and>
       m2 = w_core w2 \<and> h2 = w_host w2 \<and> multi_signal \<sigma>1 signals = (Some e, \<sigma>2))"
proof -
  let ?w = "\<lparr>w_buffer = command_buffer_reset stack, w_core = m, w_host = h\<rparr>"
  obtain r1 \<sigma>1 where a: "runtime_await schedule waits \<sigma> = Some (r1, \<sigma>1)"
    using assms(3) by (auto simp: device_queue_execute_def bind_eq_Some_conv)
  show ?thesis
  proof (cases r1)
    case (Some e1)
    then show ?thesis using a assms(3) by (simp add: device_queue_execute_def)
  next
    case None
    obtain s w2 where run: "run_commands (issue_command E) cs ?w = Some (s, w2)"
      using a None assms(2,3) by (auto simp: device_queue_execute_def bind_eq_Some_conv apply_deferred_command_buffer_def
          command_buffer_initialize_def replays_def)
    then have d: "apply_deferred_command_buffer E deferred_apply storage_size (DeferredBuffer mode r) stack m h =
        Some (s, w_core w2, w_host w2)"
      using assms(2) by (simp add: apply_deferred_command_buffer_def command_buffer_initialize_def replays_def)
    show ?thesis
    proof (cases s)
      case (OkS u)
      then show ?thesis using a None run d assms(3)
        by (cases "multi_signal \<sigma>1 signals") (auto simp: device_queue_execute_def split: option.splits)
    next
      case (ErrS e1)
      then have eq: "e1 = e" "\<sigma>2 = \<sigma>1" "m2 = w_core w2" "h2 = w_host w2"
        using a None d assms(3) by (simp_all add: device_queue_execute_def)
      obtain pre c post w1 where p: "cs = pre @ c # post" "run_commands (issue_command E) pre ?w = Some (OkS (), w1)"
          "issue_command E c w1 = Some (ErrS e, w2)"
        using run_commands_error[OF run[unfolded ErrS eq]] by blast
      show ?thesis using p a None eq command_error_host[OF assms(1) p(3)] by blast
    next
      case TrapS
      then show ?thesis using a None d assms(3) by (simp add: device_queue_execute_def)
    qed
  qed
qed

section \<open>A recording of the example\<close>

definition small_transfers :: "nat transfer_api" where
  "small_transfers = \<lparr>
     map_fill = (\<lambda>b off n pattern h. (OkS (), host_write (b + off) (take n (concat (replicate n pattern))) h)),
     map_write = (\<lambda>b off src n h. (OkS (), host_write (b + off) (take n src) h)),
     map_copy = (\<lambda>a off b off1 n h. (OkS (), host_write (b + off1) (host_bytes h (a + off) n) h))\<rparr>"

definition small_env :: "(nat, memory) env" where
  "small_env = \<lparr>env_buffers = flat_buffers, env_transfers = small_transfers, env_core = small_core, env_page_size = 4096,
     env_alloc_ok = True, env_requery = (\<lambda>(t, i). (t + 1, 3))\<rparr>"

definition small_dispatch_command :: "nat command" where
  "small_dispatch_command = Dispatch (SimulatorExecutable small_executable) 0 False False small_config [] small_refs"

definition small_recording :: "nat command list" where
  "small_recording = [Begin, ExecutionBarrier, small_dispatch_command, SignalEvent 4, End]"

definition small_buffer :: command_buffer where
  "small_buffer = \<lparr>cb_storage = \<lparr>binding_ptr_storage = [Some 55], binding_length_storage = [66]\<rparr>, cb_processor = (9, 9)\<rparr>"

text \<open>IREE's replay of a recording that is a list of commands.\<close>

definition list_apply :: "('b, 'm, 'b command list) deferred_apply" where
  "list_apply issue r w = run_commands issue r w"

lemma small_storage_reset: "cb_storage (command_buffer_reset small_buffer) = small_storage"
  by (simp add: command_buffer_reset_def small_buffer_def small_storage_def)

lemma small_dispatch_issue:
  assumes "cb_storage (w_buffer w) = small_storage" "w_core w = (\<lambda>_. 0)" "w_host w = (\<lambda>_. 7)"
  shows "\<exists>b. issue_command small_env small_dispatch_command w =
    Some (OkS (), \<lparr>w_buffer = b, w_core = small_done, w_host = host_write 100 [8, 7] (\<lambda>_. 7)\<rparr>)"
  using small_command assms by (simp add: small_dispatch_command_def small_env_def command_buffer_dispatch_def)
lemma small_ok: "list_all command_ok small_recording" "filter has_effect small_recording = [small_dispatch_command]"
  by (simp_all add: small_recording_def small_dispatch_command_def)

lemma small_replays: "replays list_apply cs cs"
  by (simp add: replays_def list_apply_def)

definition client_buffer :: command_buffer where
  "client_buffer = \<lparr>cb_storage = small_storage, cb_processor = (0, 0)\<rparr>"

definition small_world :: "memory world" where
  "small_world = \<lparr>w_buffer = client_buffer, w_core = \<lambda>_. 0, w_host = \<lambda>_. 7\<rparr>"

lemma small_replay:
  "apply_deferred_command_buffer small_env list_apply 4096 (DeferredBuffer \<lparr>one_shot = False, allow_inline = False\<rparr> small_recording)
     small_buffer (\<lambda>_. 0) (\<lambda>_. 7) = Some (OkS (), small_done, host_write 100 [8, 7] (\<lambda>_. 7))"
proof -
  let ?w = "\<lparr>w_buffer = command_buffer_reset small_buffer, w_core = \<lambda>_. 0, w_host = \<lambda>_. 7\<rparr>"
  have "cb_storage (w_buffer (?w\<lparr>w_buffer := update_processor_id f (command_buffer_reset (w_buffer ?w))\<rparr>)) = small_storage" for f
    by (simp add: update_processor_id_def command_buffer_reset_def small_buffer_def small_storage_def)
  from small_dispatch_issue[OF this, of "env_requery small_env"] show ?thesis
    by (auto simp: apply_deferred_command_buffer_def command_buffer_initialize_def list_apply_def small_recording_def)
qed


lemma small_firmware: "firmware_on small_core tiny_layout (Some (Some [Some bump_kernel]))"
proof -
  have "dispatch_request_addr tiny_layout = 0x10000" by (simp add: tiny_layout_def)
  then show ?thesis
    by (simp add: firmware_on_def small_core_def core_byte_ref) (simp add: core_ref_def option.map_ident)
qed

lemma small_simulated: "simulated small_core small_executable 0 tiny_layout (Some (Some [Some bump_kernel])) bump_kernel"
proof -
  have "image_layout tiny_elf tiny_layout" by (rule image_layout_loaded[OF small_load])
  moreover have "dispatch_request_addr tiny_layout = 0x10000" by (simp add: tiny_layout_def)
  moreover have "exported (Some (Some [Some bump_kernel])) 0 bump_kernel" by (simp add: exported_def)
  ultimately show ?thesis
    using small_request_apart small_firmware bump_keeps by (simp add: simulated_def small_executable_def)
qed


lemma failed_submission_stops_witness:
  "device_queue_execute (runtime_await (\<lambda>_. None)) small_env list_apply 4096 [] [(1, 1)]
     (DeferredBuffer \<lparr>one_shot = False, allow_inline = False\<rparr> [Begin, Collective, small_dispatch_command]) small_buffer
     fresh_store (\<lambda>_. 0) (\<lambda>_. 7) = Some (ErrS UNIMPLEMENTED, fresh_store, \<lambda>_. 0, \<lambda>_. 7) \<and>
   (\<exists>pre c post w1 w2. [Begin, Collective, small_dispatch_command] = pre @ c # post \<and>
     issue_command small_env c w1 = Some (ErrS UNIMPLEMENTED, w2) \<and> w_host w2 = (\<lambda>_. 7))"
proof -
  let ?cs = "[Begin, Collective, small_dispatch_command]"
  have q: "device_queue_execute (runtime_await (\<lambda>_. None)) small_env list_apply 4096 [] [(1, 1)]
      (DeferredBuffer \<lparr>one_shot = False, allow_inline = False\<rparr> ?cs) small_buffer fresh_store (\<lambda>_. 0) (\<lambda>_. 7) =
      Some (ErrS UNIMPLEMENTED, fresh_store, \<lambda>_. 0, \<lambda>_. 7)"
    by (simp add: device_queue_execute_def runtime_await_def multi_wait_def apply_deferred_command_buffer_def
        command_buffer_initialize_def list_apply_def)
  have e: "core_ok (env_core small_env)" by (simp add: small_env_def small_core_ok)
  have a: "runtime_await (\<lambda>_. None) [] fresh_store = Some (None, fresh_store)"
    by (simp add: runtime_await_def multi_wait_def)
  have m: "multi_signal fresh_store [(1, 1)] \<noteq> (Some UNIMPLEMENTED, fresh_store)"
    by (simp add: multi_signal_def signal_unsafe_def fresh_store_def semaphore_create_def)
  obtain pre c post w1 w2 where p: "?cs = pre @ c # post" "issue_command small_env c w1 = Some (ErrS UNIMPLEMENTED, w2)"
      "(\<lambda>_. 7) = w_host w2"
    using failed_submission_stops[OF e small_replays q] m unfolding a by (elim disjE exE conjE) simp_all
  show ?thesis
    by (intro conjI q exI[of _ pre] exI[of _ c] exI[of _ post] exI[of _ w1] exI[of _ w2] p(1,2) p(3)[symmetric])
qed

end
