(* ===== verification/QueueOrder.thy ===== *)
theory QueueOrder
  imports DeviceQueue
begin

text \<open>
  Several submissions at once. Each thread that calls \<open>queue_execute\<close> of the device
  (\<open>runtime/driver/coralnpu_device.c\<close>) waits, runs its work and signals its list one
  semaphore at a time; the steps of the threads interleave over one store of semaphores,
  and the host may fail the semaphores of \<open>may_fail\<close>. The log holds the start and the
  end of every piece of work. \<open>queue_execute_steps\<close> relates the steps to the function
  of the device theory.
\<close>

section \<open>Steps\<close>

record submission =
  sub_waits :: sem_list
  sub_signals :: sem_list
  sub_result :: "status_code option"

datatype sub_phase = Pending | Running | Signals sem_list | Finished "status_code option"

datatype event = Start nat | Ended nat "status_code option"

record queue_sys =
  q_store :: store
  q_phase :: "nat \<Rightarrow> sub_phase"
  q_log :: "event list"

inductive queue_step :: "submission list \<Rightarrow> (nat \<Rightarrow> bool) \<Rightarrow> 64 word \<Rightarrow> queue_sys \<Rightarrow> queue_sys \<Rightarrow> bool"
  for subs :: "submission list" and may_fail :: "nat \<Rightarrow> bool" and failure_value :: "64 word" where
  waited: "t < length subs \<Longrightarrow> q_phase s t = Pending \<Longrightarrow> all_signaled (q_store s) (sub_waits (subs ! t)) \<Longrightarrow>
    result_from_state ModeAll (q_store s) (sub_waits (subs ! t)) = None \<Longrightarrow>
    queue_step subs may_fail failure_value s (s\<lparr>q_phase := (q_phase s)(t := Running), q_log := q_log s @ [Start t]\<rparr>)"
| aborted: "t < length subs \<Longrightarrow> q_phase s t = Pending \<Longrightarrow> all_signaled (q_store s) (sub_waits (subs ! t)) \<Longrightarrow>
    result_from_state ModeAll (q_store s) (sub_waits (subs ! t)) = Some e \<Longrightarrow>
    queue_step subs may_fail failure_value s (s\<lparr>q_phase := (q_phase s)(t := Finished (Some e))\<rparr>)"
| worked: "t < length subs \<Longrightarrow> q_phase s t = Running \<Longrightarrow> sub_result (subs ! t) = None \<Longrightarrow>
    queue_step subs may_fail failure_value s
      (s\<lparr>q_phase := (q_phase s)(t := Signals (sub_signals (subs ! t))), q_log := q_log s @ [Ended t None]\<rparr>)"
| failed: "t < length subs \<Longrightarrow> q_phase s t = Running \<Longrightarrow> sub_result (subs ! t) = Some e \<Longrightarrow>
    queue_step subs may_fail failure_value s
      (s\<lparr>q_phase := (q_phase s)(t := Finished (Some e)), q_log := q_log s @ [Ended t (Some e)]\<rparr>)"
| signaled: "t < length subs \<Longrightarrow> q_phase s t = Signals ((i, v) # l) \<Longrightarrow> signal_unsafe (q_store s i) v = (None, s1) \<Longrightarrow>
    queue_step subs may_fail failure_value s
      (s\<lparr>q_store := (q_store s)(i := s1), q_phase := (q_phase s)(t := Signals l)\<rparr>)"
| rejected: "t < length subs \<Longrightarrow> q_phase s t = Signals ((i, v) # l) \<Longrightarrow> signal_unsafe (q_store s i) v = (Some e, s1) \<Longrightarrow>
    queue_step subs may_fail failure_value s (s\<lparr>q_phase := (q_phase s)(t := Finished (Some e))\<rparr>)"
| completed: "t < length subs \<Longrightarrow> q_phase s t = Signals [] \<Longrightarrow>
    queue_step subs may_fail failure_value s (s\<lparr>q_phase := (q_phase s)(t := Finished None)\<rparr>)"
| host_fails: "may_fail i \<Longrightarrow> semaphore_fail failure_value e (q_store s i) = (True, s1) \<Longrightarrow>
    queue_step subs may_fail failure_value s (s\<lparr>q_store := (q_store s)(i := s1)\<rparr>)"

inductive_cases queue_stepE: "queue_step subs may_fail failure_value s s1"

definition queue_init :: "(nat \<Rightarrow> 64 word) \<Rightarrow> queue_sys" where
  "queue_init initial = \<lparr>q_store = \<lambda>i. semaphore_create (initial i), q_phase = \<lambda>_. Pending, q_log = []\<rparr>"

inductive queue_reachable :: "submission list \<Rightarrow> (nat \<Rightarrow> bool) \<Rightarrow> 64 word \<Rightarrow> (nat \<Rightarrow> 64 word) \<Rightarrow> queue_sys \<Rightarrow> bool"
  for subs :: "submission list" and may_fail :: "nat \<Rightarrow> bool" and failure_value :: "64 word" and initial :: "nat \<Rightarrow> 64 word" where
  start: "queue_reachable subs may_fail failure_value initial (queue_init initial)"
| step: "queue_reachable subs may_fail failure_value initial s \<Longrightarrow> queue_step subs may_fail failure_value s s1 \<Longrightarrow>
    queue_reachable subs may_fail failure_value initial s1"

section \<open>The steps of one submission\<close>

text \<open>The loop of the signals as steps, and a whole submission once its wait is over.\<close>

lemma signal_steps:
  assumes "t < length subs"
  shows "signal_all (q_store s) l = (None, \<sigma>1, dn) \<Longrightarrow> q_phase s t = Signals l \<Longrightarrow>
    (queue_step subs may_fail failure_value)\<^sup>*\<^sup>* s (s\<lparr>q_store := \<sigma>1, q_phase := (q_phase s)(t := Signals [])\<rparr>)"
proof (induction l arbitrary: s dn)
  case Nil
  then have e: "s\<lparr>q_store := \<sigma>1, q_phase := (q_phase s)(t := Signals [])\<rparr> = s" by (simp add: fun_upd_idem)
  show ?case unfolding e by (rule rtranclp.rtrancl_refl)
next
  case (Cons x l)
  obtain i v where x: "x = (i, v)" by (cases x)
  obtain s1 where s1: "signal_unsafe (q_store s i) v = (None, s1)"
    using Cons.prems(1) by (auto simp: x split: prod.splits option.splits)
  let ?s = "s\<lparr>q_store := (q_store s)(i := s1), q_phase := (q_phase s)(t := Signals l)\<rparr>"
  obtain dn1 where r: "signal_all (q_store ?s) l = (None, \<sigma>1, dn1)"
    using Cons.prems(1) s1 by (auto simp: x split: prod.splits)
  have st: "queue_step subs may_fail failure_value s ?s"
    by (rule signaled[OF assms Cons.prems(2)[unfolded x] s1])
  have "q_phase ?s t = Signals l" by simp
  note ih = Cons.IH[OF r this]
  have e: "?s\<lparr>q_store := \<sigma>1, q_phase := (q_phase ?s)(t := Signals [])\<rparr> =
      s\<lparr>q_store := \<sigma>1, q_phase := (q_phase s)(t := Signals [])\<rparr>"
    by (rule queue_sys.equality) (simp_all add: fun_eq_iff)
  show ?case by (rule converse_rtranclp_into_rtranclp[OF st ih[unfolded e]])
qed

lemma multi_signal_loop: "multi_signal \<sigma> l = (None, \<sigma>1) \<Longrightarrow> \<exists>dn. signal_all \<sigma> l = (None, \<sigma>1, dn)"
  by (cases l rule: remdups_adj.cases) (auto simp: multi_signal_def split: prod.splits option.splits)

lemma queue_execute_steps:
  assumes "t < length subs" "q_phase s t = Pending" "sub_result (subs ! t) = None"
    "queue_execute (\<lambda>l \<sigma>. if all_signaled \<sigma> l then Some (result_from_state ModeAll \<sigma> l, \<sigma>) else None)
       (sub_waits (subs ! t)) (sub_signals (subs ! t)) True (\<lambda>w. (None, w)) (q_store s) w = Some (None, \<sigma>2, w1)"
  shows "(queue_step subs may_fail failure_value)\<^sup>*\<^sup>* s
    (s\<lparr>q_store := \<sigma>2, q_phase := (q_phase s)(t := Finished None), q_log := q_log s @ [Start t, Ended t None]\<rparr>)"
proof -
  have c: "all_signaled (q_store s) (sub_waits (subs ! t))" "result_from_state ModeAll (q_store s) (sub_waits (subs ! t)) = None"
    and m: "multi_signal (q_store s) (sub_signals (subs ! t)) = (None, \<sigma>2)"
    using assms(4) by (auto simp: queue_execute_def apply_deferred_def split: if_splits prod.splits)
  let ?a = "s\<lparr>q_phase := (q_phase s)(t := Running), q_log := q_log s @ [Start t]\<rparr>"
  let ?b = "?a\<lparr>q_phase := (q_phase ?a)(t := Signals (sub_signals (subs ! t))), q_log := q_log ?a @ [Ended t None]\<rparr>"
  let ?c = "?b\<lparr>q_store := \<sigma>2, q_phase := (q_phase ?b)(t := Signals [])\<rparr>"
  obtain dn where dn: "signal_all (q_store ?b) (sub_signals (subs ! t)) = (None, \<sigma>2, dn)"
    using multi_signal_loop[OF m] by auto
  have "queue_step subs may_fail failure_value s ?a" by (rule waited[OF assms(1,2) c])
  moreover have "queue_step subs may_fail failure_value ?a ?b" by (rule worked[OF assms(1) _ assms(3)]) simp
  moreover have "(queue_step subs may_fail failure_value)\<^sup>*\<^sup>* ?b ?c" by (rule signal_steps[OF assms(1) dn]) simp
  moreover have "queue_step subs may_fail failure_value ?c (?c\<lparr>q_phase := (q_phase ?c)(t := Finished None)\<rparr>)"
    by (rule completed[OF assms(1)]) simp
  ultimately have "(queue_step subs may_fail failure_value)\<^sup>*\<^sup>* s (?c\<lparr>q_phase := (q_phase ?c)(t := Finished None)\<rparr>)"
    by (meson converse_rtranclp_into_rtranclp rtranclp.rtrancl_into_rtrancl)
  moreover have "?c\<lparr>q_phase := (q_phase ?c)(t := Finished None)\<rparr> =
      s\<lparr>q_store := \<sigma>2, q_phase := (q_phase s)(t := Finished None), q_log := q_log s @ [Start t, Ended t None]\<rparr>"
    by (rule queue_sys.equality) (simp_all add: fun_eq_iff)
  ultimately show ?thesis by (simp only:)
qed

section \<open>Happens before\<close>

text \<open>The semaphore is signaled by submission \<open>a\<close> alone.\<close>

definition only_signaled_by :: "submission list \<Rightarrow> nat \<Rightarrow> nat \<Rightarrow> bool" where
  "only_signaled_by subs a i \<longleftrightarrow> (\<forall>t < length subs. t \<noteq> a \<longrightarrow> i \<notin> fst ` set (sub_signals (subs ! t)))"

text \<open>A thread in the middle of its signals holds a part of its list, and its work ended.\<close>

definition phase_ok :: "submission list \<Rightarrow> event list \<Rightarrow> nat \<Rightarrow> sub_phase \<Rightarrow> bool" where
  "phase_ok subs log t p \<longleftrightarrow> (\<forall>l. p = Signals l \<longrightarrow> t < length subs \<and> set l \<subseteq> set (sub_signals (subs ! t)) \<and> Ended t None \<in> set log)"

lemma reachable_phases:
  "queue_reachable subs may_fail failure_value initial s \<Longrightarrow> phase_ok subs (q_log s) t (q_phase s t)"
proof (induction rule: queue_reachable.induct)
  case (step s s1)
  from step.hyps(2) step.IH show ?case
    by (cases rule: queue_step.cases) (auto simp: phase_ok_def)
qed (simp add: phase_ok_def queue_init_def)

lemma signal_source:
  assumes "queue_reachable subs may_fail failure_value initial s" "only_signaled_by subs a i" "initial i < v"
    "v \<le> current_value (q_store s i)" "failure_status (q_store s i) = None"
  shows "Ended a None \<in> set (q_log s)"
  using assms(1,4,5)
proof (induction rule: queue_reachable.induct)
  case start
  then show ?case using assms(3) by (simp add: queue_init_def semaphore_create_def)
next
  case (step s s1)
  from step.hyps(2) show ?case
  proof (cases rule: queue_step.cases)
    case (signaled t j u l sm)
    show ?thesis
    proof (cases "j = i")
      case True
      have ok: "phase_ok subs (q_log s) t (Signals ((j, u) # l))"
        using reachable_phases[OF step.hyps(1), of t] signaled by simp
      then have "t < length subs" "i \<in> fst ` set (sub_signals (subs ! t))" "Ended t None \<in> set (q_log s)"
        using True by (force simp: phase_ok_def)+
      then show ?thesis using assms(2) signaled(1) by (cases "t = a") (auto simp: only_signaled_by_def)
    qed (use step.IH step.prems signaled in simp)
  next
    case (host_fails j e sm)
    then show ?thesis using step.IH step.prems by (auto simp: semaphore_fail_def split: if_splits)
  qed (use step.IH step.prems in auto)
qed

text \<open>Every entry of the log before a given one.\<close>

definition precedes :: "event \<Rightarrow> event \<Rightarrow> event list \<Rightarrow> bool" where
  "precedes x y log \<longleftrightarrow> (\<forall>xs ys. log = xs @ y # ys \<longrightarrow> x \<in> set xs)"

lemma precedes_snoc: "precedes x y log \<Longrightarrow> (z = y \<Longrightarrow> x \<in> set log) \<Longrightarrow> precedes x y (log @ [z])"
proof -
  assume a: "precedes x y log" "z = y \<Longrightarrow> x \<in> set log"
  have "x \<in> set xs" if e: "log @ [z] = xs @ y # ys" for xs ys
  proof (cases ys rule: rev_cases)
    case Nil
    then show ?thesis using e a(2) by simp
  next
    case (snoc zs u)
    then have "log = xs @ y # zs" using e by (simp flip: append_assoc append_Cons)
    then show ?thesis using a(1) by (simp add: precedes_def)
  qed
  then show ?thesis by (simp add: precedes_def)
qed

lemma wait_passed:
  assumes "all_signaled \<sigma> l" "result_from_state ModeAll \<sigma> l = None" "(i, v) \<in> set l"
  shows "v \<le> current_value (\<sigma> i)" "failure_status (\<sigma> i) = None"
proof -
  show f: "failure_status (\<sigma> i) = None"
    using assms(2,3) unfolding result_from_state_cases by (auto split: if_splits)
  show "v \<le> current_value (\<sigma> i)" using assms(1,3) f by (auto simp: all_signaled_iff is_signaled_def)
qed

text \<open>
  Submissions of several threads in any interleaving, with the host failing whatever
  semaphores it may: when one submission waits for a value of a semaphore that only
  another signals, and that is not reached at the start, then whenever the work of the
  first has started, the work of the second had ended before, and with success.
\<close>

theorem submissions_happen_before:
  assumes "queue_reachable subs may_fail failure_value initial s" "b < length subs" "(i, v) \<in> set (sub_waits (subs ! b))"
    "only_signaled_by subs a i" "initial i < v"
  shows "precedes (Ended a None) (Start b) (q_log s)"
  using assms(1)
proof (induction rule: queue_reachable.induct)
  case start
  then show ?case by (simp add: queue_init_def precedes_def)
next
  case (step s s1)
  from step.hyps(2) show ?case
  proof (cases rule: queue_step.cases)
    case (waited t)
    have "Ended a None \<in> set (q_log s)" if "t = b"
      using signal_source[OF step.hyps(1) assms(4,5)] wait_passed[OF waited(4,5), of i v] assms(3) that by simp
    then show ?thesis using waited step.IH by (auto intro: precedes_snoc)
  next
    case (worked t)
    then show ?thesis using step.IH by (auto intro: precedes_snoc)
  next
    case (failed t e)
    then show ?thesis using step.IH by (auto intro: precedes_snoc)
  qed (use step.IH in auto)
qed

section \<open>Completion\<close>

text \<open>Each semaphore is signaled at most once, to a value beyond the initial one.\<close>

definition signals_once :: "submission list \<Rightarrow> (nat \<Rightarrow> 64 word) \<Rightarrow> bool" where
  "signals_once subs initial \<longleftrightarrow> distinct (map fst (concat (map sub_signals subs))) \<and>
     (\<forall>t < length subs. \<forall>(i, u) \<in> set (sub_signals (subs ! t)). initial i < u)"

text \<open>Every wait is for a value reached at the start or signaled by a submission of lower rank.\<close>

definition ordered_by :: "(nat \<Rightarrow> nat) \<Rightarrow> submission list \<Rightarrow> (nat \<Rightarrow> 64 word) \<Rightarrow> bool" where
  "ordered_by rank subs initial \<longleftrightarrow> (\<forall>b < length subs. \<forall>(i, v) \<in> set (sub_waits (subs ! b)).
     v \<le> initial i \<or> (\<exists>a < length subs. rank a < rank b \<and> (\<exists>u. (i, u) \<in> set (sub_signals (subs ! a)) \<and> v \<le> u)))"

fun remaining :: "submission \<Rightarrow> sub_phase \<Rightarrow> sem_list" where
  "remaining b (Signals l) = l"
| "remaining b (Finished r) = []"
| "remaining b _ = sub_signals b"

fun phase_weight :: "submission \<Rightarrow> sub_phase \<Rightarrow> nat" where
  "phase_weight b Pending = 3 + length (sub_signals b)"
| "phase_weight b Running = 2 + length (sub_signals b)"
| "phase_weight b (Signals l) = 1 + length l"
| "phase_weight b (Finished r) = 0"

definition queue_weight :: "submission list \<Rightarrow> queue_sys \<Rightarrow> nat" where
  "queue_weight subs s = (\<Sum>t < length subs. phase_weight (subs ! t) (q_phase s t))"

lemma queue_weight_upd:
  assumes "t < length subs" "phase_weight (subs ! t) p < phase_weight (subs ! t) (q_phase s t)" "q_phase s1 = (q_phase s)(t := p)"
  shows "queue_weight subs s1 < queue_weight subs s"
  unfolding queue_weight_def assms(3)
  by (rule sum_strict_mono_ex1) (use assms(1,2) in auto)

lemma queue_step_weight:
  "queue_step subs (\<lambda>_. False) failure_value s s1 \<Longrightarrow> queue_weight subs s1 < queue_weight subs s"
  by (erule queue_stepE) (auto intro!: queue_weight_upd)

lemma queue_steps_weight:
  "(queue_step subs (\<lambda>_. False) failure_value ^^ n) s s1 \<Longrightarrow> n + queue_weight subs s1 \<le> queue_weight subs s"
proof (induction n arbitrary: s1)
  case (Suc n)
  then obtain s2 where "(queue_step subs (\<lambda>_. False) failure_value ^^ n) s s2" "queue_step subs (\<lambda>_. False) failure_value s2 s1"
    by auto
  then show ?case using Suc.IH queue_step_weight by fastforce
qed simp

text \<open>What holds of the submission \<open>t\<close>: the part of its signals done shows in the store, the rest does not.\<close>

definition submission_ok :: "submission list \<Rightarrow> (nat \<Rightarrow> 64 word) \<Rightarrow> queue_sys \<Rightarrow> nat \<Rightarrow> bool" where
  "submission_ok subs initial s t \<longleftrightarrow> (\<forall>e. q_phase s t \<noteq> Finished (Some e)) \<and>
     (\<exists>dn. sub_signals (subs ! t) = dn @ remaining (subs ! t) (q_phase s t) \<and>
        (\<forall>(i, u) \<in> set dn. current_value (q_store s i) = u)) \<and>
     (\<forall>(i, u) \<in> set (remaining (subs ! t) (q_phase s t)). current_value (q_store s i) = initial i)"

definition queue_ok :: "submission list \<Rightarrow> (nat \<Rightarrow> 64 word) \<Rightarrow> queue_sys \<Rightarrow> bool" where
  "queue_ok subs initial s \<longleftrightarrow> (\<forall>t < length subs. submission_ok subs initial s t) \<and>
     (\<forall>i. failure_status (q_store s i) = None \<and> initial i \<le> current_value (q_store s i))"

lemma signals_once_distinct:
  assumes "signals_once subs initial" "t < length subs"
  shows "distinct (map fst (sub_signals (subs ! t)))"
    and "u < length subs \<Longrightarrow> u \<noteq> t \<Longrightarrow> fst ` set (sub_signals (subs ! t)) \<inter> fst ` set (sub_signals (subs ! u)) = {}"
proof -
  have d: "distinct (concat (map (map fst \<circ> sub_signals) subs))" using assms(1) by (simp add: signals_once_def map_concat)
  show "distinct (map fst (sub_signals (subs ! t)))"
    using d assms(2) by (auto simp: distinct_concat_iff)
  have disj: "fst ` set (sub_signals (subs ! j)) \<inter> fst ` set (sub_signals (subs ! k)) = {}"
    if "j < k" "k < length subs" for j k
  proof -
    have s: "subs = take k subs @ subs ! k # drop (Suc k) subs" using that(2) by (rule id_take_nth_drop)
    have m: "subs ! j \<in> set (take k subs)" using that by (auto simp: in_set_conv_nth)
    have "distinct (concat (map (map fst \<circ> sub_signals) (take k subs @ subs ! k # drop (Suc k) subs)))"
      using d s by simp
    then have "set (concat (map (map fst \<circ> sub_signals) (take k subs))) \<inter> fst ` set (sub_signals (subs ! k)) = {}"
      by (simp only: map_append concat_append list.map concat.simps distinct_append set_append comp_apply set_map) blast
    moreover have "fst ` set (sub_signals (subs ! j)) \<subseteq> set (concat (map (map fst \<circ> sub_signals) (take k subs)))"
      using m by (auto simp: set_concat)
    ultimately show ?thesis by blast
  qed
  show "fst ` set (sub_signals (subs ! t)) \<inter> fst ` set (sub_signals (subs ! u)) = {}"
    if "u < length subs" "u \<noteq> t"
    using disj[of t u] disj[of u t] that assms(2) by (cases "t < u") auto
qed

lemma store_elsewhere:
  assumes "i \<notin> fst ` set l"
  shows "(\<forall>(j, u) \<in> set l. current_value ((\<sigma>(i := x)) j) = u) \<longleftrightarrow> (\<forall>(j, u) \<in> set l. current_value (\<sigma> j) = u)"
    and "(\<forall>(j, u) \<in> set l. current_value ((\<sigma>(i := x)) j) = f j) \<longleftrightarrow> (\<forall>(j, u) \<in> set l. current_value (\<sigma> j) = f j)"
  using assms by (induction l; auto)+

lemma submission_ok_store:
  assumes "submission_ok subs initial s t" "i \<notin> fst ` set (sub_signals (subs ! t))" "q_phase s1 t = q_phase s t"
    "q_store s1 = (q_store s)(i := x)"
  shows "submission_ok subs initial s1 t"
proof -
  obtain dn where dn: "sub_signals (subs ! t) = dn @ remaining (subs ! t) (q_phase s t)"
      "\<forall>(i, u) \<in> set dn. current_value (q_store s i) = u"
    using assms(1) by (auto simp: submission_ok_def)
  have "i \<notin> fst ` set dn" "i \<notin> fst ` set (remaining (subs ! t) (q_phase s t))" using assms(2) by (auto simp: dn(1))
  then have "\<forall>(j, u) \<in> set dn. current_value (q_store s1 j) = u"
    "\<forall>(j, u) \<in> set (remaining (subs ! t) (q_phase s t)). current_value (q_store s1 j) = initial j"
    using dn(2) assms(1) by (simp_all add: assms(4) submission_ok_def store_elsewhere del: fun_upd_apply)
  then show ?thesis using dn(1) assms(1,3) by (auto simp: submission_ok_def)
qed

lemma submission_ok_same:
  assumes "submission_ok subs initial s t" "q_store s1 = q_store s" "remaining (subs ! t) (q_phase s1 t) = remaining (subs ! t) (q_phase s t)"
    "\<forall>e. q_phase s1 t \<noteq> Finished (Some e)"
  shows "submission_ok subs initial s1 t"
  using assms by (simp add: submission_ok_def)

lemma queue_ok_upd:
  assumes "queue_ok subs initial s" "remaining (subs ! t) p = remaining (subs ! t) (q_phase s t)" "\<forall>e. p \<noteq> Finished (Some e)"
    "q_store s1 = q_store s" "q_phase s1 = (q_phase s)(t := p)"
  shows "queue_ok subs initial s1"
proof -
  have "submission_ok subs initial s1 u" if "u < length subs" for u
    using assms that by (intro submission_ok_same[of subs initial s u s1]) (auto simp: queue_ok_def submission_ok_def)
  then show ?thesis using assms(1,4) by (simp add: queue_ok_def)
qed

lemma queue_ok_signal:
  assumes "queue_ok subs initial s" "signals_once subs initial" "t < length subs" "q_phase s t = Signals ((i, v) # l)"
    "s1 = s\<lparr>q_store := (q_store s)(i := (q_store s i)\<lparr>current_value := v\<rparr>), q_phase := (q_phase s)(t := Signals l)\<rparr>"
    "current_value (q_store s i) < v"
  shows "queue_ok subs initial s1"
proof -
  have "submission_ok subs initial s t" using assms(1,3) by (simp add: queue_ok_def)
  then obtain dn where dn: "sub_signals (subs ! t) = dn @ (i, v) # l" "\<forall>(j, u) \<in> set dn. current_value (q_store s j) = u"
    and rest: "\<forall>(j, u) \<in> set l. current_value (q_store s j) = initial j"
    by (auto simp: submission_ok_def assms(4))
  have i: "i \<notin> fst ` set dn" "i \<notin> fst ` set l"
    using signals_once_distinct(1)[OF assms(2,3)] by (auto simp: dn(1))
  have here: "submission_ok subs initial s1 t"
  proof -
    have st: "q_store s1 = (q_store s)(i := (q_store s i)\<lparr>current_value := v\<rparr>)" by (simp add: assms(5))
    have "\<forall>(j, u) \<in> set dn. current_value (q_store s1 j) = u" "\<forall>(j, u) \<in> set l. current_value (q_store s1 j) = initial j"
      using dn(2) rest i by (simp_all add: st store_elsewhere del: fun_upd_apply)
    moreover have "current_value (q_store s1 i) = v" by (simp add: st)
    ultimately have "\<forall>(j, u) \<in> set (dn @ [(i, v)]). current_value (q_store s1 j) = u"
      "\<forall>(j, u) \<in> set l. current_value (q_store s1 j) = initial j" by simp_all
    then show ?thesis using dn(1) by (auto simp: submission_ok_def assms(5) intro!: exI[of _ "dn @ [(i, v)]"])
  qed
  have "submission_ok subs initial s1 u" if u: "u < length subs" for u
  proof (cases "u = t")
    case False
    have "i \<in> fst ` set (sub_signals (subs ! t))" by (force simp: dn(1))
    then have "i \<notin> fst ` set (sub_signals (subs ! u))"
      using signals_once_distinct(2)[OF assms(2,3) u False] by auto
    then show ?thesis
      using assms(1) u False by (intro submission_ok_store[of subs initial s u i s1]) (auto simp: queue_ok_def assms(5))
  qed (simp add: here)
  moreover have "failure_status (q_store s1 j) = None \<and> initial j \<le> current_value (q_store s1 j)" for j
    using assms(1,6) by (auto simp: assms(5) queue_ok_def intro: order_trans less_imp_le)
  ultimately show ?thesis by (simp add: queue_ok_def)
qed

lemma wait_not_aborted:
  assumes "queue_ok subs initial s" "all_signaled (q_store s) l"
  shows "result_from_state ModeAll (q_store s) l = None"
  using assms by (auto simp: result_from_state_cases queue_ok_def)

lemma queue_ok_step:
  assumes "queue_ok subs initial s" "signals_once subs initial" "\<forall>b \<in> set subs. sub_result b = None"
    "queue_step subs (\<lambda>_. False) failure_value s s1"
  shows "queue_ok subs initial s1"
  using assms(4)
proof (cases rule: queue_step.cases)
  case (waited t)
  show ?thesis by (rule queue_ok_upd[OF assms(1), of t Running]) (simp_all add: waited)
next
  case (aborted t e)
  then show ?thesis using wait_not_aborted[OF assms(1) aborted(4)] by simp
next
  case (worked t)
  show ?thesis by (rule queue_ok_upd[OF assms(1), of t "Signals (sub_signals (subs ! t))"]) (simp_all add: worked)
next
  case (failed t e)
  then show ?thesis using assms(3) by (metis nth_mem option.distinct(1))
next
  case (signaled t i v l x)
  then show ?thesis
    by (intro queue_ok_signal[OF assms(1,2) signaled(2,3)]) (auto simp: signal_unsafe_def split: if_splits)
next
  case (rejected t i v l e x)
  have "submission_ok subs initial s t" using assms(1) rejected by (simp add: queue_ok_def)
  then have c: "current_value (q_store s i) = initial i" and m: "(i, v) \<in> set (sub_signals (subs ! t))"
    using rejected(3) by (auto simp: submission_ok_def)
  have "initial i < v" using assms(2) rejected(2) m by (auto simp: signals_once_def)
  then show ?thesis using rejected(4) c by (auto simp: signal_unsafe_def split: if_splits)
next
  case (completed t)
  show ?thesis by (rule queue_ok_upd[OF assms(1), of t "Finished None"]) (simp_all add: completed)
qed simp

lemma queue_ok_steps:
  assumes "signals_once subs initial" "\<forall>b \<in> set subs. sub_result b = None"
    "(queue_step subs (\<lambda>_. False) failure_value ^^ n) (queue_init initial) s"
  shows "queue_ok subs initial s"
  using assms(3)
proof (induction n arbitrary: s)
  case 0
  then have "s = queue_init initial" by simp
  then show ?case by (simp add: queue_ok_def submission_ok_def queue_init_def semaphore_create_def case_prod_beta)
next
  case (Suc n)
  then show ?case using queue_ok_step[OF _ assms(1,2)] by auto
qed

text \<open>A thread that is not through has a step, or waits for a submission of lower rank.\<close>

lemma stuck_finished:
  assumes "queue_ok subs initial s" "\<forall>b \<in> set subs. sub_result b = None" "ordered_by rank subs initial"
    "\<forall>s1. \<not> queue_step subs (\<lambda>_. False) failure_value s s1"
  shows "t < length subs \<Longrightarrow> q_phase s t = Finished None"
proof (induction "rank t" arbitrary: t rule: less_induct)
  case less
  show ?case
  proof (cases "q_phase s t")
    case Pending
    have "v \<le> current_value (q_store s i)" if w: "(i, v) \<in> set (sub_waits (subs ! t))" for i v
    proof -
      have "initial i \<le> current_value (q_store s i)" using assms(1) by (simp add: queue_ok_def)
      moreover have "v \<le> current_value (q_store s i)"
        if "a < length subs" "rank a < rank t" "(i, u) \<in> set (sub_signals (subs ! a))" "v \<le> u" for a u
      proof -
        have "q_phase s a = Finished None" by (rule less.hyps[OF that(2,1)])
        moreover have "submission_ok subs initial s a" using assms(1) that(1) by (simp add: queue_ok_def)
        ultimately show ?thesis using that(3,4) by (auto simp: submission_ok_def)
      qed
      moreover have "v \<le> initial i \<or> (\<exists>a < length subs. rank a < rank t \<and> (\<exists>u. (i, u) \<in> set (sub_signals (subs ! a)) \<and> v \<le> u))"
        using assms(3)[unfolded ordered_by_def, rule_format, OF less.prems w] by simp
      ultimately show ?thesis by (meson order_trans)
    qed
    then have sg: "all_signaled (q_store s) (sub_waits (subs ! t))" by (auto simp: all_signaled_iff is_signaled_def)
    show ?thesis using waited[OF less.prems Pending sg wait_not_aborted[OF assms(1) sg]] assms(4) by blast
  next
    case Running
    then show ?thesis using worked[OF less.prems Running] assms(2,4) less.prems by auto
  next
    case (Signals l)
    show ?thesis
    proof (cases l)
      case Nil
      then show ?thesis using completed[OF less.prems] Signals assms(4) by auto
    next
      case (Cons x l1)
      obtain i v where x: "x = (i, v)" by (cases x)
      have p: "q_phase s t = Signals ((i, v) # l1)" using Signals Cons x by simp
      obtain c s1 where c: "signal_unsafe (q_store s i) v = (c, s1)" by (cases "signal_unsafe (q_store s i) v")
      have "\<exists>s2. queue_step subs (\<lambda>_. False) failure_value s s2"
        using signaled[OF less.prems p] rejected[OF less.prems p] c by (cases c) blast+
      then show ?thesis using assms(4) by blast
    qed
  next
    case (Finished r)
    then show ?thesis using assms(1) less.prems by (cases r) (auto simp: queue_ok_def submission_ok_def)
  qed
qed

text \<open>
  Submissions whose work succeeds, that signal each semaphore once and wait only for
  what is reached at the start or signaled by a submission of lower rank, all complete:
  in whatever way their steps interleave, there are at most three steps per submission
  and one per signal, and when none is left every submission has returned ok.
\<close>

theorem submissions_complete:
  assumes "signals_once subs initial" "\<forall>b \<in> set subs. sub_result b = None" "ordered_by rank subs initial"
    "(queue_step subs (\<lambda>_. False) failure_value ^^ n) (queue_init initial) s"
  shows "n \<le> (\<Sum>t < length subs. 3 + length (sub_signals (subs ! t))) \<and>
    ((\<forall>s1. \<not> queue_step subs (\<lambda>_. False) failure_value s s1) \<longrightarrow> (\<forall>t < length subs. q_phase s t = Finished None))"
proof
  have "queue_weight subs (queue_init initial) = (\<Sum>t < length subs. 3 + length (sub_signals (subs ! t)))"
    by (simp add: queue_weight_def queue_init_def)
  then show "n \<le> (\<Sum>t < length subs. 3 + length (sub_signals (subs ! t)))" using queue_steps_weight[OF assms(4)] by linarith
  show "(\<forall>s1. \<not> queue_step subs (\<lambda>_. False) failure_value s s1) \<longrightarrow> (\<forall>t < length subs. q_phase s t = Finished None)"
    using stuck_finished[OF queue_ok_steps[OF assms(1,2,4)] assms(2,3)] by blast
qed

section \<open>Two submissions\<close>

text \<open>The second waits for what the first signals.\<close>

definition two_subs :: "submission list" where
  "two_subs = [\<lparr>sub_waits = [], sub_signals = [(0, 5)], sub_result = None\<rparr>,
     \<lparr>sub_waits = [(0, 3)], sub_signals = [(1, 1)], sub_result = None\<rparr>]"

definition zeros :: "nat \<Rightarrow> 64 word" where
  "zeros i = 0"

definition first_done :: queue_sys where
  "first_done = (queue_init zeros)\<lparr>q_store := (q_store (queue_init zeros))(0 := \<lparr>current_value = 5, failure_status = None\<rparr>),
     q_phase := (q_phase (queue_init zeros))(0 := Finished None), q_log := [Start 0, Ended 0 None]\<rparr>"

definition both_done :: queue_sys where
  "both_done = first_done\<lparr>q_store := (q_store first_done)(1 := \<lparr>current_value = 1, failure_status = None\<rparr>),
     q_phase := (q_phase first_done)(1 := Finished None), q_log := q_log first_done @ [Start 1, Ended 1 None]\<rparr>"

lemma first_steps: "(queue_step two_subs may_fail 9)\<^sup>*\<^sup>* (queue_init zeros) first_done"
proof -
  have "(queue_step two_subs may_fail 9)\<^sup>*\<^sup>* (queue_init zeros)
     (queue_init zeros\<lparr>q_store := (q_store (queue_init zeros))(0 := \<lparr>current_value = 5, failure_status = None\<rparr>),
        q_phase := (q_phase (queue_init zeros))(0 := Finished None), q_log := q_log (queue_init zeros) @ [Start 0, Ended 0 None]\<rparr>)"
    by (rule queue_execute_steps[where w = "()"])
      (simp_all add: two_subs_def queue_init_def zeros_def queue_execute_def apply_deferred_def multi_signal_def
        signal_unsafe_def semaphore_create_def result_from_state_def result_of_flags_def)
  then show ?thesis by (simp add: first_done_def queue_init_def)
qed

lemma second_steps: "(queue_step two_subs may_fail 9)\<^sup>*\<^sup>* first_done both_done"
  unfolding both_done_def
  by (rule queue_execute_steps[where w = "()"])
    (simp_all add: two_subs_def first_done_def queue_init_def zeros_def queue_execute_def apply_deferred_def multi_signal_def
      signal_unsafe_def semaphore_create_def result_from_state_def result_of_flags_def result_step_def is_signaled_def fun_upd_def)

lemma steps_reachable:
  assumes "(queue_step subs may_fail failure_value)\<^sup>*\<^sup>* s s1" "queue_reachable subs may_fail failure_value initial s"
  shows "queue_reachable subs may_fail failure_value initial s1"
  using assms by (induction rule: rtranclp_induct) (auto intro: queue_reachable.step)

lemma both_steps: "(queue_step two_subs may_fail 9)\<^sup>*\<^sup>* (queue_init zeros) both_done"
  by (rule rtranclp_trans[OF first_steps second_steps])

lemma submissions_happen_before_witness:
  "precedes (Ended 0 None) (Start 1) (q_log both_done) \<and> q_log both_done = [Start 0, Ended 0 None, Start 1, Ended 1 None]"
proof -
  have r: "queue_reachable two_subs (\<lambda>_. True) 9 zeros both_done"
    by (rule steps_reachable[OF both_steps queue_reachable.start])
  have o: "only_signaled_by two_subs 0 0" by (auto simp: only_signaled_by_def two_subs_def less_Suc_eq)
  have "precedes (Ended 0 None) (Start 1) (q_log both_done)"
    by (rule submissions_happen_before[OF r _ _ o, where v = 3]) (simp_all add: two_subs_def zeros_def)
  then show ?thesis by (simp add: both_done_def first_done_def)
qed

lemma submissions_complete_witness:
  "\<exists>n \<le> 8. (queue_step two_subs (\<lambda>_. False) 9 ^^ n) (queue_init zeros) both_done"
proof -
  obtain n where n: "(queue_step two_subs (\<lambda>_. False) 9 ^^ n) (queue_init zeros) both_done"
    using both_steps by (auto simp: rtranclp_power)
  have l: "{..<length two_subs} = {0, 1}" by (auto simp: two_subs_def)
  have s: "signals_once two_subs zeros" by (auto simp: signals_once_def two_subs_def zeros_def less_Suc_eq)
  have w: "\<forall>b \<in> set two_subs. sub_result b = None" by (simp add: two_subs_def)
  have o: "ordered_by id two_subs zeros" by (force simp: ordered_by_def two_subs_def less_Suc_eq)
  have "n \<le> 8" using submissions_complete[OF s w o n]
    by (simp add: l) (simp add: two_subs_def)
  then show ?thesis using n by blast
qed

end
