(* ===== verification/QueueThreads.thy ===== *)
theory QueueThreads
  imports QueueOrder
begin

text \<open>
  Submissions at the level of the locks. Each thread runs \<open>queue_execute\<close> of the device
  (\<open>runtime/driver/coralnpu_device.c\<close>) over the threads of the semaphore theory
  (\<open>runtime/driver/coralnpu_semaphore.c\<close>): its wait sleeps in the notification and
  evaluates its condition one semaphore at a time, its signals take one mutex each and end
  with a post that wakes every waiter; threads of the host fail the semaphores of
  \<open>may_fail\<close>. Work starts only after the work it waits for, whatever fails.
\<close>

section \<open>Steps\<close>

text \<open>
  Where a thread is in \<open>queue_execute\<close>: before the wait, in it, before the command
  buffer is applied, before and in \<open>multi_signal\<close>, and past the return.
\<close>

datatype control = Called | InWait | Applying | Applied | InSignal | Returned "status_code option"

record submit_sys = sys +
  control_at :: "nat \<Rightarrow> control"
  work_log :: "event list"

text \<open>The threads from \<open>length subs\<close> on are the host's.\<close>

inductive submit_step :: "submission list \<Rightarrow> (nat \<Rightarrow> bool) \<Rightarrow> 64 word \<Rightarrow> submit_sys \<Rightarrow> submit_sys \<Rightarrow> bool"
  for subs :: "submission list" and may_fail :: "nat \<Rightarrow> bool" and failure_value :: "64 word" where
  wait_enters: "t < length subs \<Longrightarrow> control_at s t = Called \<Longrightarrow>
    submit_step subs may_fail failure_value s (s\<lparr>
      threads := (threads s)(t := wait_start (multi_wait (sems s) ModeAll (sub_waits (subs ! t)) Infinite)),
      control_at := (control_at s)(t := InWait)\<rparr>)"
| wait_runs: "t < length subs \<Longrightarrow> control_at s t = InWait \<Longrightarrow> \<not> idle (threads s t) \<Longrightarrow>
    wait_run (sems s) (threads s t) \<noteq> threads s t \<Longrightarrow>
    submit_step subs may_fail failure_value s (s\<lparr>threads := (threads s)(t := wait_run (sems s) (threads s t))\<rparr>)"
| wait_ok: "t < length subs \<Longrightarrow> control_at s t = InWait \<Longrightarrow> threads s t = WaitDone p None \<Longrightarrow>
    submit_step subs may_fail failure_value s (s\<lparr>control_at := (control_at s)(t := Applying), work_log := work_log s @ [Start t]\<rparr>)"
| wait_fails: "t < length subs \<Longrightarrow> control_at s t = InWait \<Longrightarrow> threads s t = WaitDone p (Some e) \<Longrightarrow>
    submit_step subs may_fail failure_value s (s\<lparr>control_at := (control_at s)(t := Returned (Some e))\<rparr>)"
| work_ok: "t < length subs \<Longrightarrow> control_at s t = Applying \<Longrightarrow> sub_result (subs ! t) = None \<Longrightarrow>
    submit_step subs may_fail failure_value s (s\<lparr>control_at := (control_at s)(t := Applied), work_log := work_log s @ [Ended t None]\<rparr>)"
| work_fails: "t < length subs \<Longrightarrow> control_at s t = Applying \<Longrightarrow> sub_result (subs ! t) = Some e \<Longrightarrow>
    submit_step subs may_fail failure_value s (s\<lparr>control_at := (control_at s)(t := Returned (Some e)), work_log := work_log s @ [Ended t (Some e)]\<rparr>)"
| signal_none: "t < length subs \<Longrightarrow> control_at s t = Applied \<Longrightarrow> sub_signals (subs ! t) = [] \<Longrightarrow>
    submit_step subs may_fail failure_value s (s\<lparr>control_at := (control_at s)(t := Returned None)\<rparr>)"
| signal_one: "t < length subs \<Longrightarrow> control_at s t = Applied \<Longrightarrow> sub_signals (subs ! t) = [(i, v)] \<Longrightarrow>
    signal_unsafe (sems s i) v = (None, s1) \<Longrightarrow>
    submit_step subs may_fail failure_value s (s\<lparr>sems := (sems s)(i := s1), threads := (threads s)(t := Posting None),
      control_at := (control_at s)(t := InSignal)\<rparr>)"
| signal_one_rejected: "t < length subs \<Longrightarrow> control_at s t = Applied \<Longrightarrow> sub_signals (subs ! t) = [(i, v)] \<Longrightarrow>
    signal_unsafe (sems s i) v = (Some e, s1) \<Longrightarrow>
    submit_step subs may_fail failure_value s (s\<lparr>threads := (threads s)(t := SignalDone (Some e)), control_at := (control_at s)(t := InSignal)\<rparr>)"
| signal_many: "t < length subs \<Longrightarrow> control_at s t = Applied \<Longrightarrow> 2 \<le> length (sub_signals (subs ! t)) \<Longrightarrow>
    submit_step subs may_fail failure_value s (s\<lparr>threads := (threads s)(t := Signaling (sub_signals (subs ! t))),
      control_at := (control_at s)(t := InSignal)\<rparr>)"
| signal_goes_on: "t < length subs \<Longrightarrow> control_at s t = InSignal \<Longrightarrow> threads s t = Signaling ((i, v) # l) \<Longrightarrow>
    signal_unsafe (sems s i) v = (None, s1) \<Longrightarrow>
    submit_step subs may_fail failure_value s (s\<lparr>sems := (sems s)(i := s1), threads := (threads s)(t := Signaling l)\<rparr>)"
| signal_breaks: "t < length subs \<Longrightarrow> control_at s t = InSignal \<Longrightarrow> threads s t = Signaling ((i, v) # l) \<Longrightarrow>
    signal_unsafe (sems s i) v = (Some e, s1) \<Longrightarrow>
    submit_step subs may_fail failure_value s (s\<lparr>threads := (threads s)(t := Posting (Some e))\<rparr>)"
| signal_ends: "t < length subs \<Longrightarrow> control_at s t = InSignal \<Longrightarrow> threads s t = Signaling [] \<Longrightarrow>
    submit_step subs may_fail failure_value s (s\<lparr>threads := (threads s)(t := Posting None)\<rparr>)"
| posts: "t < length subs \<Longrightarrow> control_at s t = InSignal \<Longrightarrow> threads s t = Posting r \<Longrightarrow>
    submit_step subs may_fail failure_value s (s\<lparr>threads := (\<lambda>u. wake (threads s u))(t := SignalDone r)\<rparr>)"
| returns: "t < length subs \<Longrightarrow> control_at s t = InSignal \<Longrightarrow> threads s t = SignalDone r \<Longrightarrow>
    submit_step subs may_fail failure_value s (s\<lparr>control_at := (control_at s)(t := Returned r)\<rparr>)"
| host_fails: "length subs \<le> t \<Longrightarrow> idle (threads s t) \<Longrightarrow> may_fail i \<Longrightarrow>
    semaphore_fail failure_value e (sems s i) = (True, s1) \<Longrightarrow>
    submit_step subs may_fail failure_value s (s\<lparr>sems := (sems s)(i := s1), threads := (threads s)(t := Posting None)\<rparr>)"
| host_posts: "length subs \<le> t \<Longrightarrow> threads s t = Posting r \<Longrightarrow>
    submit_step subs may_fail failure_value s (s\<lparr>threads := (\<lambda>u. wake (threads s u))(t := SignalDone r)\<rparr>)"

inductive_cases submit_stepE: "submit_step subs may_fail failure_value s s1"

definition submit_init :: "(nat \<Rightarrow> 64 word) \<Rightarrow> submit_sys" where
  "submit_init initial = \<lparr>sems = \<lambda>i. semaphore_create (initial i), threads = \<lambda>_. Halted,
     control_at = \<lambda>_. Called, work_log = []\<rparr>"

section \<open>The threads under the submissions\<close>

text \<open>
  A thread of a submission is in a state that goes with its control; between two calls it
  is idle. A wait that returned at once, before it slept, did so for what the store still
  shows.
\<close>

definition wait_plan_ok :: "store \<Rightarrow> sem_list \<Rightarrow> wait_plan \<Rightarrow> bool" where
  "wait_plan_ok \<sigma> l p \<longleftrightarrow> (\<exists>i v. l = [(i, v)] \<and> p = AwaitOne i v Infinite) \<or> p = AwaitMany ModeAll l Infinite \<or>
     p = Return None \<and> all_signaled \<sigma> l \<or> p = Return (Some ABORTED) \<and> some_failed \<sigma> l"

fun waiting_plan :: "thread \<Rightarrow> wait_plan option" where
  "waiting_plan (Waiting p w) = Some p"
| "waiting_plan (Evaluate p l w) = Some p"
| "waiting_plan (Finishing p) = Some p"
| "waiting_plan (Reading p l b) = Some p"
| "waiting_plan (WaitDone p r) = Some p"
| "waiting_plan _ = None"

fun signalling :: "thread \<Rightarrow> bool" where
  "signalling (Signaling l) = True"
| "signalling (Posting r) = True"
| "signalling (SignalDone r) = True"
| "signalling _ = False"

definition control_ok :: "store \<Rightarrow> submission \<Rightarrow> control \<Rightarrow> thread \<Rightarrow> bool" where
  "control_ok \<sigma> b c P \<longleftrightarrow> (case c of
      InWait \<Rightarrow> (\<exists>p. waiting_plan P = Some p \<and> wait_plan_ok \<sigma> (sub_waits b) p \<and> (\<forall>r. p = Return r \<longrightarrow> P = WaitDone p r))
    | InSignal \<Rightarrow> signalling P
    | _ \<Rightarrow> idle P)"

definition submit_ok :: "submission list \<Rightarrow> submit_sys \<Rightarrow> bool" where
  "submit_ok subs s \<longleftrightarrow> sys_ok (sys.truncate s) \<and>
     (\<forall>t < length subs. control_ok (sems s) (subs ! t) (control_at s t) (threads s t)) \<and>
     (\<forall>t. length subs \<le> t \<longrightarrow> idle (threads s t) \<or> (\<exists>r. threads s t = Posting r))"

text \<open>Where the host fails nothing, its threads never do anything.\<close>

definition no_failure :: "submission list \<Rightarrow> submit_sys \<Rightarrow> bool" where
  "no_failure subs s \<longleftrightarrow> (\<forall>i. failure_status (sems s i) = None) \<and> (\<forall>t. length subs \<le> t \<longrightarrow> idle (threads s t))"

text \<open>The control aside, a step is one of the semaphores' threads, or none.\<close>

lemma submit_step_sys:
  assumes "submit_step subs may_fail failure_value s s1" "submit_ok subs s"
  shows "sys.truncate s1 = sys.truncate s \<or> sys_step failure_value (sys.truncate s) (sys.truncate s1)"
proof -
  have c: "t < length subs \<Longrightarrow> control_ok (sems s) (subs ! t) (control_at s t) (threads s t)" for t
    using assms(2) by (simp add: submit_ok_def)
  have id: "t < length subs \<Longrightarrow> control_at s t = Called \<Longrightarrow> idle (threads s t)"
    "t < length subs \<Longrightarrow> control_at s t = Applied \<Longrightarrow> idle (threads s t)" for t
    using c[of t] by (simp_all add: control_ok_def)
  have nw: "\<not> owes_post (threads s t)" if "t < length subs" "control_at s t = InWait" for t
    using c[of t] that by (cases "threads s t") (auto simp: control_ok_def)
  note steps = sys_step.signal[of "sys.truncate s"] sys_step.signal_rejected[of "sys.truncate s"]
    sys_step.multi_signal[of "sys.truncate s"] sys_step.signal_next[of "sys.truncate s"]
    sys_step.signal_stop[of "sys.truncate s"] sys_step.signal_end[of "sys.truncate s"] sys_step.fail[of "sys.truncate s"]
    sys_step.post[of "sys.truncate s"] sys_step.wait[of "sys.truncate s"] sys_step.wait_on[of "sys.truncate s"]
  from assms(1) show ?thesis
    by (cases rule: submit_step.cases) (use id nw steps in \<open>simp_all add: sys.truncate_def\<close>)
qed

lemma control_ok_grow: "store_le \<sigma> \<sigma>1 \<Longrightarrow> control_ok \<sigma> b c P \<Longrightarrow> control_ok \<sigma>1 b c P"
  by (auto simp: control_ok_def wait_plan_ok_def dest: all_signaled_mono some_failed_mono split: control.splits)

lemma wake_facts [simp]: "wake P = Posting r \<longleftrightarrow> P = Posting r"
  "waiting_plan (wake P) = waiting_plan P" "signalling (wake P) = signalling P" "idle (wake P) = idle P"
  by (cases P; simp)+

lemma control_ok_wake: "control_ok \<sigma> b c P \<Longrightarrow> control_ok \<sigma> b c (wake P)"
  by (cases P) (auto simp: control_ok_def split: control.splits)

lemma control_ok_start: "control_ok \<sigma> b InWait (wait_start (multi_wait \<sigma> ModeAll (sub_waits b) Infinite))"
  by (auto simp: control_ok_def wait_plan_ok_def multi_wait_def wait_one_def wait_enter_def is_signaled_def some_failed_def
      split: list.splits option.splits if_splits)

lemma waiting_plan_run: "waiting_plan P = Some p \<Longrightarrow> waiting_plan (wait_run \<sigma> P) = Some p"
  by (cases "(\<sigma>, P)" rule: wait_run.cases) (auto split: wait_mode.split)

lemma control_ok_run: "control_ok \<sigma> b InWait P \<Longrightarrow> \<not> idle P \<Longrightarrow> control_ok \<sigma> b InWait (wait_run \<sigma> P)"
  by (auto simp: control_ok_def dest: waiting_plan_run)

lemma signal_unsafe_ok:
  "signal_unsafe s v = (None, s1) \<Longrightarrow> failure_status s1 = failure_status s \<and> sem_le s s1"
  by (auto simp: signal_unsafe_def sem_le_def split: if_splits)

lemma submit_step_control:
  assumes "submit_step subs may_fail failure_value s s1" "submit_ok subs s" "u < length subs"
  shows "control_ok (sems s1) (subs ! u) (control_at s1 u) (threads s1 u)"
proof -
  have c: "control_ok (sems s) (subs ! u) (control_at s u) (threads s u)" using assms(2,3) by (simp add: submit_ok_def)
  have g: "control_ok ((sems s)(i := x)) (subs ! u) (control_at s u) (threads s u)" if "sem_le (sems s i) x" for i x
    by (rule control_ok_grow[OF store_le_upd c]) (rule that)
  from assms(1) show ?thesis
  proof (cases rule: submit_step.cases)
    case (wait_enters t)
    then show ?thesis using c control_ok_start by auto
  next
    case (wait_runs t)
    then show ?thesis using c control_ok_run by (cases "u = t") auto
  next
    case (posts t r)
    then show ?thesis using c control_ok_wake by (cases "u = t") (auto simp: control_ok_def)
  next
    case (host_posts t r)
    then show ?thesis using c control_ok_wake assms(3) by auto
  next
    case (signal_one t i v x)
    then show ?thesis using g[OF sem_le_signal[OF signal_one(5)]] by (cases "u = t") (auto simp: control_ok_def)
  next
    case (signal_goes_on t i v l x)
    then show ?thesis using g[OF sem_le_signal[OF signal_goes_on(5)]] by (cases "u = t") (auto simp: control_ok_def)
  next
    case (host_fails t i e x)
    then show ?thesis using g[OF sem_le_fail[OF host_fails(5)]] assms(3) by auto
  qed (use c in \<open>cases "u = t"; auto simp: control_ok_def\<close>)+
qed

lemma submit_step_ok:
  assumes "submit_step subs may_fail failure_value s s1" "submit_ok subs s"
  shows "submit_ok subs s1"
proof -
  have "sys_ok (sys.truncate s)" using assms(2) by (simp add: submit_ok_def)
  then have "sys_ok (sys.truncate s1)" using submit_step_sys[OF assms] sys_step_ok by metis
  moreover have "idle (threads s1 t) \<or> (\<exists>r. threads s1 t = Posting r)" if t: "length subs \<le> t" for t
  proof -
    have "idle (threads s t) \<or> (\<exists>r. threads s t = Posting r)" using assms(2) t by (simp add: submit_ok_def)
    with assms(1) t show ?thesis by (cases rule: submit_step.cases) auto
  qed
  ultimately show ?thesis using submit_step_control[OF assms] by (simp add: submit_ok_def)
qed

lemma submit_init_ok: "submit_ok subs (submit_init initial)"
  by (simp add: submit_ok_def submit_init_def sys_ok_def sys.truncate_def control_ok_def)

lemma submit_steps_ok:
  "(submit_step subs may_fail failure_value ^^ n) (submit_init initial) s \<Longrightarrow> submit_ok subs s"
proof (induction n arbitrary: s)
  case 0
  then show ?case using submit_init_ok by auto
next
  case (Suc n)
  then show ?case using submit_step_ok by auto
qed

lemma submit_step_no_failure:
  "submit_step subs (\<lambda>_. False) failure_value s s1 \<Longrightarrow> no_failure subs s \<Longrightarrow> no_failure subs s1"
  by (auto simp: no_failure_def dest!: signal_unsafe_ok elim!: submit_stepE)

lemma submit_steps_no_failure:
  "(submit_step subs (\<lambda>_. False) failure_value ^^ n) (submit_init initial) s \<Longrightarrow> no_failure subs s"
proof (induction n arbitrary: s)
  case 0
  then show ?case by (auto simp: no_failure_def submit_init_def semaphore_create_def)
next
  case (Suc n)
  then show ?case using submit_step_no_failure by auto
qed

section \<open>Happens before\<close>

text \<open>A thread on its way through its signals holds a part of its list, and its work ended.\<close>

definition signals_ok :: "submission list \<Rightarrow> submit_sys \<Rightarrow> nat \<Rightarrow> bool" where
  "signals_ok subs s t \<longleftrightarrow>
     (control_at s t = Applied \<or> control_at s t = InSignal \<longrightarrow> Ended t None \<in> set (work_log s)) \<and>
     (\<forall>l. threads s t = Signaling l \<longrightarrow> set l \<subseteq> set (sub_signals (subs ! t)))"

text \<open>What a waiter has seen of one of its semaphores, once it has read it.\<close>

fun seen_ok :: "bool \<Rightarrow> nat \<times> 64 word \<Rightarrow> thread \<Rightarrow> bool" where
  "seen_ok ended x (WaitDone p r) \<longleftrightarrow> (r = None \<longrightarrow> ended)"
| "seen_ok ended x (Reading p l (any, every, failed)) \<longleftrightarrow> failed \<or> \<not> every \<or> ended \<or> x \<in> set l"
| "seen_ok ended x P \<longleftrightarrow> True"

lemma seen_ok_mono: "seen_ok ended x P \<Longrightarrow> (ended \<Longrightarrow> ended1) \<Longrightarrow> seen_ok ended1 x P"
  by (cases "(ended, x, P)" rule: seen_ok.cases) auto

lemma seen_ok_wake [simp]: "seen_ok ended x (wake P) = seen_ok ended x P"
  by (cases P) auto

lemma seen_ok_start:
  assumes "(i, v) \<in> set l" "v \<le> current_value (\<sigma> i) \<Longrightarrow> failure_status (\<sigma> i) = None \<Longrightarrow> ended"
  shows "seen_ok ended (i, v) (wait_start (multi_wait \<sigma> ModeAll l Infinite))"
  using assms by (auto simp: multi_wait_def wait_one_def wait_enter_def split: list.splits option.splits if_splits)

lemma seen_ok_run:
  assumes "seen_ok ended (i, v) P" "waiting_plan P = Some p" "wait_plan_ok \<sigma>1 l p" "(i, v) \<in> set l" "\<forall>r. p = Return r \<longrightarrow> P = WaitDone p r"
    "v \<le> current_value (\<sigma> i) \<Longrightarrow> failure_status (\<sigma> i) = None \<Longrightarrow> ended"
  shows "seen_ok ended (i, v) (wait_run \<sigma> P)"
proof (cases P)
  case (Waiting q w)
  then show ?thesis by (cases w) simp_all
next
  case (Evaluate q ls w)
  then show ?thesis by (cases ls; cases "plan_mode q") auto
next
  case (Finishing q)
  then have "P = Finishing p" using assms(2) by simp
  then show ?thesis using assms(3-6) by (cases p) (auto simp: wait_plan_ok_def wait_result_def split: if_splits)
next
  case (Reading q ls flags)
  obtain any every failed where f: "flags = (any, every, failed)" by (cases flags)
  have m: "plan_mode p = ModeAll" using assms(3) by (auto simp: wait_plan_ok_def)
  then show ?thesis using assms(1,2,6) Reading f by (cases ls) (auto simp: result_step_def result_of_flags_def split: if_splits)
qed (use assms(1,2) in auto)

definition order_ok :: "submission list \<Rightarrow> nat \<Rightarrow> nat \<Rightarrow> nat \<Rightarrow> 64 word \<Rightarrow> submit_sys \<Rightarrow> bool" where
  "order_ok subs a b i v s \<longleftrightarrow> (\<forall>t < length subs. signals_ok subs s t) \<and>
     (v \<le> current_value (sems s i) \<longrightarrow> failure_status (sems s i) = None \<longrightarrow> Ended a None \<in> set (work_log s)) \<and>
     (control_at s b = InWait \<longrightarrow> seen_ok (Ended a None \<in> set (work_log s)) (i, v) (threads s b)) \<and>
     precedes (Ended a None) (Start b) (work_log s)"

lemma signals_ok_step:
  assumes "submit_step subs may_fail failure_value s s1" "\<forall>t < length subs. signals_ok subs s t" "u < length subs"
  shows "signals_ok subs s1 u"
proof -
  have u: "signals_ok subs s u" using assms(2,3) by simp
  have w: "wake P = Signaling l \<longleftrightarrow> P = Signaling l" for P l by (cases P) auto
  have n: "wait_run \<sigma> P = Signaling l \<longleftrightarrow> P = Signaling l" for \<sigma> P l
    by (cases "(\<sigma>, P)" rule: wait_run.cases) (auto split: wait_mode.split)
  have st: "wait_start p \<noteq> Signaling l" for p l by (cases p) auto
  from assms(1) show ?thesis
    by (cases rule: submit_step.cases) (use u assms(3) in \<open>auto simp: signals_ok_def w n st\<close>)
qed

text \<open>A signal of the semaphore is one of the submission \<open>a\<close>.\<close>

lemma order_ok_value:
  assumes "submit_step subs may_fail failure_value s s1" "order_ok subs a b i v s" "only_signaled_by subs a i"
    "v \<le> current_value (sems s1 i)" "failure_status (sems s1 i) = None"
  shows "Ended a None \<in> set (work_log s1)"
proof -
  have ok: "t < length subs \<Longrightarrow> signals_ok subs s t" for t using assms(2) by (simp add: order_ok_def)
  have old: "v \<le> current_value (sems s i) \<Longrightarrow> failure_status (sems s i) = None \<Longrightarrow> Ended a None \<in> set (work_log s)"
    using assms(2) by (simp add: order_ok_def)
  have sig: "Ended a None \<in> set (work_log s)"
    if "t < length subs" "(i, u) \<in> set (sub_signals (subs ! t))" "control_at s t = Applied \<or> control_at s t = InSignal" for t u
    using ok[OF that(1)] assms(3) that by (cases "t = a") (force simp: only_signaled_by_def signals_ok_def)+
  from assms(1) show ?thesis
  proof (cases rule: submit_step.cases)
    case (signal_one t j u x)
    then show ?thesis using old assms(4,5) sig[of t u] by (cases "j = i") auto
  next
    case (signal_goes_on t j u l x)
    then have "(j, u) \<in> set (sub_signals (subs ! t))" using ok[of t] by (auto simp: signals_ok_def)
    then show ?thesis using signal_goes_on old assms(4,5) sig[of t u] by (cases "j = i") auto
  next
    case (host_fails t j e x)
    then show ?thesis using old assms(4,5) by (cases "j = i") (auto simp: semaphore_fail_def split: if_splits)
  qed (use old assms(4,5) in auto)
qed

lemma order_ok_step:
  assumes "submit_step subs may_fail failure_value s s1" "order_ok subs a b i v s" "submit_ok subs s"
    "b < length subs" "(i, v) \<in> set (sub_waits (subs ! b))" "only_signaled_by subs a i"
  shows "order_ok subs a b i v s1"
proof -
  let ?E = "Ended a None"
  have old: "v \<le> current_value (sems s i) \<Longrightarrow> failure_status (sems s i) = None \<Longrightarrow> ?E \<in> set (work_log s)"
    and pre: "precedes ?E (Start b) (work_log s)"
    and seen: "control_at s b = InWait \<Longrightarrow> seen_ok (?E \<in> set (work_log s)) (i, v) (threads s b)"
    using assms(2) by (simp_all add: order_ok_def)
  have "\<forall>t < length subs. signals_ok subs s1 t"
    using signals_ok_step[OF assms(1)] assms(2) by (simp add: order_ok_def)
  moreover have "precedes ?E (Start b) (work_log s1)"
    using assms(1) pre seen by (cases rule: submit_step.cases) (auto intro!: precedes_snoc)
  moreover have "seen_ok (?E \<in> set (work_log s1)) (i, v) (threads s1 b)" if c: "control_at s1 b = InWait"
    using assms(1)
  proof (cases rule: submit_step.cases)
    case (wait_enters t)
    have "seen_ok (?E \<in> set (work_log s)) (i, v) (wait_start (multi_wait (sems s) ModeAll (sub_waits (subs ! b)) Infinite))"
      by (rule seen_ok_start[OF assms(5) old])
    then show ?thesis using wait_enters seen c by (cases "t = b") simp_all
  next
    case (wait_runs t)
    have "control_ok (sems s) (subs ! b) (control_at s b) (threads s b)" using assms(3,4) by (simp add: submit_ok_def)
    then have p: "\<exists>p. waiting_plan (threads s b) = Some p \<and> wait_plan_ok (sems s) (sub_waits (subs ! b)) p \<and>
        (\<forall>r. p = Return r \<longrightarrow> threads s b = WaitDone p r)" if "t = b"
      using wait_runs(3) that by (simp add: control_ok_def)
    show ?thesis
    proof (cases "t = b")
      case True
      then obtain p where p: "waiting_plan (threads s b) = Some p" "wait_plan_ok (sems s) (sub_waits (subs ! b)) p"
          "\<forall>r. p = Return r \<longrightarrow> threads s b = WaitDone p r" using p by blast
      have "seen_ok (?E \<in> set (work_log s)) (i, v) (threads s b)" using seen wait_runs(3) True by simp
      from seen_ok_run[OF this p(1,2) assms(5) p(3) old] show ?thesis using wait_runs True by simp
    qed (use wait_runs seen c in simp)
  next
    case (host_fails t j e x)
    then show ?thesis using seen c assms(4) by auto
  next
    case (host_posts t r)
    then show ?thesis using seen c assms(4) by auto
  qed (use seen c in \<open>auto intro: seen_ok_mono split: if_splits\<close>)
  ultimately show ?thesis using order_ok_value[OF assms(1,2,6)] by (simp add: order_ok_def)
qed

lemma order_ok_init: "initial i < v \<Longrightarrow> order_ok subs a b i v (submit_init initial)"
  by (simp add: order_ok_def submit_init_def signals_ok_def precedes_def semaphore_create_def)

text \<open>
  C10. Threads over the locks in any interleaving, with the host failing whatever semaphores
  it may at any moment, also between two reads of one wait: when one submission waits for a
  value of a semaphore that only another signals, and that is not reached at the start, then
  whenever the work of the first has started, the work of the second had ended before, and
  with success.
\<close>

theorem threads_happen_before:
  assumes "(submit_step subs may_fail failure_value)\<^sup>*\<^sup>* (submit_init initial) s" "b < length subs"
    "(i, v) \<in> set (sub_waits (subs ! b))" "only_signaled_by subs a i" "initial i < v"
  shows "precedes (Ended a None) (Start b) (work_log s)"
proof -
  from assms(1) have "submit_ok subs s \<and> order_ok subs a b i v s"
  proof (induction rule: rtranclp_induct)
    case base
    show ?case using submit_init_ok order_ok_init[of initial i v] assms(5) by simp
  next
    case (step s s1)
    then show ?case using submit_step_ok order_ok_step[OF _ _ _ assms(2-4)] by blast
  qed
  then show ?thesis by (simp add: order_ok_def)
qed

section \<open>Two threads\<close>

text \<open>The two submissions of \<open>QueueOrder\<close>; in a run of the threads the second sleeps and is woken.\<close>

definition submit_move :: "submission list \<Rightarrow> nat \<Rightarrow> submit_sys \<Rightarrow> submit_sys option" where
  "submit_move subs t s = (if \<not> t < length subs then None else
     case control_at s t of
       Called \<Rightarrow> Some (s\<lparr>threads := (threads s)(t := wait_start (multi_wait (sems s) ModeAll (sub_waits (subs ! t)) Infinite)),
         control_at := (control_at s)(t := InWait)\<rparr>)
     | InWait \<Rightarrow> (case threads s t of
           WaitDone p None \<Rightarrow> Some (s\<lparr>control_at := (control_at s)(t := Applying), work_log := work_log s @ [Start t]\<rparr>)
         | WaitDone p (Some e) \<Rightarrow> Some (s\<lparr>control_at := (control_at s)(t := Returned (Some e))\<rparr>)
         | P \<Rightarrow> if idle P \<or> wait_run (sems s) P = P then None
             else Some (s\<lparr>threads := (threads s)(t := wait_run (sems s) P)\<rparr>))
     | Applying \<Rightarrow> (case sub_result (subs ! t) of
           None \<Rightarrow> Some (s\<lparr>control_at := (control_at s)(t := Applied), work_log := work_log s @ [Ended t None]\<rparr>)
         | Some e \<Rightarrow> Some (s\<lparr>control_at := (control_at s)(t := Returned (Some e)), work_log := work_log s @ [Ended t (Some e)]\<rparr>))
     | Applied \<Rightarrow> (case sub_signals (subs ! t) of
           [] \<Rightarrow> Some (s\<lparr>control_at := (control_at s)(t := Returned None)\<rparr>)
         | [(i, v)] \<Rightarrow> (case signal_unsafe (sems s i) v of
               (None, x) \<Rightarrow> Some (s\<lparr>sems := (sems s)(i := x), threads := (threads s)(t := Posting None),
                 control_at := (control_at s)(t := InSignal)\<rparr>)
             | (Some e, x) \<Rightarrow> Some (s\<lparr>threads := (threads s)(t := SignalDone (Some e)), control_at := (control_at s)(t := InSignal)\<rparr>))
         | l \<Rightarrow> Some (s\<lparr>threads := (threads s)(t := Signaling l), control_at := (control_at s)(t := InSignal)\<rparr>))
     | InSignal \<Rightarrow> (case threads s t of
           Signaling [] \<Rightarrow> Some (s\<lparr>threads := (threads s)(t := Posting None)\<rparr>)
         | Signaling ((i, v) # l) \<Rightarrow> (case signal_unsafe (sems s i) v of
               (None, x) \<Rightarrow> Some (s\<lparr>sems := (sems s)(i := x), threads := (threads s)(t := Signaling l)\<rparr>)
             | (Some e, x) \<Rightarrow> Some (s\<lparr>threads := (threads s)(t := Posting (Some e))\<rparr>))
         | Posting r \<Rightarrow> Some (s\<lparr>threads := (\<lambda>u. wake (threads s u))(t := SignalDone r)\<rparr>)
         | SignalDone r \<Rightarrow> Some (s\<lparr>control_at := (control_at s)(t := Returned r)\<rparr>)
         | _ \<Rightarrow> None)
     | Returned r \<Rightarrow> None)"

lemma submit_step_at:
  "t < length subs \<Longrightarrow> control_at s t = InWait \<Longrightarrow> threads s t = P \<Longrightarrow> \<not> idle P \<Longrightarrow> wait_run (sems s) P \<noteq> P \<Longrightarrow>
    submit_step subs (\<lambda>_. False) failure_value s (s\<lparr>threads := (threads s)(t := wait_run (sems s) P)\<rparr>)"
  "t < length subs \<Longrightarrow> control_at s t = Applied \<Longrightarrow> sub_signals (subs ! t) = x # y # l \<Longrightarrow>
    submit_step subs (\<lambda>_. False) failure_value s (s\<lparr>threads := (threads s)(t := Signaling (x # y # l)), control_at := (control_at s)(t := InSignal)\<rparr>)"
  using wait_runs[of t subs s] signal_many[of t subs s] by auto

lemma submit_move_step: "submit_move subs t s = Some s1 \<Longrightarrow> submit_step subs (\<lambda>_. False) failure_value s s1"
  by (auto simp: submit_move_def split: if_splits control.splits thread.splits option.splits list.splits prod.splits
      intro: submit_step.intros submit_step_at)

lemma submit_move_iff: "no_failure subs s \<Longrightarrow> submit_step subs (\<lambda>_. False) failure_value s s1 \<longleftrightarrow> (\<exists>t. submit_move subs t s = Some s1)"
proof
  assume nf: "no_failure subs s" and "submit_step subs (\<lambda>_. False) failure_value s s1"
  from this(2) show "\<exists>t. submit_move subs t s = Some s1"
  proof (cases rule: submit_step.cases)
    case (wait_runs t)
    then show ?thesis by (intro exI[of _ t]) (cases "threads s t"; simp add: submit_move_def split: option.split)
  next
    case (signal_many t)
    then show ?thesis
      by (intro exI[of _ t]) (cases "sub_signals (subs ! t)" rule: remdups_adj.cases; simp add: submit_move_def)
  next
    case (host_posts t r)
    then show ?thesis using nf by (auto simp: no_failure_def)
  qed (auto simp: submit_move_def)
qed (auto intro: submit_move_step)

fun submit_run :: "submission list \<Rightarrow> nat list \<Rightarrow> submit_sys \<Rightarrow> submit_sys option" where
  "submit_run subs [] s = Some s"
| "submit_run subs (t # ts) s = Option.bind (submit_move subs t s) (submit_run subs ts)"

lemma submit_run_steps: "submit_run subs ts s = Some s1 \<Longrightarrow> (submit_step subs (\<lambda>_. False) failure_value ^^ length ts) s s1"
proof (induction ts arbitrary: s)
  case (Cons t ts)
  then obtain s0 where "submit_move subs t s = Some s0" "submit_run subs ts s0 = Some s1" by (auto split: bind_splits)
  then show ?case using relpowp_Suc_I2[OF submit_move_step Cons.IH] by simp
qed simp

text \<open>The second starts to wait, evaluates, sleeps, and goes on when the first has posted.\<close>

definition two_run :: "nat list" where
  "two_run = [1, 1, 1, 0, 0, 0, 0, 0, 0, 1, 1, 1, 1, 1, 1, 1, 1, 1]"

lemma two_run_ends:
  "map_option (\<lambda>s. (control_at s 0, control_at s 1, work_log s)) (submit_run two_subs two_run (submit_init zeros)) =
    Some (Returned None, Returned None, [Start 0, Ended 0 None, Start 1, Ended 1 None])"
  by (simp add: two_run_def submit_move_def two_subs_def submit_init_def multi_wait_def wait_one_def wait_enter_def
    zeros_def signal_unsafe_def semaphore_create_def is_signaled_def wait_result_def)

lemma two_run_state:
  obtains s where "(submit_step two_subs (\<lambda>_. False) 9 ^^ 18) (submit_init zeros) s" "control_at s 0 = Returned None" "control_at s 1 = Returned None"
    "work_log s = [Start 0, Ended 0 None, Start 1, Ended 1 None]"
proof -
  obtain s where s: "submit_run two_subs two_run (submit_init zeros) = Some s" using two_run_ends by auto
  have "length two_run = 18" by (simp add: two_run_def)
  then have "(submit_step two_subs (\<lambda>_. False) 9 ^^ 18) (submit_init zeros) s" using submit_run_steps[OF s] by (simp only:)
  then show thesis using two_run_ends s by (auto intro: that)
qed

lemma submit_step_may_fail:
  "submit_step subs (\<lambda>_. False) failure_value s s1 \<Longrightarrow> submit_step subs may_fail failure_value s s1"
  by (erule submit_stepE) (auto intro: submit_step.intros)

lemma threads_happen_before_witness:
  "\<exists>s :: submit_sys. precedes (Ended 0 None) (Start 1) (work_log s) \<and> work_log s = [Start 0, Ended 0 None, Start 1, Ended 1 None]"
proof -
  obtain s where s: "(submit_step two_subs (\<lambda>_. False) 9 ^^ 18) (submit_init zeros) s" "work_log s = [Start 0, Ended 0 None, Start 1, Ended 1 None]"
    by (rule two_run_state)
  from s(1) have "(submit_step two_subs (\<lambda>_. False) 9)\<^sup>*\<^sup>* (submit_init zeros) s" by (rule relpowp_imp_rtranclp)
  then have "(submit_step two_subs (\<lambda>_. True) 9)\<^sup>*\<^sup>* (submit_init zeros) s"
    by (rule rtranclp_mono[THEN predicate2D, rotated]) (auto intro: submit_step_may_fail)
  from threads_happen_before[OF this, of 1 0 3 0] have "precedes (Ended 0 None) (Start 1) (work_log s)"
    by (simp add: two_subs_def zeros_def only_signaled_by_def less_Suc_eq)
  then show ?thesis using s(2) by blast
qed

end
