(* ===== verification/QueueProgress.thy ===== *)
theory QueueProgress
  imports QueueThreads
begin

text \<open>
  Where the host fails nothing, the threads of \<open>QueueThreads\<close> refine the submissions of
  \<open>QueueOrder\<close>, in which a wait is one step, and no thread is left behind. With failures
  they do not refine them: a wait on several semaphores reads them one by one, so that it
  may pass although a failure came first.
\<close>

section \<open>Refinement\<close>

text \<open>What the thread's control and its state among the threads are in \<open>QueueOrder\<close>.\<close>

fun signal_phase :: "thread \<Rightarrow> sub_phase" where
  "signal_phase (Signaling l) = Signals l"
| "signal_phase (Posting r) = (case r of None \<Rightarrow> Signals [] | Some e \<Rightarrow> Finished r)"
| "signal_phase (SignalDone r) = (case r of None \<Rightarrow> Signals [] | Some e \<Rightarrow> Finished r)"
| "signal_phase _ = Pending"

fun phase_of :: "submission \<Rightarrow> control \<Rightarrow> thread \<Rightarrow> sub_phase" where
  "phase_of b Called P = Pending"
| "phase_of b InWait P = Pending"
| "phase_of b Applying P = Running"
| "phase_of b Applied P = Signals (sub_signals b)"
| "phase_of b InSignal P = signal_phase P"
| "phase_of b (Returned r) P = Finished r"

definition queue_view :: "submission list \<Rightarrow> submit_sys \<Rightarrow> queue_sys" where
  "queue_view subs s = \<lparr>q_store = sems s, q_phase = \<lambda>t. phase_of (subs ! t) (control_at s t) (threads s t), q_log = work_log s\<rparr>"

lemma phase_of_wake [simp]: "phase_of b c (wake P) = phase_of b c P"
  by (cases c; cases P) auto

text \<open>A wait that is over passed all its semaphores.\<close>

lemma wait_done_passed:
  assumes "submit_ok subs s" "no_failure subs s" "t < length subs" "control_at s t = InWait" "threads s t = WaitDone p r"
  shows "r = None" "all_signaled (sems s) (sub_waits (subs ! t))"
    "result_from_state ModeAll (sems s) (sub_waits (subs ! t)) = None"
proof -
  have nf: "\<forall>i. failure_status (sems s i) = None" using assms(2) by (simp add: no_failure_def)
  have ok: "thread_ok (sems s) (\<exists>u. owes_post (threads s u)) (WaitDone p r)"
    using sys_okD[of "sys.truncate s" t] assms(1,5) by (simp add: submit_ok_def sys.truncate_def)
  have p: "wait_plan_ok (sems s) (sub_waits (subs ! t)) p" "\<forall>q. p = Return q \<longrightarrow> q = r"
    using assms(1,3-5) by (auto simp: submit_ok_def control_ok_def dest!: spec[of _ t])
  have "\<not> some_failed (sems s) l" for l using nf by (auto simp: some_failed_def)
  then show "r = None" "all_signaled (sems s) (sub_waits (subs ! t))" using ok p by (auto simp: wait_plan_ok_def)
  then show "result_from_state ModeAll (sems s) (sub_waits (subs ! t)) = None"
    using nf by (simp add: result_from_state_cases case_prod_beta)
qed

text \<open>Each step is a step of the submissions, or leaves their view as it is.\<close>

lemma queue_view_sel [simp]: "q_store (queue_view subs s) = sems s" "q_log (queue_view subs s) = work_log s"
  "q_phase (queue_view subs s) t = phase_of (subs ! t) (control_at s t) (threads s t)"
  by (simp_all add: queue_view_def)

lemma queue_viewI:
  assumes "queue_step subs (\<lambda>_. False) failure_value (queue_view subs s) q"
    "q_store q = sems s1" "q_log q = work_log s1" "\<And>u. q_phase q u = phase_of (subs ! u) (control_at s1 u) (threads s1 u)"
  shows "queue_step subs (\<lambda>_. False) failure_value (queue_view subs s) (queue_view subs s1)"
proof -
  have "q = queue_view subs s1" using assms(2-4) by (intro queue_sys.equality) (auto simp: queue_view_def)
  then show ?thesis using assms(1) by simp
qed

lemma submit_step_refines:
  assumes "submit_step subs (\<lambda>_. False) failure_value s s1" "submit_ok subs s" "no_failure subs s"
  shows "queue_view subs s1 = queue_view subs s \<or> queue_step subs (\<lambda>_. False) failure_value (queue_view subs s) (queue_view subs s1)"
proof -
  let ?q = "queue_view subs s"
  from assms(1) show ?thesis
  proof (cases rule: submit_step.cases)
    case (wait_ok t p)
    show ?thesis by (rule disjI2[OF queue_viewI[OF waited[of t subs ?q]]]) (use wait_ok wait_done_passed[OF assms(2,3) wait_ok(2-4)] in auto)
  next
    case (wait_fails t p e)
    then show ?thesis using wait_done_passed(1)[OF assms(2,3)] by blast
  next
    case (work_ok t)
    show ?thesis by (rule disjI2[OF queue_viewI[OF worked[of t subs ?q]]]) (use work_ok in auto)
  next
    case (work_fails t e)
    show ?thesis by (rule disjI2[OF queue_viewI[OF failed[of t subs ?q]]]) (use work_fails in auto)
  next
    case (signal_none t)
    show ?thesis by (rule disjI2[OF queue_viewI[OF completed[of t subs ?q]]]) (use signal_none in auto)
  next
    case (signal_one t i v x)
    show ?thesis by (rule disjI2[OF queue_viewI[OF signaled[of t subs ?q]]]) (use signal_one in auto)
  next
    case (signal_one_rejected t i v e x)
    show ?thesis by (rule disjI2[OF queue_viewI[OF rejected[of t subs ?q]]]) (use signal_one_rejected in auto)
  next
    case (signal_goes_on t i v l x)
    show ?thesis by (rule disjI2[OF queue_viewI[OF signaled[of t subs ?q]]]) (use signal_goes_on in auto)
  next
    case (signal_breaks t i v l e x)
    show ?thesis by (rule disjI2[OF queue_viewI[OF rejected[of t subs ?q]]]) (use signal_breaks in auto)
  next
    case (returns t r)
    show ?thesis
    proof (cases r)
      case None
      show ?thesis by (rule disjI2[OF queue_viewI[OF completed[of t subs ?q]]]) (use returns None in auto)
    qed (use returns in \<open>auto simp: queue_view_def fun_eq_iff\<close>)
  next
    case (host_posts t r)
    then show ?thesis using assms(3) by (auto simp: no_failure_def)
  qed (auto simp: queue_view_def fun_eq_iff)
qed

lemma submit_steps_refine:
  assumes "(submit_step subs (\<lambda>_. False) failure_value ^^ n) (submit_init initial) s"
  shows "queue_reachable subs (\<lambda>_. False) failure_value initial (queue_view subs s)"
  using assms
proof (induction n arbitrary: s)
  case 0
  then have "queue_view subs s = queue_init initial" by (auto simp: queue_view_def submit_init_def queue_init_def)
  then show ?case by (simp add: queue_reachable.start)
next
  case (Suc n)
  then obtain s0 where s0: "(submit_step subs (\<lambda>_. False) failure_value ^^ n) (submit_init initial) s0" "submit_step subs (\<lambda>_. False) failure_value s0 s" by auto
  then show ?case
    using submit_step_refines[OF s0(2) submit_steps_ok[OF s0(1)] submit_steps_no_failure[OF s0(1)]] Suc.IH[OF s0(1)] queue_reachable.step by metis
qed

section \<open>Progress\<close>

text \<open>A thread asleep while no post is owed waits for what has not been signaled.\<close>

lemma waiter_moves:
  assumes "submit_ok subs s" "t < length subs" "control_at s t = InWait" "\<not> idle (threads s t)"
    "all_signaled (sems s) (sub_waits (subs ! t))" "\<not> (\<exists>u. owes_post (threads s u))"
  shows "wait_run (sems s) (threads s t) \<noteq> threads s t"
proof -
  have ok: "thread_ok (sems s) False (threads s t)"
    using sys_okD[of "sys.truncate s" t] assms(1,6) by (simp add: submit_ok_def sys.truncate_def)
  obtain p where p: "waiting_plan (threads s t) = Some p" "wait_plan_ok (sems s) (sub_waits (subs ! t)) p"
    using assms(1-3) by (auto simp: submit_ok_def control_ok_def dest!: spec[of _ t])
  have "plan_condition p (sems s)" using p(2) assms(5) by (auto simp: wait_plan_ok_def split: if_splits)
  then show ?thesis using ok p assms(4)
    by (cases "(sems s, threads s t)" rule: wait_run.cases) (auto simp: wait_plan_ok_def split: wait_mode.split)
qed

lemma owed_moves:
  assumes "submit_ok subs s" "no_failure subs s" "owes_post (threads s u)"
  shows "\<exists>s1. submit_step subs (\<lambda>_. False) failure_value s s1"
proof -
  have t: "u < length subs" using assms(2,3) idle_facts unfolding no_failure_def by (meson leI)
  have c: "control_ok (sems s) (subs ! u) (control_at s u) (threads s u)" using assms(1) t by (simp add: submit_ok_def)
  have g: "control_at s u = InSignal"
    using c assms(3) by (cases "threads s u") (auto simp: control_ok_def split: control.splits)
  consider "threads s u = Signaling []" | i v l where "threads s u = Signaling ((i, v) # l)" | r where "threads s u = Posting r"
    using assms(3) by (cases "threads s u" rule: owes_post.cases; simp) (metis list.exhaust prod.exhaust)
  then show ?thesis
  proof cases
    case (2 i v l)
    obtain e s1 where "signal_unsafe (sems s i) v = (e, s1)" by (cases "signal_unsafe (sems s i) v")
    then show ?thesis using 2 signal_goes_on[OF t g] signal_breaks[OF t g] by (cases e) blast+
  qed (use signal_ends[OF t g] posts[OF t g] in blast)+
qed

text \<open>Where the submissions have a step, so have the threads.\<close>

lemma submit_step_exists:
  assumes "submit_ok subs s" "no_failure subs s" "queue_step subs (\<lambda>_. False) failure_value (queue_view subs s) q"
  shows "\<exists>s1. submit_step subs (\<lambda>_. False) failure_value s s1"
proof -
  have c: "t < length subs \<Longrightarrow> control_ok (sems s) (subs ! t) (control_at s t) (threads s t)" for t
    using assms(1) by (simp add: submit_ok_def)
  have pending: "\<exists>s1. submit_step subs (\<lambda>_. False) failure_value s s1"
    if t: "t < length subs" and ph: "phase_of (subs ! t) (control_at s t) (threads s t) = Pending"
      and sg: "all_signaled (sems s) (sub_waits (subs ! t))" for t
  proof -
    have "control_at s t = Called \<or> control_at s t = InWait"
      using ph c[OF t] by (cases "control_at s t"; cases "threads s t") (auto simp: control_ok_def split: option.splits)
    moreover have "\<exists>s1. submit_step subs (\<lambda>_. False) failure_value s s1" if w: "control_at s t = InWait"
    proof (cases "idle (threads s t)")
      case True
      then obtain p r where r: "threads s t = WaitDone p r"
        using c[OF t] w by (cases "threads s t") (auto simp: control_ok_def)
      show ?thesis using wait_ok[OF t w] wait_fails[OF t w] r by (cases r) blast+
    next
      case False
      then show ?thesis
        using wait_runs[OF t w False] waiter_moves[OF assms(1) t w False sg] owed_moves[OF assms(1,2)] by blast
    qed
    ultimately show ?thesis using wait_enters[OF t] by blast
  qed
  have signals: "\<exists>s1. submit_step subs (\<lambda>_. False) failure_value s s1"
    if t: "t < length subs" and p: "phase_of (subs ! t) (control_at s t) (threads s t) = Signals l" for t l
  proof -
    consider "control_at s t = Applied" | "control_at s t = InSignal"
      using p by (cases "control_at s t") auto
    then show ?thesis
    proof cases
      case 1
      consider "sub_signals (subs ! t) = []" | i v where "sub_signals (subs ! t) = [(i, v)]" | "2 \<le> length (sub_signals (subs ! t))"
        by (cases "sub_signals (subs ! t)" rule: remdups_adj.cases) auto
      then show ?thesis
      proof cases
        case (2 i v)
        obtain e s1 where "signal_unsafe (sems s i) v = (e, s1)" by (cases "signal_unsafe (sems s i) v")
        then show ?thesis using signal_one[OF t 1 2] signal_one_rejected[OF t 1 2] by (cases e) blast+
      qed (use signal_none[OF t 1] signal_many[OF t 1] in blast)+
    next
      case 2
      then show ?thesis using owed_moves[OF assms(1,2), of t] returns[OF t 2] p by (cases "threads s t") auto
    qed
  qed
  from assms(3) show ?thesis
  proof (cases rule: queue_step.cases)
    case (worked t)
    then have "control_at s t = Applying" using c[OF worked(2)]
      by (cases "control_at s t"; cases "threads s t") (auto simp: control_ok_def split: option.splits)
    then show ?thesis using work_ok worked(2,4) by blast
  next
    case (failed t e)
    then have "control_at s t = Applying" using c[OF failed(2)]
      by (cases "control_at s t"; cases "threads s t") (auto simp: control_ok_def split: option.splits)
    then show ?thesis using work_fails failed(2,4) by blast
  qed (use pending signals in auto)
qed

section \<open>Termination\<close>

text \<open>
  A wake-up costs a waiter at most one more evaluation of its condition, and each
  submission posts at most once.
\<close>

definition evaluation :: "submission \<Rightarrow> nat" where
  "evaluation b = length (sub_waits b) + 2"

fun wait_weight :: "submission \<Rightarrow> thread \<Rightarrow> nat" where
  "wait_weight b (Waiting p w) = length (sub_waits b) + 9 + (if w then evaluation b else 0)"
| "wait_weight b (Evaluate p l w) = length (sub_waits b) + 10 + length l + (if w then evaluation b else 0)"
| "wait_weight b (Finishing p) = length (sub_waits b) + 8"
| "wait_weight b (Reading p l result) = length l + 7"
| "wait_weight b P = 6"

fun signal_weight :: "thread \<Rightarrow> nat" where
  "signal_weight (Signaling l) = length l + 3"
| "signal_weight (Posting r) = 2"
| "signal_weight P = 1"

fun control_weight :: "submission \<Rightarrow> control \<Rightarrow> thread \<Rightarrow> nat" where
  "control_weight b Called P = length (sub_waits b) + 10 + evaluation b + length (sub_signals b)"
| "control_weight b InWait P = wait_weight b P + length (sub_signals b)"
| "control_weight b Applying P = 5 + length (sub_signals b)"
| "control_weight b Applied P = 4 + length (sub_signals b)"
| "control_weight b InSignal P = signal_weight P"
| "control_weight b (Returned r) P = 0"

fun posts_left :: "control \<Rightarrow> thread \<Rightarrow> nat" where
  "posts_left InSignal P = (if owes_post P then 1 else 0)"
| "posts_left (Returned r) P = 0"
| "posts_left c P = 1"

definition submit_weight :: "submission list \<Rightarrow> submit_sys \<Rightarrow> nat" where
  "submit_weight subs s = (\<Sum>t < length subs. control_weight (subs ! t) (control_at s t) (threads s t)) +
     (\<Sum>t < length subs. posts_left (control_at s t) (threads s t)) * (\<Sum>t < length subs. evaluation (subs ! t))"

lemma wait_run_weight:
  assumes "waiting_plan P = Some p" "wait_plan_ok \<sigma> (sub_waits b) p" "\<not> idle P" "wait_run \<sigma> P \<noteq> P" "\<forall>r. p = Return r \<longrightarrow> P = WaitDone p r"
  shows "wait_weight b (wait_run \<sigma> P) < wait_weight b P"
proof -
  have "p \<noteq> Return r" for r using assms(3) assms(5)[rule_format, of r] by fastforce
  then have len: "length (plan_list p) = length (sub_waits b)" using assms(2) by (auto simp: wait_plan_ok_def)
  show ?thesis
  proof (cases P)
    case (Waiting q w)
    then show ?thesis using len assms(1,4) by (cases w) (simp_all add: evaluation_def)
  next
    case (Evaluate q l w)
    then show ?thesis by (cases l; cases "plan_mode q") (auto simp: evaluation_def)
  next
    case (Finishing q)
    then have "P = Finishing p" using assms(1) by simp
    then show ?thesis using len by (cases p) auto
  next
    case (Reading q l result)
    then show ?thesis by (cases l) auto
  qed (use assms(1,3) in simp_all)
qed

lemma submit_weight_upd:
  assumes "t < length subs"
    "control_weight (subs ! t) (control_at s1 t) (threads s1 t) < control_weight (subs ! t) (control_at s t) (threads s t)"
    "posts_left (control_at s1 t) (threads s1 t) \<le> posts_left (control_at s t) (threads s t)"
    "\<And>u. u \<noteq> t \<Longrightarrow> control_at s1 u = control_at s u \<and> threads s1 u = threads s u"
  shows "submit_weight subs s1 < submit_weight subs s"
proof -
  have "(\<Sum>t < length subs. control_weight (subs ! t) (control_at s1 t) (threads s1 t)) <
      (\<Sum>t < length subs. control_weight (subs ! t) (control_at s t) (threads s t))"
  proof (rule sum_strict_mono_ex1)
    show "\<forall>u \<in> {..<length subs}. control_weight (subs ! u) (control_at s1 u) (threads s1 u) \<le> control_weight (subs ! u) (control_at s u) (threads s u)"
      using assms(2,4) by (metis order_less_imp_le order_refl)
  qed (use assms in auto)
  moreover have "posts_left (control_at s1 u) (threads s1 u) \<le> posts_left (control_at s u) (threads s u)" for u
    using assms(3,4) by (cases "u = t") simp_all
  then have "(\<Sum>t < length subs. posts_left (control_at s1 t) (threads s1 t)) \<le> (\<Sum>t < length subs. posts_left (control_at s t) (threads s t))"
    by (intro sum_mono)
  ultimately show ?thesis unfolding submit_weight_def by (intro add_less_le_mono mult_le_mono1)
qed

lemma control_weight_wake: "control_weight b c (wake P) \<le> control_weight b c P + evaluation b"
  by (cases c; cases P) auto

lemma submit_weight_post:
  assumes t: "t < length subs" and c: "control_at s t = InSignal" "threads s t = Posting r"
    and s1: "\<And>u. control_at s1 u = control_at s u" "\<And>u. threads s1 u = (if u = t then SignalDone r else wake (threads s u))"
  shows "submit_weight subs s1 < submit_weight subs s"
proof -
  let ?w = "\<lambda>s u. control_weight (subs ! u) (control_at s u) (threads s u)" and ?p = "\<lambda>s u. posts_left (control_at s u) (threads s u)"
  have "(\<Sum>u < length subs. ?w s1 u) < (\<Sum>u < length subs. ?w s u + evaluation (subs ! u))"
    by (rule sum_strict_mono_ex1) (use t c s1 control_weight_wake in \<open>auto simp: evaluation_def\<close>)
  also have "\<dots> = (\<Sum>u < length subs. ?w s u) + (\<Sum>u < length subs. evaluation (subs ! u))" by (rule sum.distrib)
  finally have w: "(\<Sum>u < length subs. ?w s1 u) < (\<Sum>u < length subs. ?w s u) + (\<Sum>u < length subs. evaluation (subs ! u))" .
  have k: "owes_post (wake P) = owes_post P" for P by (cases P) auto
  have pw: "posts_left d (wake P) = posts_left d P" for d P by (cases d) (simp_all add: k)
  have "(\<Sum>u < length subs. ?p s1 u) < (\<Sum>u < length subs. ?p s u)"
    by (rule sum_strict_mono_ex1) (use t c s1 pw in auto)
  then have "Suc (\<Sum>u < length subs. ?p s1 u) * (\<Sum>u < length subs. evaluation (subs ! u)) \<le>
      (\<Sum>u < length subs. ?p s u) * (\<Sum>u < length subs. evaluation (subs ! u))" by (intro mult_le_mono1) simp
  then show ?thesis using w by (simp add: submit_weight_def)
qed

lemma submit_step_weight:
  assumes "submit_step subs (\<lambda>_. False) failure_value s s1" "submit_ok subs s" "no_failure subs s"
  shows "submit_weight subs s1 < submit_weight subs s"
proof -
  have c: "t < length subs \<Longrightarrow> control_ok (sems s) (subs ! t) (control_at s t) (threads s t)" for t
    using assms(2) by (simp add: submit_ok_def)
  from assms(1) show ?thesis
  proof (cases rule: submit_step.cases)
    case (wait_enters t)
    have "wait_weight (subs ! t) (wait_start (multi_wait (sems s) ModeAll (sub_waits (subs ! t)) Infinite)) <
        length (sub_waits (subs ! t)) + 10 + evaluation (subs ! t)"
      by (auto simp: multi_wait_def wait_one_def evaluation_def split: list.split option.split)
    then show ?thesis by (intro submit_weight_upd[OF wait_enters(2)]) (use wait_enters in auto)
  next
    case (wait_runs t)
    have "wait_weight (subs ! t) (wait_run (sems s) (threads s t)) < wait_weight (subs ! t) (threads s t)"
      using c[OF wait_runs(2)] wait_runs(3-5) by (auto simp: control_ok_def intro: wait_run_weight)
    then show ?thesis by (intro submit_weight_upd[OF wait_runs(2)]) (use wait_runs in auto)
  next
    case (posts t r)
    then show ?thesis by (intro submit_weight_post[of t subs s r s1]) auto
  next
    case (host_posts t r)
    then show ?thesis using assms(3) by (auto simp: no_failure_def)
  qed ((erule submit_weight_upd; simp) | erule FalseE)+
qed

section \<open>The submissions of the threads\<close>


lemma submit_steps_weight:
  "(submit_step subs (\<lambda>_. False) failure_value ^^ n) (submit_init initial) s \<Longrightarrow> n + submit_weight subs s \<le> submit_weight subs (submit_init initial)"
proof (induction n arbitrary: s)
  case (Suc n)
  then obtain s0 where s0: "(submit_step subs (\<lambda>_. False) failure_value ^^ n) (submit_init initial) s0" "submit_step subs (\<lambda>_. False) failure_value s0 s" by auto
  then show ?case using Suc.IH[OF s0(1)] submit_step_weight[OF s0(2) submit_steps_ok[OF s0(1)] submit_steps_no_failure[OF s0(1)]] by simp
qed auto

lemma submit_weight_init:
  "submit_weight subs (submit_init initial) =
    (\<Sum>b\<leftarrow>subs. 12 + 2 * length (sub_waits b) + length (sub_signals b)) + length subs * (\<Sum>b\<leftarrow>subs. length (sub_waits b) + 2)"
proof -
  have "(\<Sum>b\<leftarrow>subs. f b) = (\<Sum>t < length subs. f (subs ! t))" for f :: "submission \<Rightarrow> nat"
    by (simp add: sum_list_sum_nth atLeast0LessThan)
  then show ?thesis by (simp add: submit_weight_def submit_init_def evaluation_def algebra_simps)
qed

text \<open>Where no thread can move, the work is done.\<close>

lemma stuck_threads_returned:
  assumes "signals_once subs initial" "\<forall>b \<in> set subs. sub_result b = None" "ordered_by rank subs initial"
    "(submit_step subs (\<lambda>_. False) failure_value ^^ n) (submit_init initial) s" "\<forall>s1. \<not> submit_step subs (\<lambda>_. False) failure_value s s1" "t < length subs"
  shows "control_at s t = Returned None"
proof -
  let ?step = "queue_step subs (\<lambda>_. False) failure_value"
  note ok = submit_steps_ok[OF assms(4)] submit_steps_no_failure[OF assms(4)]
  have "(?step)\<^sup>*\<^sup>* (queue_init initial) (queue_view subs s)"
    using submit_steps_refine[OF assms(4)]
    by (induction rule: queue_reachable.induct) (auto intro: rtranclp.rtrancl_into_rtrancl)
  then obtain k where "(?step ^^ k) (queue_init initial) (queue_view subs s)" by (auto simp: rtranclp_power)
  note q = queue_ok_steps[OF assms(1,2) this]
  have "\<forall>q. \<not> ?step (queue_view subs s) q" using submit_step_exists[OF ok] assms(5) by blast
  from stuck_finished[OF q assms(2,3) this assms(6)]
  have "phase_of (subs ! t) (control_at s t) (threads s t) = Finished None" by simp
  then show ?thesis by (cases "control_at s t"; cases "threads s t") (auto split: option.splits)
qed


section \<open>Two threads\<close>

lemma two_subs_facts: "signals_once two_subs zeros" "\<forall>b \<in> set two_subs. sub_result b = None" "ordered_by id two_subs zeros"
  by (auto simp: signals_once_def two_subs_def zeros_def less_Suc_eq) (force simp: ordered_by_def two_subs_def less_Suc_eq)+



end
