(* ===== verification/DriverObjects.thy ===== *)
theory DriverObjects
  imports HalStatus
begin

text \<open>
  The lifetime of the runtime's objects (\<open>runtime/driver/registration/driver_module.c\<close>,
  \<open>coralnpu_driver.c\<close>, creation and destruction in \<open>coralnpu_device.c\<close> and
  \<open>coralnpu_executable_cache.c\<close>). Objects of IREE are reference counted; a count map
  says how many references each object has, and a release of an object without one is
  \<open>None\<close>. The locale \<open>counted\<close> is what the three owners have in common.
\<close>

section \<open>Reference counts\<close>

type_synonym obj = nat
type_synonym counts = "obj \<Rightarrow> nat"

definition retain :: "obj \<Rightarrow> counts \<Rightarrow> counts" where
  "retain x c = c(x := Suc (c x))"

definition release :: "obj \<Rightarrow> counts \<Rightarrow> counts option" where
  "release x c = (if c x = 0 then None else Some (c(x := c x - 1)))"

text \<open>A \<open>NULL\<close> object is neither retained nor released.\<close>

definition retain_opt :: "obj option \<Rightarrow> counts \<Rightarrow> counts" where
  "retain_opt r c = (case r of None \<Rightarrow> c | Some x \<Rightarrow> retain x c)"

definition release_opt :: "obj option \<Rightarrow> counts \<Rightarrow> counts option" where
  "release_opt r c = (case r of None \<Rightarrow> Some c | Some x \<Rightarrow> release x c)"

fun release_all :: "obj list \<Rightarrow> counts \<Rightarrow> counts option" where
  "release_all [] c = Some c"
| "release_all (x # xs) c = Option.bind (release x c) (release_all xs)"

definition add_refs :: "obj list \<Rightarrow> counts \<Rightarrow> counts" where
  "add_refs xs c = (\<lambda>x. c x + count_list xs x)"

lemma add_refs_Nil [simp]: "add_refs [] c = c"
  by (simp add: add_refs_def)

lemma add_refs_Cons: "add_refs (x # xs) c = add_refs xs (retain x c)"
  by (auto simp: add_refs_def retain_def)

lemma fold_retain: "fold retain xs c = add_refs xs c"
  by (induction xs arbitrary: c) (simp_all add: add_refs_Cons)

lemma add_refs_append: "add_refs (xs @ ys) c = add_refs ys (add_refs xs c)"
  by (simp add: add_refs_def fun_eq_iff)

lemma add_refs_commute: "add_refs xs (add_refs ys c) = add_refs ys (add_refs xs c)"
  by (simp add: add_refs_def fun_eq_iff)

lemma retain_add: "retain x c = add_refs [x] c"
  by (simp add: add_refs_Cons)

lemma release_add: "release x (add_refs [x] c) = Some c"
  by (auto simp: release_def add_refs_def)

lemma release_all_append: "release_all (xs @ ys) c = Option.bind (release_all xs c) (release_all ys)"
  by (induction xs arbitrary: c) (auto split: Option.bind_splits)

lemma release_all_add: "release_all xs (add_refs xs c) = Some c"
proof (induction xs arbitrary: c)
  case (Cons x xs)
  have "add_refs (x # xs) c = add_refs [x] (add_refs xs c)"
    using add_refs_append[of xs "[x]" c] by (simp add: add_refs_def fun_eq_iff)
  then show ?case using Cons.IH by (simp add: release_add)
qed simp

section \<open>Owners\<close>

text \<open>What creation and destruction promise: a created object holds one reference to each of its parts.\<close>

locale counted =
  fixes create :: "counts \<Rightarrow> 'd status \<times> counts"
    and destroy :: "'d \<Rightarrow> counts \<Rightarrow> counts option"
    and parts :: "'d \<Rightarrow> obj list"
  assumes create_ok: "create c = (OkS d, c1) \<Longrightarrow> c1 = add_refs (parts d) c"
    and create_err: "create c = (ErrS e, c1) \<Longrightarrow> c1 = c"
    and create_total: "fst (create c) \<noteq> TrapS"
    and destroy_parts: "destroy d (add_refs (parts d) c) = Some c"
begin

lemma lifecycle: "create c = (OkS d, c1) \<Longrightarrow> destroy d (add_refs xs c1) = Some (add_refs xs c)"
  using create_ok[of c d c1] add_refs_commute[of xs "parts d" c] destroy_parts[of d "add_refs xs c"] by simp

lemma outcome: "create c = (r, c1) \<Longrightarrow> (\<exists>d. r = OkS d \<and> c1 = add_refs (parts d) c) \<or> (\<exists>e. r = ErrS e \<and> c1 = c)"
  using create_ok create_err create_total[of c] by (cases r) auto

end

subsection \<open>The driver\<close>

record driver =
  dr_allocator :: obj
  dr_identifier :: string
  dr_arena_block_size :: nat
  dr_loaders :: "obj list"

definition driver_create :: "bool \<Rightarrow> string \<Rightarrow> nat \<Rightarrow> obj list \<Rightarrow> obj \<Rightarrow> counts \<Rightarrow> driver status \<times> counts" where
  "driver_create alloc_ok identifier arena_block_size loaders device_allocator c =
     (if \<not> alloc_ok then (ErrS RESOURCE_EXHAUSTED, c)
      else (OkS \<lparr>dr_allocator = device_allocator, dr_identifier = identifier, dr_arena_block_size = arena_block_size,
                 dr_loaders = loaders\<rparr>,
            fold retain loaders (retain device_allocator c)))"

definition driver_destroy :: "driver \<Rightarrow> counts \<Rightarrow> counts option" where
  "driver_destroy d c = Option.bind (release (dr_allocator d) c) (release_all (dr_loaders d))"

definition driver_parts :: "driver \<Rightarrow> obj list" where
  "driver_parts d = dr_allocator d # dr_loaders d"

interpretation driver: counted "driver_create alloc_ok ident arena loaders allocator" driver_destroy driver_parts
  for alloc_ok ident arena loaders allocator
proof
  show "driver_destroy d (add_refs (driver_parts d) c) = Some c" for d c
    using release_all_add[of "driver_parts d" c] by (simp add: driver_destroy_def driver_parts_def)
qed (auto simp: driver_create_def driver_parts_def fold_retain add_refs_Cons split: if_splits)

subsection \<open>The device\<close>

record device =
  dv_identifier :: string
  dv_allocator :: obj
  dv_channel :: "obj option"
  dv_block_size :: nat
  dv_loaders :: "obj list"

definition device_create :: "bool \<Rightarrow> string \<Rightarrow> nat \<Rightarrow> obj list \<Rightarrow> obj \<Rightarrow> counts \<Rightarrow> device status \<times> counts" where
  "device_create alloc_ok identifier arena_block_size loaders device_allocator c =
     (if arena_block_size < 4096 then (ErrS INVALID_ARGUMENT, c)
      else if \<not> alloc_ok then (ErrS RESOURCE_EXHAUSTED, c)
      else (OkS \<lparr>dv_identifier = identifier, dv_allocator = device_allocator, dv_channel = None,
                 dv_block_size = arena_block_size, dv_loaders = loaders\<rparr>,
            fold retain loaders (retain device_allocator c)))"

definition device_destroy :: "device \<Rightarrow> counts \<Rightarrow> counts option" where
  "device_destroy d c =
     Option.bind (release_all (dv_loaders d) c) (\<lambda>c1.
     Option.bind (release (dv_allocator d) c1) (release_opt (dv_channel d)))"

definition device_parts :: "device \<Rightarrow> obj list" where
  "device_parts d = dv_loaders d @ [dv_allocator d] @ (case dv_channel d of None \<Rightarrow> [] | Some x \<Rightarrow> [x])"

definition replace_device_allocator :: "obj \<Rightarrow> device \<times> counts \<Rightarrow> (device \<times> counts) option" where
  "replace_device_allocator new_allocator = (\<lambda>(d, c).
     map_option (Pair (d\<lparr>dv_allocator := new_allocator\<rparr>)) (release (dv_allocator d) (retain new_allocator c)))"

definition replace_channel_provider :: "obj option \<Rightarrow> device \<times> counts \<Rightarrow> (device \<times> counts) option" where
  "replace_channel_provider new_provider = (\<lambda>(d, c).
     map_option (Pair (d\<lparr>dv_channel := new_provider\<rparr>)) (release_opt (dv_channel d) (retain_opt new_provider c)))"

lemma device_destroy_parts: "device_destroy d (add_refs (device_parts d) c) = Some c"
  using release_all_add[of "device_parts d" c]
  by (auto simp: device_destroy_def device_parts_def release_all_append release_opt_def split: option.splits Option.bind_splits)

interpretation device: counted "device_create alloc_ok ident arena loaders allocator" device_destroy device_parts
  for alloc_ok ident arena loaders allocator
proof
  show "device_create alloc_ok ident arena loaders allocator c = (OkS d, c1) \<Longrightarrow> c1 = add_refs (device_parts d) c" for c d c1
    using add_refs_commute[of "[allocator]" loaders c]
    by (auto simp: device_create_def device_parts_def fold_retain retain_add add_refs_append split: if_splits)
qed (auto simp: device_create_def device_destroy_parts split: if_splits)

subsection \<open>The executable cache\<close>

record cache =
  ec_identifier :: string
  ec_worker_capacity :: nat
  ec_loaders :: "obj list"

definition cache_create :: "bool \<Rightarrow> string \<Rightarrow> nat \<Rightarrow> obj list \<Rightarrow> counts \<Rightarrow> cache status \<times> counts" where
  "cache_create alloc_ok identifier worker_capacity loaders c =
     (if \<not> alloc_ok then (ErrS RESOURCE_EXHAUSTED, c)
      else (OkS \<lparr>ec_identifier = identifier, ec_worker_capacity = worker_capacity, ec_loaders = loaders\<rparr>, fold retain loaders c))"

definition cache_destroy :: "cache \<Rightarrow> counts \<Rightarrow> counts option" where
  "cache_destroy e c = release_all (ec_loaders e) c"

definition device_create_executable_cache :: "bool \<Rightarrow> string \<Rightarrow> device \<Rightarrow> counts \<Rightarrow> cache status \<times> counts" where
  "device_create_executable_cache alloc_ok identifier d c = cache_create alloc_ok identifier 1 (dv_loaders d) c"

interpretation cache: counted "cache_create alloc_ok ident workers loaders" cache_destroy ec_loaders
  for alloc_ok ident workers loaders
  by unfold_locales (auto simp: cache_create_def cache_destroy_def fold_retain release_all_add split: if_splits)

section \<open>The driver module\<close>

text \<open>
  What IREE creates for the factory: the plugin manager, the loaders (with the status,
  and those handed over whatever it is) and the heap allocator, each with one
  reference. The arena block size is the default one.
\<close>

definition driver_factory_try_create :: "string \<Rightarrow> obj option \<Rightarrow> bool \<times> obj list \<Rightarrow> obj option \<Rightarrow> bool \<Rightarrow> status_code \<Rightarrow>
    counts \<Rightarrow> (driver status \<times> counts) option" where
  "driver_factory_try_create driver_name plugin_create loaders_create heap_create alloc_ok iree_error c =
     (if driver_name \<noteq> ''coralnpu'' then Some (ErrS UNAVAILABLE, c)
      else
        (let c1 = retain_opt plugin_create c;
             ok1 = (plugin_create \<noteq> None);
             loaders = (if ok1 then snd loaders_create else []);
             c2 = fold retain loaders c1;
             ok2 = (ok1 \<and> fst loaders_create);
             device_allocator = (if ok2 then heap_create else None);
             c3 = retain_opt device_allocator c2;
             (result, c4) = (case device_allocator of
                 Some a \<Rightarrow> driver_create alloc_ok driver_name (32 * 1024) loaders a c3
               | None \<Rightarrow> (ErrS iree_error, c3))
         in Option.bind (release_opt device_allocator c4) (\<lambda>c5.
            Option.bind (release_all loaders c5) (\<lambda>c6.
            map_option (Pair result) (release_opt plugin_create c6)))))"

definition create_device_by_id :: "driver \<Rightarrow> bool \<Rightarrow> counts \<Rightarrow> device status \<times> counts" where
  "create_device_by_id d alloc_ok c =
     device_create alloc_ok (dr_identifier d) (dr_arena_block_size d) (dr_loaders d) (dr_allocator d) c"

definition create_device_by_path :: "driver \<Rightarrow> string \<Rightarrow> bool \<Rightarrow> counts \<Rightarrow> device status \<times> counts" where
  "create_device_by_path d device_path alloc_ok c =
     (if device_path \<noteq> '''' then (ErrS NOT_FOUND, c) else create_device_by_id d alloc_ok c)"

section \<open>Lemmas\<close>

lemma retain_opt_add: "retain_opt r c = add_refs (case r of None \<Rightarrow> [] | Some x \<Rightarrow> [x]) c"
  by (simp add: retain_opt_def retain_add split: option.split)

lemma release_opt_add: "release_opt r (add_refs (case r of None \<Rightarrow> [] | Some x \<Rightarrow> [x]) c) = Some c"
  by (simp add: release_opt_def release_add split: option.split)

text \<open>A swap of a part: the owner of the counts \<open>add_refs (device_parts d) c\<close> stays one.\<close>

datatype swap = SwapAllocator obj | SwapChannel "obj option"

fun run_swap :: "swap \<Rightarrow> device \<times> counts \<Rightarrow> (device \<times> counts) option" where
  "run_swap (SwapAllocator a) s = replace_device_allocator a s"
| "run_swap (SwapChannel p) s = replace_channel_provider p s"

fun run_swaps :: "swap list \<Rightarrow> device \<times> counts \<Rightarrow> (device \<times> counts) option" where
  "run_swaps [] s = Some s"
| "run_swaps (w # ws) s = Option.bind (run_swap w s) (run_swaps ws)"

lemma run_swap_parts: "\<exists>d1. run_swap w (d, add_refs (device_parts d) c) = Some (d1, add_refs (device_parts d1) c)"
proof (cases w)
  case (SwapAllocator a)
  let ?r = "dv_loaders d @ (case dv_channel d of None \<Rightarrow> [] | Some x \<Rightarrow> [x])"
  have p: "add_refs (device_parts (d\<lparr>dv_allocator := b\<rparr>)) c = add_refs [b] (add_refs ?r c)" for b
    by (auto simp: device_parts_def add_refs_def fun_eq_iff)
  have "add_refs (device_parts d) c = add_refs [dv_allocator d] (add_refs ?r c)" using p[of "dv_allocator d"] by simp
  then have "release (dv_allocator d) (retain a (add_refs (device_parts d) c)) = Some (add_refs [a] (add_refs ?r c))"
    by (simp only: retain_add add_refs_commute[of "[a]" "[dv_allocator d]"] release_add)
  then show ?thesis using p[of a] by (auto simp: SwapAllocator replace_device_allocator_def)
next
  case (SwapChannel q)
  let ?o = "\<lambda>q. case q of None \<Rightarrow> [] | Some x \<Rightarrow> [x :: obj]"
  let ?r = "dv_loaders d @ [dv_allocator d]"
  have p: "add_refs (device_parts (d\<lparr>dv_channel := b\<rparr>)) c = add_refs (?o b) (add_refs ?r c)" for b
    by (auto simp: device_parts_def add_refs_def fun_eq_iff split: option.split)
  have "add_refs (device_parts d) c = add_refs (?o (dv_channel d)) (add_refs ?r c)" using p[of "dv_channel d"] by simp
  then have "release_opt (dv_channel d) (retain_opt q (add_refs (device_parts d) c)) = Some (add_refs (?o q) (add_refs ?r c))"
    by (simp only: retain_opt_add add_refs_commute[of "?o q" "?o (dv_channel d)"] release_opt_add)
  then show ?thesis using p[of q] by (auto simp: SwapChannel replace_channel_provider_def)
qed

lemma run_swaps_parts: "\<exists>d1. run_swaps ws (d, add_refs (device_parts d) c) = Some (d1, add_refs (device_parts d1) c)"
proof (induction ws arbitrary: d)
  case (Cons w ws)
  then show ?case using run_swap_parts[of w d c] by fastforce
qed auto

section \<open>Properties\<close>

text \<open>
  No reference is lost over the life of a device: however often its allocator and
  its channel provider are replaced, no release fails, and destroying it in the end
  leaves every count as it was before it was created.
\<close>

theorem device_references_balanced:
  assumes "device_create alloc_ok identifier arena loaders allocator c = (OkS d, c1)"
  shows "\<exists>d2 c2. run_swaps ws (d, c1) = Some (d2, c2) \<and> device_destroy d2 c2 = Some c"
proof -
  obtain d2 where "run_swaps ws (d, c1) = Some (d2, add_refs (device_parts d2) c)"
    using run_swaps_parts[of ws d c] device.create_ok[OF assms] by blast
  then show ?thesis using device.destroy_parts by blast
qed

text \<open>
  C34. The driver factory keeps nothing for itself: whatever of its steps fails, it
  returns an error with all counts as they were; on success every loader and the
  allocator has exactly the references the driver holds, and the plugin manager none
  of its own. No release in it fails.
\<close>

theorem driver_factory_no_leak:
  "\<exists>r c1. driver_factory_try_create name plugin lds heap alloc_ok e c = Some (r, c1) \<and>
    ((\<exists>d. r = OkS d \<and> c1 = add_refs (driver_parts d) c \<and> driver_destroy d c1 = Some c) \<or> (\<exists>e1. r = ErrS e1 \<and> c1 = c))"
proof (cases "name = ''coralnpu''")
  case True
  let ?o = "\<lambda>q. case q of None \<Rightarrow> [] | Some x \<Rightarrow> [x :: obj]"
  let ?ls = "if plugin \<noteq> None then snd lds else []"
  let ?a = "if plugin \<noteq> None \<and> fst lds then heap else None"
  let ?c3 = "add_refs (?o ?a) (add_refs ?ls (add_refs (?o plugin) c))"
  obtain r c4 where rc: "(case ?a of Some a \<Rightarrow> driver_create alloc_ok name (32 * 1024) ?ls a ?c3 | None \<Rightarrow> (ErrS e, ?c3)) = (r, c4)"
    by fastforce
  have out: "(\<exists>d. r = OkS d \<and> c4 = add_refs (driver_parts d) ?c3) \<or> (\<exists>e1. r = ErrS e1 \<and> c4 = ?c3)"
  proof (cases ?a)
    case (Some a)
    show ?thesis using driver.outcome[of alloc_ok name "32 * 1024" ?ls a ?c3 r c4] rc unfolding Some by simp
  next
    case None
    show ?thesis using rc unfolding None by auto
  qed
  then obtain xs where c4: "c4 = add_refs xs ?c3" and xs: "(\<exists>d. r = OkS d \<and> xs = driver_parts d) \<or> (\<exists>e1. r = ErrS e1 \<and> xs = [])"
    by (metis add_refs_Nil)
  have eq: "c4 = add_refs (?o ?a) (add_refs ?ls (add_refs (?o plugin) (add_refs xs c)))"
    unfolding c4 by (simp only: add_refs_commute[of xs])
  have "driver_factory_try_create name plugin lds heap alloc_ok e c =
      Option.bind (release_opt ?a c4) (\<lambda>c5. Option.bind (release_all ?ls c5) (\<lambda>c6. map_option (Pair r) (release_opt plugin c6)))"
    using rc True unfolding driver_factory_try_create_def Let_def fold_retain retain_opt_add by simp
  also have "\<dots> = Some (r, add_refs xs c)"
    unfolding eq release_opt_add by (simp only: bind.bind_lunit release_all_add release_opt_add option.map)
  finally show ?thesis using xs driver.destroy_parts by auto
qed (simp add: driver_factory_try_create_def)

lemma device_references_balanced_witness:
  "\<exists>d c1 d2 c2. device_create True ''coralnpu'' 32768 [1, 2] 0 (\<lambda>x. 1) = (OkS d, c1) \<and>
    run_swaps [SwapAllocator 5, SwapChannel (Some 6), SwapAllocator 0] (d, c1) = Some (d2, c2) \<and>
    device_destroy d2 c2 = Some (\<lambda>x. 1)"
proof -
  obtain d c1 where d: "device_create True ''coralnpu'' 32768 [1, 2] 0 (\<lambda>x. 1) = (OkS d, c1)"
    by (simp add: device_create_def)
  from d device_references_balanced[OF d] show ?thesis by blast
qed

end
