(* ===== verification/DeviceOps.thy ===== *)
theory DeviceOps
  imports CommandReplay DriverObjects
begin

text \<open>
  The rest of the device's interface (\<open>runtime/driver/coralnpu_device.c\<close>) and the
  objects it makes: accessors, events (\<open>coralnpu_event.c\<close>), semaphores, allocations and
  file transfers on the queue, waits, profiling, and the driver's device table
  (\<open>coralnpu_driver.c\<close>). IREE's barrier, its streaming transfers and its file import
  are parameters. The locale \<open>timeline_op\<close> is what the operations of the queue that
  signal on success have in common.
\<close>

section \<open>Parameters, accessors, objects\<close>

record device_params =
  arena_block_size :: nat

definition device_params_initialize :: device_params where
  "device_params_initialize = \<lparr>arena_block_size = 32 * 1024\<rparr>"

definition device_id :: "device \<Rightarrow> string" where
  "device_id d = dv_identifier d"

definition device_allocator :: "device \<Rightarrow> obj" where
  "device_allocator d = dv_allocator d"

definition device_trim :: "(obj \<Rightarrow> 'w \<Rightarrow> status_code option \<times> 'w) \<Rightarrow> device \<Rightarrow> 'w \<Rightarrow> status_code option \<times> 'w" where
  "device_trim allocator_trim d w = allocator_trim (dv_allocator d) w"

definition device_create_channel :: "status_code option" where
  "device_create_channel = Some UNIMPLEMENTED"

text \<open>Objects of the host allocator that are still allocated.\<close>

definition event_create :: "obj option \<Rightarrow> obj set \<Rightarrow> obj status \<times> obj set" where
  "event_create storage live =
     (case storage of None \<Rightarrow> (ErrS RESOURCE_EXHAUSTED, live) | Some x \<Rightarrow> (OkS x, insert x live))"

definition event_destroy :: "obj \<Rightarrow> obj set \<Rightarrow> obj set" where
  "event_destroy x live = live - {x}"

text \<open>A command buffer of the heap is reset before its storage is freed.\<close>

definition command_buffer_destroy :: "obj \<Rightarrow> command_buffer \<Rightarrow> obj set \<Rightarrow> command_buffer \<times> obj set" where
  "command_buffer_destroy x cb live = (command_buffer_deinitialize cb, live - {x})"

definition device_create_event :: "obj option \<Rightarrow> obj set \<Rightarrow> obj status \<times> obj set" where
  "device_create_event storage live = event_create storage live"

text \<open>A semaphore created at an index of the store that is free.\<close>

definition device_create_semaphore :: "nat option \<Rightarrow> 64 word \<Rightarrow> store \<Rightarrow> nat status \<times> store" where
  "device_create_semaphore storage initial_value \<sigma> =
     (case storage of None \<Rightarrow> (ErrS RESOURCE_EXHAUSTED, \<sigma>) | Some i \<Rightarrow> (OkS i, \<sigma>(i := semaphore_create initial_value)))"

datatype semaphore_compatibility = HOST_ONLY | ALL_COMPATIBLE

definition device_query_semaphore_compatibility :: "nat \<Rightarrow> semaphore_compatibility" where
  "device_query_semaphore_compatibility semaphore = HOST_ONLY"

definition semaphore_import_timepoint :: "64 word \<Rightarrow> status_code option" where
  "semaphore_import_timepoint v = Some UNIMPLEMENTED"

definition semaphore_export_timepoint :: "64 word \<Rightarrow> status_code option" where
  "semaphore_export_timepoint v = Some UNIMPLEMENTED"

definition device_import_file :: "(obj \<Rightarrow> 'f \<Rightarrow> 'x status) \<Rightarrow> device \<Rightarrow> 'f \<Rightarrow> 'x status" where
  "device_import_file file_from_handle d handle = file_from_handle (dv_allocator d) handle"

definition query_available_devices :: "nat \<Rightarrow> bool \<Rightarrow> (nat \<times> string) list status" where
  "query_available_devices default_id clone_ok =
     (if clone_ok then OkS [(default_id, ''default'')] else ErrS RESOURCE_EXHAUSTED)"

definition dump_device_info :: "nat \<Rightarrow> string \<Rightarrow> status_code option \<times> string" where
  "dump_device_info identity builder = (None, builder)"

text \<open>What \<open>driver_create\<close> falls back to is a parameter block the device accepts.\<close>

lemma default_params_accepted: "device_check_params (arena_block_size device_params_initialize) = OkS ()"
  by (simp add: device_check_params_def device_params_initialize_def)

lemma event_balanced:
  "event_create storage live = (OkS x, live1) \<Longrightarrow> x \<notin> live \<Longrightarrow> event_destroy x live1 = live"
  by (auto simp: event_create_def event_destroy_def split: option.splits)

section \<open>Executables\<close>

text \<open>A null executable is none of the simulator; the destructor frees the object with its image.\<close>

definition simulator_executable_isa :: "'e executable option \<Rightarrow> bool" where
  "simulator_executable_isa base_executable =
     (case base_executable of Some (SimulatorExecutable _) \<Rightarrow> True | _ \<Rightarrow> False)"

definition simulator_executable_dispatch_image :: "sim_executable \<Rightarrow> image" where
  "simulator_executable_dispatch_image e = dispatch_image e"

definition simulator_executable_export_count :: "sim_executable \<Rightarrow> nat" where
  "simulator_executable_export_count e = export_count e"

definition simulator_executable_destroy :: "obj \<Rightarrow> obj set \<Rightarrow> obj set" where
  "simulator_executable_destroy x live = live - {x}"

text \<open>A lookup by name fails, with ordinal 0 in the out parameter when there is one.\<close>

definition simulator_lookup_export_by_name :: "string \<Rightarrow> nat option \<Rightarrow> status_code option \<times> nat option" where
  "simulator_lookup_export_by_name name out_export_ordinal = (Some NOT_FOUND, map_option (\<lambda>_. 0) out_export_ordinal)"

text \<open>The call of one workgroup goes through the table of the executable's type.\<close>

definition executable_issue_call :: "('e \<Rightarrow> 's call) \<Rightarrow> 'e executable \<Rightarrow> 's call" where
  "executable_issue_call issue_call e =
     (case e of SimulatorExecutable _ \<Rightarrow> simulator_issue_call | LoadedExecutable x \<Rightarrow> issue_call x)"

definition semaphore_destroy :: "nat \<Rightarrow> obj set \<Rightarrow> obj set" where
  "semaphore_destroy x live = live - {x}"

lemma simulator_exports:
  "simulator_export_info e n True = None \<longleftrightarrow> n < simulator_executable_export_count e"
  "simulator_executable_create True (Some bytes) = OkS e \<Longrightarrow>
     simulator_executable_export_count e = 1 \<and> simulator_executable_dispatch_image e = bytes"
  by (auto simp: simulator_export_info_def simulator_executable_export_count_def simulator_executable_dispatch_image_def
      simulator_executable_create_def split: if_splits)

text \<open>
  Inline issue cannot run an executable of the simulator: with any workgroup at all it
  is unimplemented, so a dispatch has to take the other path.
\<close>

lemma simulator_inline_unimplemented:
  assumes "0 < cx" "0 < cy" "0 < cz"
  shows "fst (issue_dispatch_inline (executable_issue_call issue_call (SimulatorExecutable x)) cx cy cz s) = Some UNIMPLEMENTED"
proof -
  have row: "fst (issue_row simulator_issue_call (grid_x z y 0 n) None s1) = Some UNIMPLEMENTED" if "0 < n" for z y n and s1 :: 'a
    unfolding grid_x_step(1)[OF that] by (simp add: simulator_issue_call_def)
  have "0 < unat cx" using assms(1) by (simp add: word_less_nat_alt)
  then show ?thesis
    using issue_inline_last_row[OF assms, of simulator_issue_call s] row[of "unat cx"] by (auto simp: executable_issue_call_def)
qed

section \<open>The remaining queue operations\<close>

text \<open>A deallocation is only a barrier.\<close>

type_synonym 'w queue_op = "sem_list \<Rightarrow> sem_list \<Rightarrow> store \<Rightarrow> 'w \<Rightarrow> (status_code option \<times> store \<times> 'w) option"

definition queue_dealloca :: "'w queue_op \<Rightarrow> 'w queue_op" where
  "queue_dealloca queue_barrier waits signals \<sigma> w =
     Option.bind (queue_barrier waits signals \<sigma> w) (\<lambda>(r, \<sigma>1, w1).
       if r \<noteq> None then Some (r, \<sigma>1, w1) else Some (None, \<sigma>1, w1))"

text \<open>
  A streaming transfer runs on an inline loop with a status of its own: the transfer
  gets it as it is before the call and returns its own status and what became of it.
\<close>

type_synonym 'w streaming = "sem_list \<Rightarrow> sem_list \<Rightarrow> status_code option \<Rightarrow> store \<Rightarrow> 'w \<Rightarrow>
  (status_code option \<times> status_code option \<times> store \<times> 'w) option"

definition queue_read :: "'w streaming \<Rightarrow> 'w queue_op" where
  "queue_read read_streaming waits signals \<sigma> w =
     Option.bind (read_streaming waits signals None \<sigma> w) (\<lambda>(r, loop_status, \<sigma>1, w1).
       if r \<noteq> None then Some (r, \<sigma>1, w1) else Some (loop_status, \<sigma>1, w1))"

definition queue_write :: "'w streaming \<Rightarrow> 'w queue_op" where
  "queue_write write_streaming waits signals \<sigma> w =
     Option.bind (write_streaming waits signals None \<sigma> w) (\<lambda>(r, loop_status, \<sigma>1, w1).
       if r \<noteq> None then Some (r, \<sigma>1, w1) else Some (loop_status, \<sigma>1, w1))"

definition queue_flush :: "status_code option" where
  "queue_flush = None"

definition device_wait_semaphores :: "store \<Rightarrow> wait_mode \<Rightarrow> sem_list \<Rightarrow> timeout \<Rightarrow> wait_plan" where
  "device_wait_semaphores \<sigma> mode l t = multi_wait \<sigma> mode l t"

definition profiling_begin :: "status_code option" where "profiling_begin = None"
definition profiling_flush :: "status_code option" where "profiling_flush = None"
definition profiling_end :: "status_code option" where "profiling_end = None"

section \<open>What the operations on a timeline promise\<close>

text \<open>
  An operation that returns ok found its waits reached, changed the store only upwards
  and reached its signals; and one whose waits are reached returns, whoever else runs.
\<close>

locale timeline_op =
  fixes op :: "'w queue_op"
  assumes op_ok: "op waits signals \<sigma> w = Some (None, \<sigma>2, w1) \<Longrightarrow> store_le \<sigma> \<sigma>2 \<and> all_signaled \<sigma>2 waits \<and> all_signaled \<sigma>2 signals"
    and op_returns: "all_signaled \<sigma> waits \<Longrightarrow> op waits signals \<sigma> w \<noteq> None"
begin

text \<open>An operation after one that reached what it waits for returns.\<close>

lemma follows:
  assumes "all_signaled \<sigma> l" "store_le \<sigma> \<sigma>1"
  obtains r \<sigma>2 w1 where "op l signals \<sigma>1 w = Some (r, \<sigma>2, w1)"
proof -
  have "op l signals \<sigma>1 w \<noteq> None" by (rule op_returns[OF all_signaled_mono[OF assms(2,1)]])
  then show thesis using that by (cases "op l signals \<sigma>1 w") auto
qed

end

lemma runtime_await_ready:
  assumes "all_signaled \<sigma> l"
  shows "\<exists>r \<sigma>1. runtime_await schedule l \<sigma> = Some (r, \<sigma>1)"
proof -
  consider "l = []" | i v where "l = [(i, v)]" | i v j u l1 where "l = (i, v) # (j, u) # l1"
    by (metis neq_Nil_conv surj_pair)
  then show ?thesis
  proof cases
    case 2
    then show ?thesis using assms by (auto simp: runtime_await_def multi_wait_def wait_one_def wait_enter_def is_signaled_def)
  next
    case 3
    have "\<exists>\<sigma>1. wait_end schedule (AwaitMany ModeAll l Infinite) \<sigma> = Some \<sigma>1"
      using assms by (auto simp: wait_end_def Let_def split: option.split)
    then show ?thesis by (auto simp: runtime_await_def multi_wait_def 3)
  qed (simp add: runtime_await_def multi_wait_def)
qed

text \<open>What IREE documents of signaling a list and of its barrier.\<close>

definition list_signals :: "list_api \<Rightarrow> bool" where
  "list_signals L \<longleftrightarrow> (\<forall>\<sigma> l \<sigma>1. list_signal L \<sigma> l = (None, \<sigma>1) \<longrightarrow> store_le \<sigma> \<sigma>1 \<and> all_signaled \<sigma>1 l)"

definition barrier_executes :: "await \<Rightarrow> 'w queue_op \<Rightarrow> bool" where
  "barrier_executes await queue_barrier \<longleftrightarrow>
     (\<forall>waits signals \<sigma> w. queue_barrier waits signals \<sigma> w = queue_execute await waits signals False (\<lambda>w. (None, w)) \<sigma> w)"

lemma execute_timeline: "timeline_op (\<lambda>waits signals. queue_execute (runtime_await schedule) waits signals deferred replay)"
proof
  fix waits signals \<sigma> w \<sigma>2 w1
  assume "queue_execute (runtime_await schedule) waits signals deferred replay \<sigma> w = Some (None, \<sigma>2, w1)"
  then obtain \<sigma>1 where a: "runtime_await schedule waits \<sigma> = Some (None, \<sigma>1)" and m: "multi_signal \<sigma>1 signals = (None, \<sigma>2)"
    by (auto simp: queue_execute_def bind_eq_Some_conv split: if_splits prod.splits option.splits)
  show "store_le \<sigma> \<sigma>2 \<and> all_signaled \<sigma>2 waits \<and> all_signaled \<sigma>2 signals"
    using rw.await_grows[OF a] rw.await_ok[OF a] multi_signal_ok[OF m] store_le_trans all_signaled_mono by blast
next
  fix waits signals \<sigma> w
  assume "all_signaled \<sigma> waits"
  then obtain r \<sigma>1 where "runtime_await schedule waits \<sigma> = Some (r, \<sigma>1)" using runtime_await_ready by blast
  then show "queue_execute (runtime_await schedule) waits signals deferred replay \<sigma> w \<noteq> None"
    by (auto simp: queue_execute_def split: prod.split option.split)
qed

interpretation execute: timeline_op "\<lambda>waits signals. queue_execute (runtime_await schedule) waits signals deferred replay"
  for schedule deferred replay
  by (rule execute_timeline)

lemma alloca_timeline:
  assumes "list_signals L"
  shows "timeline_op (\<lambda>waits signals. queue_alloca L (runtime_await schedule) waits signals allocate)"
proof
  fix waits signals \<sigma> w \<sigma>2 w1
  assume "queue_alloca L (runtime_await schedule) waits signals allocate \<sigma> w = Some (None, \<sigma>2, w1)"
  then obtain \<sigma>1 where a: "runtime_await schedule waits \<sigma> = Some (None, \<sigma>1)" and m: "list_signal L \<sigma>1 signals = (None, \<sigma>2)"
    by (auto simp: queue_alloca_def bind_eq_Some_conv split: if_splits prod.splits option.splits)
  have "store_le \<sigma>1 \<sigma>2" "all_signaled \<sigma>2 signals" using assms m by (auto simp: list_signals_def)
  then show "store_le \<sigma> \<sigma>2 \<and> all_signaled \<sigma>2 waits \<and> all_signaled \<sigma>2 signals"
    using rw.await_grows[OF a] rw.await_ok[OF a] store_le_trans all_signaled_mono by blast
next
  fix waits signals \<sigma> w
  assume "all_signaled \<sigma> waits"
  then obtain r \<sigma>1 where "runtime_await schedule waits \<sigma> = Some (r, \<sigma>1)" using runtime_await_ready by blast
  then show "queue_alloca L (runtime_await schedule) waits signals allocate \<sigma> w \<noteq> None"
    by (auto simp: queue_alloca_def split: prod.split option.split)
qed

lemma multi_signal_lists: "list_signals vtable_lists"
  using multi_signal_ok by (simp add: list_signals_def vtable_lists_def)

interpretation alloca: timeline_op "\<lambda>waits signals. queue_alloca vtable_lists (runtime_await schedule) waits signals allocate"
  for schedule allocate
  by (rule alloca_timeline[OF multi_signal_lists])

lemma dealloca_barrier:
  assumes "barrier_executes await queue_barrier"
  shows "queue_dealloca queue_barrier = (\<lambda>waits signals. queue_execute await waits signals False (\<lambda>w. (None, w)))"
  using assms by (intro ext) (auto simp: queue_dealloca_def barrier_executes_def split: Option.bind_splits)

text \<open>A stream: operations each of which waits for what the one before signals.\<close>

datatype 'w stream_op = Alloca "'w work" | Execute bool "'w work" | Dealloca

fun run_stream_op :: "list_api \<Rightarrow> await \<Rightarrow> 'w queue_op \<Rightarrow> 'w stream_op \<Rightarrow> 'w queue_op" where
  "run_stream_op L await barrier (Alloca allocate) = (\<lambda>waits signals. queue_alloca L await waits signals allocate)"
| "run_stream_op L await barrier (Execute deferred replay) = (\<lambda>waits signals. queue_execute await waits signals deferred replay)"
| "run_stream_op L await barrier Dealloca = queue_dealloca barrier"

fun stream_work :: "'w stream_op \<Rightarrow> 'w work" where
  "stream_work (Alloca allocate) w = allocate w"
| "stream_work (Execute deferred replay) w = apply_deferred deferred replay w"
| "stream_work Dealloca w = (None, w)"

fun run_stream :: "list_api \<Rightarrow> await \<Rightarrow> 'w queue_op \<Rightarrow> sem_list \<Rightarrow> ('w stream_op \<times> sem_list) list \<Rightarrow> store \<Rightarrow> 'w \<Rightarrow>
    (status_code option \<times> store \<times> 'w) option" where
  "run_stream L await barrier l [] \<sigma> w = Some (None, \<sigma>, w)"
| "run_stream L await barrier l ((op, l1) # ops) \<sigma> w =
     Option.bind (run_stream_op L await barrier op l l1 \<sigma> w) (\<lambda>(r, \<sigma>1, w1).
       if r \<noteq> None then Some (r, \<sigma>1, w1) else run_stream L await barrier l1 ops \<sigma>1 w1)"

lemma stream_timeline:
  assumes "list_signals L" "barrier_executes (runtime_await schedule) barrier"
  shows "timeline_op (run_stream_op L (runtime_await schedule) barrier op)"
  by (cases op) (simp_all add: alloca_timeline[OF assms(1)] execute_timeline dealloca_barrier[OF assms(2)])

lemma run_stream_op_work:
  assumes "barrier_executes await barrier" "run_stream_op L await barrier op l l1 \<sigma> w = Some (None, \<sigma>1, w1)"
  shows "stream_work op w = (None, w1)"
  using assms(2)
  by (cases op) (auto simp: queue_alloca_def queue_execute_def dealloca_barrier[OF assms(1)] apply_deferred_def bind_eq_Some_conv
      split: if_splits prod.splits option.splits)

text \<open>
  C33. A stream of allocations, submissions and deallocations on the device's timeline,
  each waiting for the semaphores the one before signals, never blocks once its first
  waits are reached, whatever other threads do or leave undone. It returns the first
  error, or ok: then no semaphore went back, every list of the stream is reached, and
  the work of all operations was done in order.
\<close>

theorem stream_returns:
  assumes "list_signals L" "barrier_executes (runtime_await schedule) barrier" "all_signaled \<sigma> l"
  shows "\<exists>r \<sigma>1 w1. run_stream L (runtime_await schedule) barrier l ops \<sigma> w = Some (r, \<sigma>1, w1) \<and>
    (r = None \<longrightarrow> store_le \<sigma> \<sigma>1 \<and> (\<forall>l1 \<in> set (l # map snd ops). all_signaled \<sigma>1 l1) \<and>
       w1 = fold (\<lambda>op w. snd (stream_work (fst op) w)) ops w)"
  using assms(3)
proof (induction ops arbitrary: l \<sigma> w)
  case (Cons x ops)
  obtain op l1 where x: "x = (op, l1)" by (cases x)
  note t = stream_timeline[OF assms(1,2), of op]
  obtain r \<sigma>1 w1 where o: "run_stream_op L (runtime_await schedule) barrier op l l1 \<sigma> w = Some (r, \<sigma>1, w1)"
    by (rule timeline_op.follows[OF t Cons.prems store_le_refl])
  show ?case
  proof (cases r)
    case None
    note ok = timeline_op.op_ok[OF t o[unfolded None]] and wk = run_stream_op_work[OF assms(2) o[unfolded None]]
    obtain r2 \<sigma>2 w2 where rest: "run_stream L (runtime_await schedule) barrier l1 ops \<sigma>1 w1 = Some (r2, \<sigma>2, w2)"
      "r2 = None \<longrightarrow> store_le \<sigma>1 \<sigma>2 \<and> (\<forall>l2 \<in> set (l1 # map snd ops). all_signaled \<sigma>2 l2) \<and>
         w2 = fold (\<lambda>op w. snd (stream_work (fst op) w)) ops w1"
      using Cons.IH[of \<sigma>1 l1 w1] ok by blast
    then show ?thesis using o None ok wk all_signaled_mono[of \<sigma>1 \<sigma>2 l] store_le_trans[of \<sigma> \<sigma>1 \<sigma>2] by (auto simp: x)
  qed (simp add: x o)
qed simp


definition small_stream :: "(nat stream_op \<times> sem_list) list" where
  "small_stream = [(Alloca (\<lambda>n. (None, n + 1)), [(0, 1)]), (Execute True (\<lambda>n. (None, n * 10)), [(0, 2)]),
    (Dealloca, [(0, 3), (1, 1)])]"

definition small_barrier :: "nat queue_op" where
  "small_barrier waits signals = queue_execute (runtime_await (\<lambda>_. None)) waits signals False (\<lambda>w. (None, w))"

lemma stream_returns_witness:
  "\<exists>\<sigma>1. run_stream vtable_lists (runtime_await (\<lambda>_. None)) small_barrier [] small_stream fresh_store 4 = Some (None, \<sigma>1, 50) \<and>
     all_signaled \<sigma>1 [(0, 3), (1, 1)]"
proof -
  have b: "barrier_executes (runtime_await (\<lambda>_. None)) small_barrier" by (simp add: barrier_executes_def small_barrier_def)
  have a: "all_signaled fresh_store []" by simp
  obtain r \<sigma>1 w1 where run: "run_stream vtable_lists (runtime_await (\<lambda>_. None)) small_barrier [] small_stream fresh_store 4 =
      Some (r, \<sigma>1, w1)"
    and ok: "r = None \<longrightarrow> store_le fresh_store \<sigma>1 \<and> (\<forall>l1 \<in> set ([] # map snd small_stream). all_signaled \<sigma>1 l1) \<and>
       w1 = fold (\<lambda>op w. snd (stream_work (fst op) w)) small_stream 4"
    using stream_returns[OF multi_signal_lists b a, of small_stream 4] by (elim exE conjE)
  note defs = runtime_await_def multi_wait_def wait_one_def wait_enter_def multi_signal_def signal_unsafe_def fresh_store_def
    semaphore_create_def
  let ?s1 = "fresh_store(0 := \<lparr>current_value = 1, failure_status = None\<rparr>)"
  let ?s2 = "fresh_store(0 := \<lparr>current_value = 2, failure_status = None\<rparr>)"
  have "queue_alloca vtable_lists (runtime_await (\<lambda>_. None)) [] [(0, 1)] (\<lambda>n. (None, n + 1)) fresh_store (4 :: nat) =
      Some (None, ?s1, 5)"
    by (simp add: queue_alloca_def vtable_lists_def defs)
  moreover have "queue_execute (runtime_await (\<lambda>_. None)) [(0, 1)] [(0, 2)] True (\<lambda>n. (None, n * 10)) ?s1 (5 :: nat) =
      Some (None, ?s2, 50)"
    by (simp add: queue_execute_def apply_deferred_def defs word_le_nat_alt)
  moreover have "\<exists>\<sigma>3. queue_dealloca small_barrier [(0, 2)] [(0, 3), (1, 1)] ?s2 50 = Some (None, \<sigma>3, 50)"
    by (simp add: queue_dealloca_def small_barrier_def queue_execute_def apply_deferred_def defs word_le_nat_alt)
  ultimately have "map_option fst (run_stream vtable_lists (runtime_await (\<lambda>_. None)) small_barrier [] small_stream fresh_store 4) = Some None"
    by (auto simp: small_stream_def)
  then have "r = None" using run by simp
  moreover have "w1 = 50" "all_signaled \<sigma>1 [(0, 3), (1, 1)]"
    using ok \<open>r = None\<close> by (simp_all add: small_stream_def apply_deferred_def split: if_splits)
  ultimately show ?thesis using run by blast
qed

end
