(* ===== verification/SimRun.thy ===== *)
theory SimRun
  imports SimDispatch
begin

text \<open>
  The run of the simulator (\<open>runtime/sim/simulator_mpact.cpp\<close>): it starts the core, polls
  it one step at a time until it halts, reports progress at most ten times a second,
  and reads what the firmware's exception handler (\<open>crt/coralnpu_exceptions.cc\<close>) left in
  memory. The simulator is the parameter \<open>stepper\<close>, the clock a function from the
  index of a reading to nanoseconds. \<open>stepper_core\<close> makes of it the core the dispatch runs on.
\<close>

section \<open>The simulator\<close>

record 'm stepper =
  st_byte :: "'m \<Rightarrow> memory"
  st_write :: "32 word \<Rightarrow> 8 word list \<Rightarrow> 'm \<Rightarrow> 'm"
  st_read :: "32 word \<Rightarrow> nat \<Rightarrow> 'm \<Rightarrow> 8 word list"
  st_start :: "32 word \<Rightarrow> 'm \<Rightarrow> 'm"
  st_wait :: "int \<Rightarrow> 'm \<Rightarrow> bool \<times> 'm"

datatype report =
    Progress char "64 word" nat
  | RunFinished "64 word" nat
  | FirmwareException "32 word" "32 word" "32 word"

definition show_progress :: "bool \<Rightarrow> string option \<Rightarrow> bool" where
  "show_progress tty env =
     (case env of
        None \<Rightarrow> tty
      | Some s \<Rightarrow> (case s of [] \<Rightarrow> True | c # _ \<Rightarrow> c \<noteq> CHR ''0''))"

definition spinner :: string where
  "spinner = [CHR ''|'', CHR ''/'', CHR ''-'', CHR 0x5C]"

definition step_size :: int where
  "step_size = 1"

definition milliseconds :: "nat \<Rightarrow> nat \<Rightarrow> nat" where
  "milliseconds now since = (now - since) div 1000000"

text \<open>
  The loop, with the number of the next reading of the clock, the steps counted, the
  index of the spinner and the time of the last print; \<open>None\<close> when it never ends.
\<close>

partial_function (option) wait_loop :: "'m stepper \<Rightarrow> bool \<Rightarrow> (nat \<Rightarrow> nat) \<Rightarrow> nat \<Rightarrow> 64 word \<Rightarrow> nat \<Rightarrow> nat \<Rightarrow> 'm \<Rightarrow> report list \<Rightarrow>
    (nat \<times> 64 word \<times> 'm \<times> report list) option" where
  "wait_loop S shown clock k total_steps spinner_idx last_print m out =
     (case st_wait S step_size m of (halted, m1) \<Rightarrow>
        if halted then Some (k, total_steps, m1, out)
        else if shown \<and> 100 \<le> milliseconds (clock k) last_print
        then wait_loop S shown clock (Suc k) (total_steps + of_int step_size) ((spinner_idx + 1) mod 4) (clock k) m1
          (out @ [Progress (spinner ! spinner_idx) (total_steps + of_int step_size) (milliseconds (clock k) (clock 0))])
        else wait_loop S shown clock (Suc k) (total_steps + of_int step_size) spinner_idx last_print m1 out)"

definition exception_info_addr :: "32 word" where
  "exception_info_addr = 0x8F000000"

definition exception_report :: "8 word list \<Rightarrow> report list" where
  "exception_report info =
     (if (get info 4 0 :: 32 word) \<noteq> 0 then [FirmwareException (get info 4 0) (get info 4 4) (get info 4 8)] else [])"

definition simulator_run :: "'m stepper \<Rightarrow> bool \<Rightarrow> string option \<Rightarrow> (nat \<Rightarrow> nat) \<Rightarrow> 32 word \<Rightarrow> 'm \<Rightarrow> ('m \<times> report list) option" where
  "simulator_run S tty env clock pc m =
     (let shown = show_progress tty env;
          out = (if shown then [Progress (spinner ! 0) 0 0] else [])
      in case wait_loop S shown clock 1 0 0 (clock 0) (st_start S pc m) out of
           None \<Rightarrow> None
         | Some (k, total_steps, m1, out1) \<Rightarrow>
             Some (m1, out1 @ [RunFinished total_steps (milliseconds (clock k) (clock 0))] @
               exception_report (st_read S exception_info_addr 12 m1)))"

text \<open>The simulator as the core of a dispatch, which ignores the reports.\<close>

definition stepper_core :: "'m stepper \<Rightarrow> bool \<Rightarrow> string option \<Rightarrow> (nat \<Rightarrow> nat) \<Rightarrow> 'm core_api" where
  "stepper_core S tty env clock = \<lparr>core_byte = st_byte S, core_write = st_write S, core_read = st_read S,
     core_run = (\<lambda>pc m. map_option fst (simulator_run S tty env clock pc m))\<rparr>"

text \<open>The exception handler of the firmware, up to its \<open>ebreak\<close>.\<close>

definition coralnpu_exception_handler :: "32 word \<Rightarrow> 32 word \<Rightarrow> 32 word \<Rightarrow> memory \<Rightarrow> memory" where
  "coralnpu_exception_handler mcause mepc mtval M =
     write_mem (exception_info_addr + 8) (le_bytes 4 mtval)
       (write_mem (exception_info_addr + 4) (le_bytes 4 mepc)
         (write_mem exception_info_addr (le_bytes 4 mcause) M))"

section \<open>The loop\<close>

text \<open>The core after some polls, and the poll at which it has halted.\<close>

definition polled :: "'m stepper \<Rightarrow> nat \<Rightarrow> 'm \<Rightarrow> 'm" where
  "polled S n m = ((\<lambda>m. snd (st_wait S step_size m)) ^^ n) m"

definition halts_at :: "'m stepper \<Rightarrow> 'm \<Rightarrow> nat \<Rightarrow> bool" where
  "halts_at S m n \<longleftrightarrow> (\<forall>k < n. \<not> fst (st_wait S step_size (polled S k m))) \<and> fst (st_wait S step_size (polled S n m))"

lemma polled_Suc: "polled S (Suc n) m = polled S n (snd (st_wait S step_size m))"
  by (simp add: polled_def funpow_Suc_right del: funpow.simps)

lemma halts_at_Suc:
  "\<not> fst (st_wait S step_size m) \<Longrightarrow> halts_at S m (Suc n) \<longleftrightarrow> halts_at S (snd (st_wait S step_size m)) n"
  by (auto simp: halts_at_def polled_Suc less_Suc_eq_0_disj) (simp add: polled_def)

lemma wait_loop_halts:
  assumes "wait_loop S shown clock k tot spin lp m out = Some r"
  shows "\<exists>n. halts_at S m n"
proof (rule wait_loop.raw_induct[where P = "\<lambda>S shown clock k tot spin lp m out r. \<exists>n. halts_at S m n", OF _ assms])
  fix f S shown clock k tot spin lp m out r
  assume ih: "\<And>S shown clock k tot spin lp m out r. f S shown clock k tot spin lp m out = Some r \<Longrightarrow> \<exists>n. halts_at S m n"
    and r: "(case st_wait S step_size m of (halted, m1) \<Rightarrow>
        if halted then Some (k, tot, m1, out)
        else if shown \<and> 100 \<le> milliseconds (clock k) lp
        then f S shown clock (Suc k) (tot + of_int step_size) ((spin + 1) mod 4) (clock k) m1
          (out @ [Progress (spinner ! spin) (tot + of_int step_size) (milliseconds (clock k) (clock 0))])
        else f S shown clock (Suc k) (tot + of_int step_size) spin lp m1 out) = Some r"
  obtain halted m1 where w: "st_wait S step_size m = (halted, m1)" by (cases "st_wait S step_size m")
  show "\<exists>n. halts_at S m n"
  proof (cases halted)
    case True
    then have "halts_at S m 0" by (simp add: halts_at_def polled_def w)
    then show ?thesis by blast
  next
    case False
    then have "\<exists>n. halts_at S m1 n" using r ih unfolding w by (auto split: if_splits)
    then obtain n where "halts_at S m1 n" by blast
    then have "halts_at S m (Suc n)" using halts_at_Suc[of S m n] False by (simp add: w)
    then show ?thesis by blast
  qed
qed

fun is_progress :: "report \<Rightarrow> bool" where
  "is_progress (Progress c n t) = True"
| "is_progress _ = False"

lemma wait_loop_returns:
  "halts_at S m n \<Longrightarrow> \<exists>out1. wait_loop S shown clock k tot spin lp m out =
      Some (k + n, tot + of_nat n, polled S (Suc n) m, out @ out1) \<and> (\<not> shown \<longrightarrow> out1 = []) \<and> list_all is_progress out1 \<and>
      (mono clock \<longrightarrow> lp \<le> clock k \<longrightarrow> length out1 * 100000000 \<le> clock (k + n) - lp)"
proof (induction n arbitrary: k tot spin lp m out)
  case 0
  then obtain m1 where w: "st_wait S step_size m = (True, m1)"
    by (cases "st_wait S step_size m") (simp add: halts_at_def polled_def)
  have "wait_loop S shown clock k tot spin lp m out = Some (k, tot, m1, out)"
    by (subst wait_loop.simps) (simp add: w)
  then show ?case by (simp add: polled_def w)
next
  case (Suc n)
  obtain halted m1 where w: "st_wait S step_size m = (halted, m1)" by (cases "st_wait S step_size m")
  have nh: "\<not> halted" using Suc.prems w by (force simp: halts_at_def polled_def)
  have h: "halts_at S m1 n" using Suc.prems halts_at_Suc[of S m n] nh by (simp add: w)
  have p: "polled S (Suc (Suc n)) m = polled S (Suc n) m1" by (simp add: polled_Suc[of S "Suc n"] w)
  have t: "tot + of_int step_size + of_nat n = tot + of_nat (Suc n)" by (simp add: step_size_def)
  show ?case
  proof (cases "shown \<and> 100 \<le> milliseconds (clock k) lp")
    case True
    let ?r = "Progress (spinner ! spin) (tot + of_int step_size) (milliseconds (clock k) (clock 0))"
    obtain out1 where o: "wait_loop S shown clock (Suc k) (tot + of_int step_size) ((spin + 1) mod 4) (clock k) m1 (out @ [?r]) =
        Some (Suc k + n, tot + of_int step_size + of_nat n, polled S (Suc n) m1, (out @ [?r]) @ out1)"
      and pr: "list_all is_progress out1"
      and b: "mono clock \<longrightarrow> clock k \<le> clock (Suc k) \<longrightarrow> length out1 * 100000000 \<le> clock (Suc k + n) - clock k"
      using Suc.IH[OF h] by blast
    have e: "wait_loop S shown clock k tot spin lp m out = Some (k + Suc n, tot + of_nat (Suc n), polled S (Suc (Suc n)) m, out @ (?r # out1))"
      using o True nh t by (subst wait_loop.simps) (simp add: w p)
    have "length (?r # out1) * 100000000 \<le> clock (k + Suc n) - lp" if mc: "mono clock" and l: "lp \<le> clock k"
    proof -
      have "length out1 * 100000000 \<le> clock (k + Suc n) - clock k" using b mc by (simp add: mono_def)
      moreover have "100000000 \<le> clock k - lp" using True by (simp add: milliseconds_def less_eq_div_iff_mult_less_eq)
      moreover have "clock k \<le> clock (k + Suc n)" using mc by (simp add: mono_def)
      ultimately show ?thesis using l by simp
    qed
    moreover have "list_all is_progress (?r # out1)" using pr by simp
    ultimately show ?thesis using e True by blast
  next
    case False
    obtain out1 where o: "wait_loop S shown clock (Suc k) (tot + of_int step_size) spin lp m1 out =
        Some (Suc k + n, tot + of_int step_size + of_nat n, polled S (Suc n) m1, out @ out1)" "\<not> shown \<longrightarrow> out1 = []"
      "list_all is_progress out1"
      and b: "mono clock \<longrightarrow> lp \<le> clock (Suc k) \<longrightarrow> length out1 * 100000000 \<le> clock (Suc k + n) - lp"
      using Suc.IH[OF h] by blast
    have e: "wait_loop S shown clock k tot spin lp m out = Some (k + Suc n, tot + of_nat (Suc n), polled S (Suc (Suc n)) m, out @ out1)"
      using o(1) False nh t by (subst wait_loop.simps) (auto simp add: w p)
    have "length out1 * 100000000 \<le> clock (k + Suc n) - lp" if "mono clock" "lp \<le> clock k"
      using b that by (auto simp: mono_def intro: order_trans)
    then show ?thesis using e o(2,3) by blast
  qed
qed

text \<open>Where the core halts, and the memories of the polls.\<close>

lemma halts_at_unique: "halts_at S m n \<Longrightarrow> halts_at S m k \<Longrightarrow> n = k"
  unfolding halts_at_def by (metis linorder_neqE_nat)

lemma simulator_run_None:
  "simulator_run S tty env clock pc m = None \<longleftrightarrow> (\<forall>n. \<not> halts_at S (st_start S pc m) n)"
proof
  show "simulator_run S tty env clock pc m = None" if "\<forall>n. \<not> halts_at S (st_start S pc m) n"
    using that wait_loop_halts by (fastforce simp: simulator_run_def Let_def split: option.split)
  show "\<forall>n. \<not> halts_at S (st_start S pc m) n" if "simulator_run S tty env clock pc m = None"
  proof (intro allI notI)
    fix n assume "halts_at S (st_start S pc m) n"
    note ret = wait_loop_returns[OF this, where shown = "show_progress tty env" and clock = clock and k = 1 and tot = 0
        and spin = 0 and lp = "clock 0" and out = "if show_progress tty env then [Progress (spinner ! 0) 0 0] else []"]
    obtain r where "wait_loop S (show_progress tty env) clock 1 0 0 (clock 0) (st_start S pc m)
        (if show_progress tty env then [Progress (spinner ! 0) 0 0] else []) = Some r"
      using ret by (elim exE conjE)
    then show False using that by (cases r) (simp add: simulator_run_def Let_def)
  qed
qed

text \<open>Reading back what the exception handler stored.\<close>

lemma handler_info:
  "read_mem exception_info_addr 12 (coralnpu_exception_handler mcause mepc mtval M) =
    le_bytes 4 mcause @ le_bytes 4 mepc @ le_bytes 4 mtval"
proof -
  let ?bs = "le_bytes 4 mcause @ le_bytes 4 mepc @ le_bytes 4 mtval"
  have a: "unat exception_info_addr + 12 \<le> 2 ^ 32" by (simp add: exception_info_addr_def)
  have "coralnpu_exception_handler mcause mepc mtval M = write_mem exception_info_addr ?bs M"
    using write_mem_append[of exception_info_addr "le_bytes 4 mcause" "le_bytes 4 mepc @ le_bytes 4 mtval" M]
      write_mem_append[of "exception_info_addr + 4" "le_bytes 4 mepc" "le_bytes 4 mtval"]
    by (simp add: coralnpu_exception_handler_def exception_info_addr_def)
  then show ?thesis using read_write_same[of exception_info_addr ?bs M] by (simp add: exception_info_addr_def)
qed

lemma get_read: "off + 4 \<le> n \<Longrightarrow> get (read_mem a n M) 4 off = (le_word (read_mem (a + of_nat off) 4 M) :: 32 word)"
  by (rule get_read_mem)

section \<open>Properties\<close>

text \<open>
  C18. Running the simulator never returns exactly when no poll finds the core halted.
  Otherwise it returns the core after the first poll that does; the number of steps it
  prints is the number of polls before; progress appears only when asked for, first at
  the start and then, under a clock that does not go back, at most once every 100
  milliseconds; and an exception is reported from the final memory.
\<close>

theorem simulator_run_result:
  shows "(simulator_run S tty env clock pc m = None \<longleftrightarrow> (\<forall>n. \<not> halts_at S (st_start S pc m) n)) \<and>
    (\<forall>n. halts_at S (st_start S pc m) n \<longrightarrow>
      (\<exists>progress. simulator_run S tty env clock pc m = Some (polled S (Suc n) (st_start S pc m),
          progress @ [RunFinished (of_nat n) (milliseconds (clock (Suc n)) (clock 0))] @
          exception_report (st_read S exception_info_addr 12 (polled S (Suc n) (st_start S pc m)))) \<and>
        list_all is_progress progress \<and> (\<not> show_progress tty env \<longrightarrow> progress = []) \<and>
        (mono clock \<longrightarrow> length progress \<le> 1 + milliseconds (clock (Suc n)) (clock 0) div 100)))"
proof (intro conjI allI impI simulator_run_None)
  fix n assume h: "halts_at S (st_start S pc m) n"
  let ?out = "if show_progress tty env then [Progress (spinner ! 0) 0 0] else []"
  obtain out1 where o: "wait_loop S (show_progress tty env) clock 1 0 0 (clock 0) (st_start S pc m) ?out =
      Some (1 + n, 0 + of_nat n, polled S (Suc n) (st_start S pc m), ?out @ out1)"
    "\<not> show_progress tty env \<longrightarrow> out1 = []" "list_all is_progress out1"
    and b: "mono clock \<longrightarrow> clock 0 \<le> clock 1 \<longrightarrow> length out1 * 100000000 \<le> clock (1 + n) - clock 0"
    using wait_loop_returns[OF h, where shown = "show_progress tty env" and clock = clock and k = 1 and tot = 0
        and spin = 0 and lp = "clock 0" and out = ?out] by (elim exE conjE)
  have "length out1 \<le> milliseconds (clock (Suc n)) (clock 0) div 100" if "mono clock"
  proof -
    have "length out1 * 100000000 \<le> clock (Suc n) - clock 0" using b that by (simp add: mono_def)
    then have "length out1 \<le> (clock (Suc n) - clock 0) div 100000000" by (simp add: less_eq_div_iff_mult_less_eq)
    then show ?thesis by (simp add: milliseconds_def div_mult2_eq[symmetric])
  qed
  then have "mono clock \<longrightarrow> length (?out @ out1) \<le> 1 + milliseconds (clock (Suc n)) (clock 0) div 100"
    by (cases "show_progress tty env") (auto intro: le_SucI)
  moreover have "simulator_run S tty env clock pc m = Some (polled S (Suc n) (st_start S pc m),
      (?out @ out1) @ [RunFinished (of_nat n) (milliseconds (clock (Suc n)) (clock 0))] @
      exception_report (st_read S exception_info_addr 12 (polled S (Suc n) (st_start S pc m))))"
    using o(1) by (simp add: simulator_run_def Let_def)
  moreover have "list_all is_progress (?out @ out1)" "\<not> show_progress tty env \<longrightarrow> ?out @ out1 = []" using o(2,3) by simp_all
  ultimately show "\<exists>progress. simulator_run S tty env clock pc m = Some (polled S (Suc n) (st_start S pc m),
          progress @ [RunFinished (of_nat n) (milliseconds (clock (Suc n)) (clock 0))] @
          exception_report (st_read S exception_info_addr 12 (polled S (Suc n) (st_start S pc m)))) \<and>
        list_all is_progress progress \<and> (\<not> show_progress tty env \<longrightarrow> progress = []) \<and>
        (mono clock \<longrightarrow> length progress \<le> 1 + milliseconds (clock (Suc n)) (clock 0) div 100)"
    by blast
qed

text \<open>The core of the dispatch and what a run does to it, whatever is printed.\<close>

lemma stepper_run:
  "core_run (stepper_core S tty env clock) pc m =
    (if \<exists>n. halts_at S (st_start S pc m) n
     then Some (polled S (Suc (THE n. halts_at S (st_start S pc m) n)) (st_start S pc m)) else None)"
proof (cases "\<exists>n. halts_at S (st_start S pc m) n")
  case True
  then obtain n where h: "halts_at S (st_start S pc m) n" by blast
  then have t: "(THE n. halts_at S (st_start S pc m) n) = n" by (rule the_equality) (rule halts_at_unique[OF _ h])
  obtain out1 where "wait_loop S (show_progress tty env) clock 1 0 0 (clock 0) (st_start S pc m)
      (if show_progress tty env then [Progress (spinner ! 0) 0 0] else []) =
      Some (1 + n, 0 + of_nat n, polled S (Suc n) (st_start S pc m), (if show_progress tty env then [Progress (spinner ! 0) 0 0] else []) @ out1)"
    using wait_loop_returns[OF h, where shown = "show_progress tty env" and clock = clock and k = 1 and tot = 0
        and spin = 0 and lp = "clock 0" and out = "if show_progress tty env then [Progress (spinner ! 0) 0 0] else []"]
    by (elim exE conjE)
  then show ?thesis using True by (simp add: stepper_core_def simulator_run_def Let_def t)
next
  case False
  then have "simulator_run S tty env clock pc m = None" by (simp add: simulator_run_None)
  then show ?thesis using False by (simp add: stepper_core_def)
qed

lemma stepper_core_output: "stepper_core S tty env clock = stepper_core S tty1 env1 clock1"
proof -
  have "core_run (stepper_core S tty env clock) = core_run (stepper_core S tty1 env1 clock1)"
    by (intro ext) (simp only: stepper_run)
  then show ?thesis by (simp add: stepper_core_def)
qed

text \<open>
  C19. A dispatch on the simulator blocks exactly when its image was loaded and its
  request prepared and the core then never halts; and its result does not depend on the
  terminal, the environment variable or the clock that the progress output looks at.
\<close>

theorem dispatch_blocks_iff:
  "(issue_dispatch (stepper_core S tty env clock) img st writeable ord local_length m h = None \<longleftrightarrow>
     (\<exists>L r m1. load_and_prepare (stepper_core S tty env clock) img st ord local_length h m = (OkS (L, r), m1) \<and>
        (\<forall>n. \<not> halts_at S (st_start S (start_pc L) m1) n))) \<and>
   issue_dispatch (stepper_core S tty env clock) img st writeable ord local_length m h =
     issue_dispatch (stepper_core S tty1 env1 clock1) img st writeable ord local_length m h"
proof
  show "issue_dispatch (stepper_core S tty env clock) img st writeable ord local_length m h =
     issue_dispatch (stepper_core S tty1 env1 clock1) img st writeable ord local_length m h"
    using stepper_core_output[of S tty env clock tty1 env1 clock1] by simp
  obtain s m1 where lp: "load_and_prepare (stepper_core S tty env clock) img st ord local_length h m = (s, m1)"
    by (cases "load_and_prepare (stepper_core S tty env clock) img st ord local_length h m")
  show "issue_dispatch (stepper_core S tty env clock) img st writeable ord local_length m h = None \<longleftrightarrow>
     (\<exists>L r m1. load_and_prepare (stepper_core S tty env clock) img st ord local_length h m = (OkS (L, r), m1) \<and>
        (\<forall>n. \<not> halts_at S (st_start S (start_pc L) m1) n))"
  proof (cases s)
    case (OkS Lr)
    obtain L r where Lr: "Lr = (L, r)" by (cases Lr)
    have "core_run (stepper_core S tty env clock) (start_pc L) m1 = None \<longleftrightarrow> (\<forall>n. \<not> halts_at S (st_start S (start_pc L) m1) n)"
      by (simp add: stepper_run)
    then show ?thesis
      by (auto simp: issue_dispatch_def lp OkS Lr split: option.splits status.splits prod.splits)
  qed (simp_all add: issue_dispatch_def lp)
qed


text \<open>The words lie in the part of memory from which the bindings of a dispatch are allocated.\<close>

lemma exception_info_in_ddr:
  "\<exists>a c. allocate_ddr 0x80000000 64 0xF000004 = OkS (a, c) \<and> in_range a 0xF000004 exception_info_addr"
proof (intro exI conjI)
  show "allocate_ddr 0x80000000 64 0xF000004 = OkS (0x80000000, 0x8F000004)" by code_simp
  show "in_range 0x80000000 0xF000004 exception_info_addr" by (simp add: in_range_def exception_info_addr_def)
qed

section \<open>A core that halts at its third poll\<close>

definition three_polls :: "nat stepper" where
  "three_polls = \<lparr>st_byte = (\<lambda>_ _. 0), st_write = (\<lambda>_ _ n. n), st_read = (\<lambda>_ n _. replicate n 0),
     st_start = (\<lambda>_ _. 0), st_wait = (\<lambda>_ n. (2 \<le> n, n + 1))\<rparr>"


lemma simulator_run_result_witness:
  "\<exists>progress. simulator_run three_polls True None (\<lambda>k. k * 60000000) 0 9 =
      Some (3, progress @ [RunFinished 2 180] @ []) \<and> length progress \<le> 2"
proof -
  have h: "halts_at three_polls (st_start three_polls 0 9) 2"
    by (simp add: halts_at_def polled_def three_polls_def numeral_2_eq_2 less_Suc_eq)
  have m: "mono (\<lambda>k :: nat. k * 60000000 :: nat)" by (simp add: mono_def)
  have p: "polled three_polls (Suc 2) (st_start three_polls 0 9) = 3" by (simp add: polled_def three_polls_def)
  have e: "exception_report (st_read three_polls exception_info_addr 12 3) = []"
    by (simp add: exception_report_def three_polls_def) code_simp
  obtain progress where q: "simulator_run three_polls True None (\<lambda>k. k * 60000000) 0 9 = Some (3,
      progress @ [RunFinished (of_nat 2) (milliseconds ((\<lambda>k. k * 60000000) (Suc 2)) ((\<lambda>k. k * 60000000) 0))] @ [])"
    and b: "length progress \<le> 1 + milliseconds ((\<lambda>k. k * 60000000) (Suc 2)) ((\<lambda>k. k * 60000000) 0) div 100"
    using simulator_run_result[of three_polls True None "\<lambda>k. k * 60000000" 0 9] h m unfolding p e[symmetric] by (metis p)
  have t: "milliseconds ((\<lambda>k. k * 60000000) (Suc 2)) ((\<lambda>k. k * 60000000) 0) = 180" by (simp add: milliseconds_def)
  show ?thesis using q b unfolding t by (intro exI[of _ progress]) simp
qed

end
