(* ===== verification/LinkerTool.thy ===== *)
theory LinkerTool
  imports Prelude
begin

text \<open>
  The linker of embedded executables (\<open>compiler/Target/CoralNPULinkerTool.cpp\<close>):
  the search for the linker and its script, the settings of the module, and the link
  command. File system and path functions of LLVM and the tool search of IREE are the
  record \<open>link_env\<close>; a macro of the build is \<open>None\<close> when it is not defined. Which
  temporary files are kept is not modelled.
\<close>

section \<open>LLVM modules\<close>

datatype linkage = ExternalLinkage | InternalLinkage | OtherLinkage

datatype visibility = DefaultVisibility | OtherVisibility

record llvm_fn =
  lf_name :: string
  lf_declaration :: bool
  lf_linkage :: linkage
  lf_visibility :: visibility
  lf_dso_local :: bool
  lf_dll_export :: bool
  lf_uwtable :: bool
  lf_attrs :: "string list"
  lf_param_attrs :: "(nat \<times> string) list"

record llvm_global =
  lg_name :: string
  lg_linkage :: linkage
  lg_dso_local :: bool

record llvm_module =
  lm_functions :: "llvm_fn list"
  lm_globals :: "llvm_global list"
  lm_triple :: string
  lm_layout :: string
  lm_ident :: "string list option"

text \<open>Names are unique in a module; a function is reached by its name.\<close>

definition map_functions :: "(llvm_fn \<Rightarrow> llvm_fn) \<Rightarrow> llvm_module \<Rightarrow> llvm_module" where
  "map_functions g m = m\<lparr>lm_functions := map g (lm_functions m)\<rparr>"

definition update_fn :: "string \<Rightarrow> (llvm_fn \<Rightarrow> llvm_fn) \<Rightarrow> llvm_module \<Rightarrow> llvm_module" where
  "update_fn n g = map_functions (\<lambda>f. if lf_name f = n then g f else f)"

definition getFunction :: "string \<Rightarrow> llvm_module \<Rightarrow> llvm_fn option" where
  "getFunction n m = find (\<lambda>f. lf_name f = n) (lm_functions m)"

section \<open>Paths\<close>

type_synonym files = "string \<Rightarrow> 8 word list option"

record link_env =
  embedded_linker_path :: string
  configured_linker :: "string option"
  find_tool :: "string \<Rightarrow> string"
  configured_script :: "string option"
  path_exists :: "string \<Rightarrow> bool"
  path_is_relative :: "string \<Rightarrow> bool"
  main_executable :: string
  remove_filename :: "string \<Rightarrow> string"
  path_append :: "string \<Rightarrow> string list \<Rightarrow> string"
  remove_dots :: "string \<Rightarrow> string"
  escape_component :: "string \<Rightarrow> string"
  create_variant :: "string \<Rightarrow> string \<Rightarrow> string"
  create_temporary :: "string \<Rightarrow> string \<Rightarrow> string"
  run_link :: "string \<Rightarrow> files \<Rightarrow> files option"

definition getLinkerPath :: "link_env \<Rightarrow> string" where
  "getLinkerPath E =
     (if embedded_linker_path E \<noteq> '''' then embedded_linker_path E
      else case configured_linker E of
        Some p \<Rightarrow> if p \<noteq> '''' then p else find_tool E ''riscv32-unknown-elf-ld''
      | None \<Rightarrow> find_tool E ''riscv32-unknown-elf-ld'')"

definition getLinkerScriptPath :: "link_env \<Rightarrow> string" where
  "getLinkerScriptPath E =
     (let path = (case configured_script E of Some p \<Rightarrow> p | None \<Rightarrow> '''') in
      if path = '''' then ''''
      else if path_exists E path then path
      else if \<not> path_is_relative E path then path
      else if main_executable E = '''' then path
      else let resolvedPath = path_append E (remove_filename E (main_executable E)) [''..'', ''..'', path] in
        if \<not> path_exists E resolvedPath then path else remove_dots E resolvedPath)"

section \<open>Configuration of the module\<close>

definition configureModule :: "bool \<Rightarrow> string list \<Rightarrow> llvm_module \<Rightarrow> llvm_module" where
  "configureModule debugSymbols exportedFuncs m =
     (let m1 = map_functions (\<lambda>f. f\<lparr>lf_attrs := lf_attrs f @ [''nonlazybind''], lf_uwtable := False\<rparr>) m in
      if debugSymbols
      then fold (\<lambda>n. update_fn n (\<lambda>f. f\<lparr>lf_visibility := DefaultVisibility, lf_linkage := ExternalLinkage, lf_uwtable := True\<rparr>))
        exportedFuncs m1
      else m1)"

section \<open>The link command\<close>

fun join_with :: "string \<Rightarrow> string list \<Rightarrow> string" where
  "join_with sep [] = ''''"
| "join_with sep [x] = x"
| "join_with sep (x # y # xs) = x @ sep @ join_with sep (y # xs)"

definition link_flags :: "link_env \<Rightarrow> bool \<Rightarrow> string \<Rightarrow> string \<Rightarrow> string \<Rightarrow> string list \<Rightarrow> string list" where
  "link_flags E debugSymbols linkerPath linkerScriptPath libraryFile objectFiles =
     (let archiveDirectory = remove_filename E linkerScriptPath in
      [escape_component E linkerPath, ''-o '' @ escape_component E libraryFile, ''--build-id=none'', ''-nostdlib'',
       ''-static'', ''-T '' @ escape_component E linkerScriptPath, ''--no-undefined'', ''--gc-sections'',
       ''--discard-all'', ''--no-warn-rwx-segments''] @
      (if \<not> debugSymbols then [''--strip-debug''] else []) @
      map (escape_component E) objectFiles @
      [''--whole-archive'', escape_component E (path_append E archiveDirectory [''libcoralnpu_iree.a'']),
       escape_component E (path_append E archiveDirectory [''libcoralnpu_crt.a'']), ''--no-whole-archive''])"

text \<open>The path of the library file and the files after the link, or \<open>None\<close>.\<close>

definition linkDynamicLibrary :: "link_env \<Rightarrow> bool \<Rightarrow> string \<Rightarrow> string list \<Rightarrow> files \<Rightarrow> (string \<times> files) option" where
  "linkDynamicLibrary E debugSymbols libraryName objectFiles fs =
     (let libraryFile = (if objectFiles \<noteq> [] then create_variant E (hd objectFiles) ''so''
                         else create_temporary E libraryName ''so'');
          linkerPath = getLinkerPath E in
      if linkerPath = '''' then None
      else let linkerScriptPath = getLinkerScriptPath E in
        if linkerScriptPath = '''' then None
        else case run_link E (join_with '' '' (link_flags E debugSymbols linkerPath linkerScriptPath libraryFile objectFiles)) fs of
          None \<Rightarrow> None
        | Some fs1 \<Rightarrow> Some (libraryFile, fs1))"

section \<open>Lemmas\<close>

lemma map_functions_simps [simp]:
  "lm_functions (map_functions g m) = map g (lm_functions m)" "lm_globals (map_functions g m) = lm_globals m"
  "lm_triple (map_functions g m) = lm_triple m" "lm_layout (map_functions g m) = lm_layout m"
  "lm_ident (map_functions g m) = lm_ident m"
  by (simp_all add: map_functions_def)

lemma update_fn_functions [simp]: "lm_functions (update_fn n g m) = map (\<lambda>f. if lf_name f = n then g f else f) (lm_functions m)"
  by (simp add: update_fn_def)

lemma getFunction_SomeD: "getFunction n m = Some f \<Longrightarrow> f \<in> set (lm_functions m) \<and> lf_name f = n"
  by (auto simp: getFunction_def find_Some_iff)

end
