(* ===== verification/DebugDatabase.thy ===== *)
theory DebugDatabase
  imports SimMemory
begin

text \<open>
  The footer a debug database is appended with (\<open>appendDebugDatabase\<close> in
  \<open>compiler/Target/CoralNPUTargetBackend.cpp\<close>). Files are byte lists; IREE's
  \<open>align\<close> is a parameter, of which only rounding up to a multiple is used. The
  footer is laid out as its struct is, and \<open>decode_footer\<close> reads it back from the
  end of the file.
\<close>

section \<open>Model\<close>

text \<open>\<open>std::vector::resize\<close> to at least its size, and \<open>std::memcpy\<close> into it.\<close>

definition resize :: "nat \<Rightarrow> 8 word list \<Rightarrow> 8 word list" where
  "resize n f = take n f @ replicate (n - length f) 0"

definition copy_at :: "nat \<Rightarrow> 8 word list \<Rightarrow> 8 word list \<Rightarrow> 8 word list" where
  "copy_at p d f = take p f @ d @ drop (p + length d) f"

record footer =
  magic :: "8 word list"
  version :: "32 word"
  flags :: "32 word"
  libraryOffset :: "64 word"
  librarySize :: "64 word"
  debugOffset :: "64 word"
  debugSize :: "64 word"

definition footer_magic :: "8 word list" where
  "footer_magic = map (\<lambda>c. of_nat (of_char c)) ''IREEDBG'' @ [0]"

definition sizeof_footer :: nat where
  "sizeof_footer = 48"

definition encode_footer :: "footer \<Rightarrow> 8 word list" where
  "encode_footer t = magic t @ le_bytes 4 (version t) @ le_bytes 4 (flags t) @ le_bytes 8 (libraryOffset t) @
     le_bytes 8 (librarySize t) @ le_bytes 8 (debugOffset t) @ le_bytes 8 (debugSize t)"

definition footer_of :: "nat \<Rightarrow> nat \<Rightarrow> nat \<Rightarrow> footer" where
  "footer_of base_size base_aligned debug_size =
     \<lparr>magic = footer_magic, version = 0, flags = 0, libraryOffset = 0, librarySize = of_nat base_size,
      debugOffset = of_nat base_aligned, debugSize = of_nat debug_size\<rparr>"

text \<open>The result is \<open>None\<close> when the debug file cannot be read.\<close>

definition appendDebugDatabase :: "(nat \<Rightarrow> nat \<Rightarrow> nat) \<Rightarrow> 8 word list \<Rightarrow> 8 word list option \<Rightarrow> 8 word list option" where
  "appendDebugDatabase align baseFile debugFileOr =
     (case debugFileOr of
        None \<Rightarrow> None
      | Some debugFile \<Rightarrow>
         (let baseFileSize = align (length baseFile) 16;
              debugFileSize = align (length debugFile) 16;
              resized = resize (baseFileSize + debugFileSize + sizeof_footer) baseFile;
              with_debug = copy_at baseFileSize debugFile resized
          in Some (copy_at (baseFileSize + debugFileSize)
               (encode_footer (footer_of (length baseFile) baseFileSize (length debugFile))) with_debug)))"

section \<open>Reading back\<close>

definition decode_footer :: "8 word list \<Rightarrow> footer" where
  "decode_footer bs =
     \<lparr>magic = take 8 bs, version = le_word (take 4 (drop 8 bs)), flags = le_word (take 4 (drop 12 bs)),
      libraryOffset = le_word (take 8 (drop 16 bs)), librarySize = le_word (take 8 (drop 24 bs)),
      debugOffset = le_word (take 8 (drop 32 bs)), debugSize = le_word (take 8 (drop 40 bs))\<rparr>"

definition file_footer :: "8 word list \<Rightarrow> footer" where
  "file_footer f = decode_footer (drop (length f - sizeof_footer) f)"

definition section_of :: "8 word list \<Rightarrow> 64 word \<Rightarrow> 64 word \<Rightarrow> 8 word list" where
  "section_of f offset n = take (unat n) (drop (unat offset) f)"

lemma length_footer_magic [simp]: "length footer_magic = 8"
  by (simp add: footer_magic_def)

lemma length_encode_footer [simp]: "length (magic t) = 8 \<Longrightarrow> length (encode_footer t) = sizeof_footer"
  by (simp add: encode_footer_def sizeof_footer_def)

lemma decode_encode_footer: "length (magic t) = 8 \<Longrightarrow> decode_footer (encode_footer t) = t"
  by (simp add: decode_footer_def encode_footer_def le_word_bytes)

lemma append_layout:
  assumes "length base \<le> a" "length debug \<le> d"
  shows "copy_at (a + d) foot (copy_at a debug (resize (a + d + length foot) base)) =
    base @ replicate (a - length base) 0 @ debug @ replicate (d - length debug) 0 @ foot"
proof -
  have r: "resize (a + d + length foot) base =
      base @ replicate (a - length base) 0 @ replicate (length debug) 0 @ replicate (d - length debug) 0 @
      replicate (length foot) 0"
  proof -
    have "a + d + length foot - length base =
        (a - length base) + (length debug + ((d - length debug) + length foot))"
      using assms by simp
    then have "replicate (a + d + length foot - length base) (0 :: 8 word) =
        replicate (a - length base) 0 @ replicate (length debug) 0 @ replicate (d - length debug) 0 @ replicate (length foot) 0"
      by (simp only: replicate_add)
    then show ?thesis using assms by (simp add: resize_def)
  qed
  show ?thesis unfolding r using assms by (simp add: copy_at_def)
qed

section \<open>Property\<close>

text \<open>
  C27. A file with an appended debug database ends in a footer with the magic and
  version 0, through whose offsets and sizes the library and the database are read
  back as they were, the database at a multiple of 16.
\<close>

theorem append_debug_roundtrip:
  assumes "\<And>n. n \<le> align n 16" "\<And>n. 16 dvd align n 16"
    "appendDebugDatabase align baseFile (Some debugFile) = Some f" "length f < 2 ^ 64"
  shows "magic (file_footer f) = footer_magic \<and> version (file_footer f) = 0 \<and>
    section_of f (libraryOffset (file_footer f)) (librarySize (file_footer f)) = baseFile \<and>
    section_of f (debugOffset (file_footer f)) (debugSize (file_footer f)) = debugFile \<and>
    16 dvd unat (debugOffset (file_footer f)) \<and> 16 dvd length f"
proof -
  let ?a = "align (length baseFile) 16" and ?d = "align (length debugFile) 16"
  let ?t = "footer_of (length baseFile) ?a (length debugFile)"
  have m: "length (magic ?t) = 8" by (simp add: footer_of_def)
  have f: "f = baseFile @ replicate (?a - length baseFile) 0 @ debugFile @ replicate (?d - length debugFile) 0 @ encode_footer ?t"
    using assms(3) append_layout[of baseFile ?a debugFile ?d "encode_footer ?t"] assms(1)
    by (simp add: appendDebugDatabase_def Let_def m)
  have len: "length f = ?a + ?d + sizeof_footer"
    using assms(1)[of "length baseFile"] assms(1)[of "length debugFile"] by (simp add: f m)
  have foot: "file_footer f = ?t"
  proof -
    have "length f - sizeof_footer = length (baseFile @ replicate (?a - length baseFile) 0 @ debugFile @ replicate (?d - length debugFile) 0)"
      using assms(1)[of "length baseFile"] assms(1)[of "length debugFile"] by (simp add: len)
    then have "drop (length f - sizeof_footer) f = encode_footer ?t" by (simp add: f)
    then show ?thesis by (simp add: file_footer_def decode_encode_footer[OF m])
  qed
  have s: "unat (of_nat n :: 64 word) = n" if "n \<le> length f" for n
    using that assms(4) by (simp add: unat_of_nat)
  have sizes: "unat (librarySize ?t) = length baseFile" "unat (debugOffset ?t) = ?a" "unat (debugSize ?t) = length debugFile"
    "unat (libraryOffset ?t) = 0"
    using s assms(1)[of "length baseFile"] assms(1)[of "length debugFile"] by (simp_all add: footer_of_def len)
  have lib: "section_of f (libraryOffset ?t) (librarySize ?t) = baseFile"
    by (simp add: section_of_def sizes f)
  have dbg: "section_of f (debugOffset ?t) (debugSize ?t) = debugFile"
    using assms(1)[of "length baseFile"] by (simp add: section_of_def sizes f)
  have dvd: "16 dvd unat (debugOffset ?t)" using assms(2) by (simp add: sizes)
  have "16 dvd length f" unfolding len using assms(2) by (simp add: sizeof_footer_def)
  then show ?thesis using lib dbg dvd by (simp add: foot footer_of_def)
qed

lemma append_debug_roundtrip_witness:
  "\<exists>f. appendDebugDatabase (\<lambda>n k. (n + k - 1) div k * k) [1, 2, 3] (Some [7]) = Some f \<and>
    section_of f (debugOffset (file_footer f)) (debugSize (file_footer f)) = [7]"
proof -
  let ?align = "\<lambda>n k. (n + k - 1) div k * k :: nat"
  obtain f where f: "appendDebugDatabase ?align [1, 2, 3] (Some [7]) = Some f"
    by (simp add: appendDebugDatabase_def Let_def)
  have up: "n \<le> ?align n 16" for n by presburger
  have "length f < 2 ^ 64"
    using f by (auto simp: appendDebugDatabase_def Let_def copy_at_def resize_def sizeof_footer_def encode_footer_def footer_of_def)
  from append_debug_roundtrip[of ?align, OF up _ f this] f show ?thesis by auto
qed

end
