(* ===== verification/TargetBackend.thy ===== *)
theory TargetBackend
  imports LinkerTool DebugDatabase
begin

text \<open>
  Serialization of an executable by the target backend
  (\<open>compiler/Target/CoralNPUTargetBackend.cpp\<close>): the format of a target, the LLVM
  module made ready for the linker, and the binary. What IREE and LLVM do to the
  module are functions of the record \<open>backend\<close>; every failure is an \<open>error\<close> value.
  Dumps of intermediate files are in SerializeDumps.
\<close>

section \<open>Targets and formats\<close>

datatype sanitizer = SanitizeNone | SanitizeAddress | SanitizeThread

record llvm_target =
  tg_triple :: string
  tg_link_static :: bool
  tg_link_embedded :: bool
  tg_debug_symbols :: bool
  tg_sanitizer :: sanitizer
  tg_link_ukernel :: bool

datatype object_format = COFF | ELF | MachO | Wasm | OtherFormat

text \<open>\<open>getExecutableTarget\<close>: the format string, from the triple's object format and IREE's name of the architecture.\<close>

definition executable_format :: "(string \<Rightarrow> object_format) \<Rightarrow> (string \<Rightarrow> string) \<Rightarrow> llvm_target \<Rightarrow> string" where
  "executable_format object_format_of arch_name t =
     (if tg_link_static t then ''static''
      else (if tg_link_embedded t then ''embedded-elf-''
            else ''system-'' @ (case object_format_of (tg_triple t) of
              COFF \<Rightarrow> ''dll-'' | ELF \<Rightarrow> ''elf-'' | MachO \<Rightarrow> ''dylib-'' | Wasm \<Rightarrow> ''wasm-'' | OtherFormat \<Rightarrow> ''unknown-'')) @
        arch_name (tg_triple t))"

text \<open>The target the constructor makes of the default options, with IREE's other defaults.\<close>

definition default_target :: "bool \<Rightarrow> bool \<Rightarrow> sanitizer \<Rightarrow> bool \<Rightarrow> llvm_target" where
  "default_target linkEmbedded debugSymbols san ukernel =
     \<lparr>tg_triple = ''riscv32'', tg_link_static = False, tg_link_embedded = linkEmbedded, tg_debug_symbols = debugSymbols,
      tg_sanitizer = san, tg_link_ukernel = ukernel\<rparr>"

section \<open>Exports and the library\<close>

record export_op =
  xo_name :: string
  xo_local_memory :: "int option"
  xo_layout :: "(nat \<times> nat) option"
  xo_workgroup_size :: "int list option"
  xo_loc :: "(string \<times> nat) option"
  xo_stage_locs :: "(string \<times> (string \<times> nat) option) list option"

record library_export =
  lx_name :: string
  lx_source :: "(string \<times> nat) option"
  lx_stages :: "(string \<times> string \<times> nat) list"
  lx_local_memory :: int
  lx_constant_count :: nat
  lx_binding_count :: nat
  lx_workgroup_size :: "32 word \<times> 32 word \<times> 32 word"

record library =
  lib_reflection :: bool
  lib_sanitizer :: sanitizer
  lib_imports :: "(string \<times> bool) list"
  lib_exports :: "library_export list"
  lib_sources :: "(string \<times> 8 word list) list"

definition new_library :: "bool \<Rightarrow> library" where
  "new_library debugSymbols =
     \<lparr>lib_reflection = debugSymbols, lib_sanitizer = SanitizeNone, lib_imports = [], lib_exports = [], lib_sources = []\<rparr>"

definition add_sanitizer :: "sanitizer \<Rightarrow> llvm_module \<times> library \<Rightarrow> llvm_module \<times> library" where
  "add_sanitizer k ml = (case ml of (m, lib) \<Rightarrow>
     (case k of
        SanitizeNone \<Rightarrow> m
      | SanitizeAddress \<Rightarrow> map_functions (\<lambda>f. f\<lparr>lf_attrs := lf_attrs f @ [''sanitize_address'']\<rparr>) m
      | SanitizeThread \<Rightarrow> map_functions (\<lambda>f. f\<lparr>lf_attrs := lf_attrs f @ [''sanitize_thread'']\<rparr>) m,
      lib\<lparr>lib_sanitizer := k\<rparr>))"

definition export_fn :: "llvm_fn \<Rightarrow> llvm_fn" where
  "export_fn f = f\<lparr>lf_linkage := InternalLinkage, lf_dso_local := True,
     lf_param_attrs := lf_param_attrs f @ concat (map (\<lambda>i. [(i, ''nonnull''), (i, ''noalias''), (i, ''align 16'')]) [0, 1, 2])\<rparr>"

text \<open>A workgroup size attribute with fewer than three values is outside the code's contract.\<close>

definition export_entry :: "nat \<Rightarrow> export_op \<Rightarrow> library_export" where
  "export_entry debugLevel e =
     \<lparr>lx_name = xo_name e,
      lx_source = (if 1 \<le> debugLevel then xo_loc e else None),
      lx_stages = (if 3 \<le> debugLevel
        then (case xo_stage_locs e of None \<Rightarrow> []
          | Some ls \<Rightarrow> List.map_filter (\<lambda>(n, loc). map_option (\<lambda>(file, line). (n, file, line)) loc) ls)
        else []),
      lx_local_memory = (case xo_local_memory e of Some n \<Rightarrow> n | None \<Rightarrow> 0),
      lx_constant_count = (case xo_layout e of Some (c, b) \<Rightarrow> c | None \<Rightarrow> 0),
      lx_binding_count = (case xo_layout e of Some (c, b) \<Rightarrow> b | None \<Rightarrow> 0),
      lx_workgroup_size = (case xo_workgroup_size e of
          Some (x # y # z # _) \<Rightarrow> (word_of_int x, word_of_int y, word_of_int z) | _ \<Rightarrow> (0, 0, 0))\<rparr>"

fun add_exports :: "nat \<Rightarrow> export_op list \<Rightarrow> llvm_module \<times> library \<Rightarrow> llvm_module \<times> library" where
  "add_exports debugLevel [] ml = ml"
| "add_exports debugLevel (e # es) (m, lib) =
     (case getFunction (xo_name e) m of
        None \<Rightarrow> add_exports debugLevel es (m, lib)
      | Some _ \<Rightarrow> add_exports debugLevel es
          (update_fn (xo_name e) export_fn m, lib\<lparr>lib_exports := lib_exports lib @ [export_entry debugLevel e]\<rparr>))"

definition query_function_name :: "llvm_target \<Rightarrow> string \<Rightarrow> string" where
  "query_function_name t libraryName =
     (if tg_link_static t then libraryName @ ''_library_query'' else ''iree_hal_executable_library_query'')"

definition publish_query :: "string \<Rightarrow> llvm_module \<Rightarrow> llvm_module" where
  "publish_query n = update_fn n (\<lambda>f. f\<lparr>lf_dso_local := False, lf_visibility := DefaultVisibility,
     lf_linkage := ExternalLinkage, lf_dll_export := True\<rparr>)"

definition fixupVisibility :: "string list \<Rightarrow> llvm_module \<Rightarrow> llvm_module" where
  "fixupVisibility preserveFuncs m =
     (map_functions (\<lambda>f.
        if lf_name f \<in> set preserveFuncs \<or> lf_name f = ''iree_dll_main'' then f
        else if lf_declaration f then f
        else f\<lparr>lf_dso_local := True, lf_linkage := InternalLinkage\<rparr>) m)
     \<lparr>lm_globals := map (\<lambda>g. g\<lparr>lg_dso_local := True, lg_linkage := InternalLinkage\<rparr>) (lm_globals m)\<rparr>"

section \<open>Serialization\<close>

record object_attr =
  ob_path :: string
  ob_data :: "8 word list option"
  ob_absolute :: "string option"

record variant =
  va_name :: string
  va_library :: string
  va_format :: string
  va_imports :: "(string \<times> bool) list option"
  va_exports :: "export_op list"
  va_sources :: "(string \<times> 8 word list option) list"
  va_objects :: "object_attr list"

datatype error = NoTarget | StaticAndEmbedded | NoTargetMachine | TranslationFailed | NoLinker | ConfigureFailed
  | CmdlineLinkFailed | ObjectsLinkFailed | DeviceLinkFailed | MuslLinkFailed | UkernelLoadFailed | UkernelLinkFailed
  | PassesFailed | ObjectEmitFailed | ObjectNotFound | ManyStaticObjects | StaticOutputFailed | LinkFailed
  | ReadBackFailed | DebugDatabaseFailed

record binary =
  bi_name :: string
  bi_format :: string
  bi_data :: "8 word list"
  bi_mime :: "string option"

text \<open>\<open>bk_ukernel\<close> is the load of the ukernel bitcode: an error, nothing to link, or the link.\<close>

record backend =
  bk_variant_target :: "variant \<Rightarrow> llvm_target option"
  bk_machine :: "llvm_target \<Rightarrow> (string \<times> string) option"
  bk_object_format :: "string \<Rightarrow> object_format"
  bk_translate :: "variant \<Rightarrow> string \<Rightarrow> llvm_module option"
  bk_build :: "library \<Rightarrow> string \<Rightarrow> llvm_module \<Rightarrow> llvm_module"
  bk_system_linker :: "string \<Rightarrow> (llvm_module \<Rightarrow> llvm_module option) option"
  bk_system_link :: "string \<Rightarrow> string list \<Rightarrow> files \<Rightarrow> (string \<times> string option \<times> files) option"
  bk_link_cmdline :: "llvm_module \<Rightarrow> llvm_module option"
  bk_link_objects :: "object_attr list \<Rightarrow> llvm_module \<Rightarrow> llvm_module option"
  bk_link_device :: "llvm_module \<Rightarrow> llvm_module option"
  bk_link_musl :: "llvm_module \<Rightarrow> llvm_module option"
  bk_has_ukernel :: "variant \<Rightarrow> bool"
  bk_ukernel :: "(llvm_module \<Rightarrow> llvm_module option) option option"
  bk_passes :: "llvm_target \<Rightarrow> llvm_module \<Rightarrow> llvm_module option"
  bk_emit :: "llvm_module \<Rightarrow> 8 word list option"
  bk_filter_objects :: "object_attr list \<Rightarrow> string list \<Rightarrow> object_attr list"
  bk_object_name :: "string \<Rightarrow> nat \<Rightarrow> string \<Rightarrow> string"
  bk_static_output :: "string \<Rightarrow> string \<Rightarrow> string \<Rightarrow> files \<Rightarrow> bool"
  bk_align :: "nat \<Rightarrow> nat \<Rightarrow> nat"

definition check :: "error \<Rightarrow> 'a option \<Rightarrow> ('a \<Rightarrow> error + 'b) \<Rightarrow> error + 'b" where
  "check e r f = (case r of None \<Rightarrow> Inl e | Some x \<Rightarrow> f x)"

definition guard :: "error \<Rightarrow> bool \<Rightarrow> error + 'b \<Rightarrow> error + 'b" where
  "guard e ok r = (if ok then r else Inl e)"

text \<open>From the translated module to the one with its query function, and the library's tables.\<close>

definition build_module :: "backend \<Rightarrow> nat \<Rightarrow> llvm_target \<Rightarrow> variant \<Rightarrow> llvm_module \<Rightarrow> llvm_module \<times> library" where
  "build_module B debugLevel t v m0 =
     (let m1 = map_functions (\<lambda>f. f\<lparr>lf_attrs := lf_attrs f @ [''frame-pointer=all'', ''no-builtins'', ''hot'']\<rparr>) m0;
          (m2, lib1) = add_sanitizer (tg_sanitizer t) (m1, new_library (tg_debug_symbols t));
          lib2 = lib1\<lparr>lib_imports := (case va_imports v of Some is \<Rightarrow> is | None \<Rightarrow> [])\<rparr>;
          (m3, lib3) = add_exports debugLevel (va_exports v) (m2, lib2);
          lib4 = lib3\<lparr>lib_sources := List.map_filter (\<lambda>(n, d). map_option (Pair n) d) (va_sources v)\<rparr>;
          n = query_function_name t (va_library v)
      in (publish_query n (bk_build B lib4 n m3), lib4))"

definition configure_linker :: "backend \<Rightarrow> string \<Rightarrow> llvm_target \<Rightarrow> string \<Rightarrow> llvm_module \<Rightarrow> error + llvm_module" where
  "configure_linker B triple t n m =
     (if tg_link_static t then Inr m
      else if tg_link_embedded t then Inr (configureModule (tg_debug_symbols t) [n] m)
      else check NoLinker (bk_system_linker B triple) (\<lambda>configure. check ConfigureFailed (configure m) Inr))"

definition link_bitcode :: "backend \<Rightarrow> llvm_target \<Rightarrow> variant \<Rightarrow> llvm_module \<Rightarrow> error + llvm_module" where
  "link_bitcode B t v m =
     check CmdlineLinkFailed (bk_link_cmdline B m) (\<lambda>m1.
     check ObjectsLinkFailed (bk_link_objects B (va_objects v) m1) (\<lambda>m2.
     check DeviceLinkFailed (bk_link_device B m2) (\<lambda>m3.
     check MuslLinkFailed (if tg_link_embedded t then bk_link_musl B m3 else Some m3) (\<lambda>m4.
       if tg_link_ukernel t \<and> bk_has_ukernel B v
       then check UkernelLoadFailed (bk_ukernel B) (\<lambda>bitcode.
         case bitcode of None \<Rightarrow> Inr m4 | Some link \<Rightarrow> check UkernelLinkFailed (link m4) Inr)
       else Inr m4))))"

text \<open>The further object files: one with embedded data is created, but its data is not written.\<close>

fun object_files :: "backend \<Rightarrow> string \<Rightarrow> nat \<Rightarrow> object_attr list \<Rightarrow> files \<Rightarrow> error + (string list \<times> files)" where
  "object_files B first i [] fs = Inr ([], fs)"
| "object_files B first i (ob # obs) fs =
     (case ob_data ob of
        Some _ \<Rightarrow>
          (let p = bk_object_name B first i (ob_path ob) in
           case object_files B first (Suc i) obs (fs(p \<mapsto> [])) of
             Inl e \<Rightarrow> Inl e
           | Inr (ps, fs1) \<Rightarrow> Inr (p # ps, fs1))
      | None \<Rightarrow>
          check ObjectNotFound (ob_absolute ob) (\<lambda>p.
            case object_files B first (Suc i) obs fs of
              Inl e \<Rightarrow> Inl e
            | Inr (ps, fs1) \<Rightarrow> Inr (p # ps, fs1)))"

definition serializeStaticLibraryExecutable :: "backend \<Rightarrow> variant \<Rightarrow> string \<Rightarrow> string list \<Rightarrow> files \<Rightarrow> error + binary" where
  "serializeStaticLibraryExecutable B v queryFunctionName objectFiles fs =
     guard ManyStaticObjects (length objectFiles = 1)
     (guard StaticOutputFailed (bk_static_output B (va_library v) queryFunctionName (hd objectFiles) fs)
       (Inr \<lparr>bi_name = va_name v, bi_format = ''static'',
             bi_data = map (\<lambda>c. of_nat (of_char c)) (va_library v) @ [0], bi_mime = None\<rparr>))"

definition mime_type :: "object_format \<Rightarrow> string" where
  "mime_type k = (case k of
     COFF \<Rightarrow> ''application/x-msdownload'' | ELF \<Rightarrow> ''application/x-elf'' | MachO \<Rightarrow> ''application/x-dylib''
   | Wasm \<Rightarrow> ''application/wasm'' | OtherFormat \<Rightarrow> ''application/octet-stream'')"

definition serializeDynamicLibraryExecutable :: "backend \<Rightarrow> link_env \<Rightarrow> llvm_target \<Rightarrow> variant \<Rightarrow> string \<Rightarrow> string list \<Rightarrow>
    files \<Rightarrow> error + binary" where
  "serializeDynamicLibraryExecutable B E t v triple objectFiles fs =
     check LinkFailed
       (if tg_link_embedded t
        then map_option (\<lambda>(p, fs1). (p, None, fs1)) (linkDynamicLibrary E (tg_debug_symbols t) (va_library v) objectFiles fs)
        else bk_system_link B (va_library v) objectFiles fs)
       (\<lambda>(libraryFile, debugFile, fs1).
          check ReadBackFailed (fs1 libraryFile) (\<lambda>file.
            if tg_link_embedded t
            then Inr \<lparr>bi_name = va_name v, bi_format = va_format v, bi_data = file, bi_mime = Some ''application/x-elf''\<rparr>
            else check DebugDatabaseFailed
              (case debugFile of None \<Rightarrow> Some file | Some p \<Rightarrow> appendDebugDatabase (bk_align B) file (fs1 p))
              (\<lambda>baseFile. Inr \<lparr>bi_name = va_name v, bi_format = va_format v, bi_data = baseFile,
                 bi_mime = Some (mime_type (bk_object_format B triple))\<rparr>)))"

text \<open>The module handed to code generation.\<close>

definition optimized_module :: "backend \<Rightarrow> nat \<Rightarrow> llvm_target \<Rightarrow> string \<times> string \<Rightarrow> variant \<Rightarrow> error + llvm_module" where
  "optimized_module B debugLevel t machine v =
     (case machine of (triple, layout) \<Rightarrow>
       check TranslationFailed (bk_translate B v (va_library v)) (\<lambda>m0.
       let n = query_function_name t (va_library v); m1 = fst (build_module B debugLevel t v m0) in
       case configure_linker B triple t n m1 of
         Inl e \<Rightarrow> Inl e
       | Inr m2 \<Rightarrow>
         (case link_bitcode B t v (m2\<lparr>lm_layout := layout, lm_triple := triple\<rparr>) of
            Inl e \<Rightarrow> Inl e
          | Inr m3 \<Rightarrow>
            check PassesFailed (bk_passes B t (m3\<lparr>lm_ident := map_option (\<lambda>_. []) (lm_ident m3)\<rparr>)) (\<lambda>m4.
              Inr (fixupVisibility [n] m4)))))"

definition serializeExecutable :: "backend \<Rightarrow> link_env \<Rightarrow> nat \<Rightarrow> variant \<Rightarrow> files \<Rightarrow> error + binary" where
  "serializeExecutable B E debugLevel v fs =
     check NoTarget (bk_variant_target B v) (\<lambda>t.
     guard StaticAndEmbedded (\<not> (tg_link_embedded t \<and> tg_link_static t))
     (check NoTargetMachine (bk_machine B t) (\<lambda>machine.
       case optimized_module B debugLevel t machine v of
         Inl e \<Rightarrow> Inl e
       | Inr m \<Rightarrow>
         check ObjectEmitFailed (bk_emit B m) (\<lambda>objectData.
         let first = create_temporary E (va_library v) ''o''; fs1 = fs(first \<mapsto> objectData) in
         case object_files B first 0 (bk_filter_objects B (va_objects v) [''.o'', ''.obj'', ''.a'', ''.lib'']) fs1 of
           Inl e \<Rightarrow> Inl e
         | Inr (others, fs2) \<Rightarrow>
           if tg_link_static t
           then serializeStaticLibraryExecutable B v (query_function_name t (va_library v)) (first # others) fs2
           else serializeDynamicLibraryExecutable B E t v (fst machine) (first # others) fs2))))"

section \<open>Lemmas\<close>

lemma check_Inr: "check e r f = Inr y \<longleftrightarrow> (\<exists>x. r = Some x \<and> f x = Inr y)"
  by (cases r) (auto simp: check_def)

lemma guard_Inr: "guard e ok r = Inr y \<longleftrightarrow> ok \<and> r = Inr y"
  by (simp add: guard_def)

lemma sum_case_Inr: "(case r of Inl e \<Rightarrow> Inl e | Inr x \<Rightarrow> f x) = Inr y \<longleftrightarrow> (\<exists>x. r = Inr x \<and> f x = Inr y)"
  by (cases r) auto

lemmas serialize_simps = check_Inr guard_Inr sum_case_Inr

definition fn_names :: "llvm_module \<Rightarrow> string list" where
  "fn_names m = map lf_name (lm_functions m)"

lemma getFunction_None: "getFunction k m = None \<longleftrightarrow> k \<notin> set (fn_names m)"
  by (auto simp: getFunction_def find_None_iff fn_names_def)

lemma fn_names_map [simp]: "(\<And>f. lf_name (g f) = lf_name f) \<Longrightarrow> fn_names (map_functions g m) = fn_names m"
  by (simp add: fn_names_def)

lemma fn_names_update [simp]: "(\<And>f. lf_name (g f) = lf_name f) \<Longrightarrow> fn_names (update_fn n g m) = fn_names m"
  by (simp add: update_fn_def)

lemma export_fn_name [simp]: "lf_name (export_fn f) = lf_name f"
  by (simp add: export_fn_def)

text \<open>What an exported function has after the loop, and keeps when it is exported again.\<close>

definition exported :: "llvm_fn \<Rightarrow> bool" where
  "exported f \<longleftrightarrow> lf_linkage f = InternalLinkage \<and> lf_dso_local f \<and>
     (\<forall>i < 3. \<forall>a \<in> {''nonnull'', ''noalias'', ''align 16''}. (i, a) \<in> set (lf_param_attrs f))"

lemma exported_export_fn: "exported (export_fn f)"
  by (auto simp: exported_def export_fn_def numeral_3_eq_3 less_Suc_eq)

lemma add_exports_names: "fn_names (fst (add_exports d es (m, lib))) = fn_names m"
  by (induction es arbitrary: m lib) (auto split: option.split)

lemma add_exports_exports:
  "lib_exports (snd (add_exports d es (m, lib))) =
     lib_exports lib @ map (export_entry d) (filter (\<lambda>e. xo_name e \<in> set (fn_names m)) es)"
proof (induction es arbitrary: m lib)
  case (Cons e es)
  then show ?case
    using getFunction_None[of "xo_name e" m] by (cases "getFunction (xo_name e) m") simp_all
qed simp

definition export_rel :: "string set \<Rightarrow> llvm_fn \<Rightarrow> llvm_fn \<Rightarrow> bool" where
  "export_rel ns f f1 \<longleftrightarrow> lf_name f1 = lf_name f \<and> (if lf_name f \<in> ns \<or> exported f then exported f1 else f1 = f)"

lemma export_rel_trans:
  "export_rel {n} f f1 \<Longrightarrow> export_rel ns f1 f2 \<Longrightarrow> export_rel (insert n ns) f f2"
  by (auto simp: export_rel_def split: if_splits)

lemma export_rel_miss: "lf_name f \<noteq> n \<Longrightarrow> export_rel ns f f1 \<Longrightarrow> export_rel (insert n ns) f f1"
  by (auto simp: export_rel_def)

lemma add_exports_functions:
  "list_all2 (export_rel (xo_name ` set es)) (lm_functions m) (lm_functions (fst (add_exports d es (m, lib))))"
proof (induction es arbitrary: m lib)
  case Nil
  show ?case by (simp add: list_all2_same export_rel_def)
next
  case (Cons e es)
  show ?case
  proof (cases "getFunction (xo_name e) m")
    case None
    then have "\<forall>f \<in> set (lm_functions m). lf_name f \<noteq> xo_name e" by (auto simp: getFunction_def find_None_iff)
    with Cons.IH[of m lib] None show ?thesis
      by (auto simp: list_all2_conv_all_nth intro: export_rel_miss)
  next
    case (Some f)
    let ?m = "update_fn (xo_name e) export_fn m"
    have "list_all2 (export_rel {xo_name e}) (lm_functions m) (lm_functions ?m)"
      by (auto simp: list_all2_conv_all_nth export_rel_def exported_export_fn)
    with Cons.IH[of ?m] Some show ?thesis
      by (auto simp: list_all2_conv_all_nth intro: export_rel_trans)
  qed
qed

lemma fixupVisibility_functions:
  "f \<in> set (lm_functions (fixupVisibility ps m)) \<Longrightarrow> \<not> lf_declaration f \<Longrightarrow> lf_name f \<notin> set ps \<Longrightarrow>
    lf_name f \<noteq> ''iree_dll_main'' \<Longrightarrow> lf_linkage f = InternalLinkage \<and> lf_dso_local f"
  by (auto simp: fixupVisibility_def split: if_splits)

lemma fixupVisibility_globals:
  "g \<in> set (lm_globals (fixupVisibility ps m)) \<Longrightarrow> lg_linkage g = InternalLinkage \<and> lg_dso_local g"
  by (auto simp: fixupVisibility_def)

text \<open>A transformation keeps a public function when one of its name stays visible to the linker.\<close>

definition public_in :: "string \<Rightarrow> llvm_module \<Rightarrow> bool" where
  "public_in n m \<longleftrightarrow> (\<exists>f \<in> set (lm_functions m). lf_name f = n \<and> lf_linkage f = ExternalLinkage \<and> lf_visibility f = DefaultVisibility)"

definition keeps_public :: "(llvm_module \<Rightarrow> llvm_module option) \<Rightarrow> bool" where
  "keeps_public step \<longleftrightarrow> (\<forall>n m m1. step m = Some m1 \<longrightarrow> public_in n m \<longrightarrow> public_in n m1)"

text \<open>The documented behaviour of the builder, the bitcode linker and the optimizer.\<close>

definition backend_ok :: "backend \<Rightarrow> bool" where
  "backend_ok B \<longleftrightarrow>
     (\<forall>lib n m. n \<in> set (fn_names (bk_build B lib n m))) \<and>
     (\<forall>triple configure. bk_system_linker B triple = Some configure \<longrightarrow> keeps_public configure) \<and>
     keeps_public (bk_link_cmdline B) \<and> (\<forall>obs. keeps_public (bk_link_objects B obs)) \<and> keeps_public (bk_link_device B) \<and>
     keeps_public (bk_link_musl B) \<and> (\<forall>link. bk_ukernel B = Some (Some link) \<longrightarrow> keeps_public link) \<and>
     (\<forall>t. keeps_public (bk_passes B t))"

lemma keeps_publicD: "keeps_public step \<Longrightarrow> step m = Some m1 \<Longrightarrow> public_in n m \<Longrightarrow> public_in n m1"
  by (auto simp: keeps_public_def)

lemma public_fields [simp]:
  "public_in n (m\<lparr>lm_layout := l\<rparr>) = public_in n m" "public_in n (m\<lparr>lm_triple := t\<rparr>) = public_in n m"
  "public_in n (m\<lparr>lm_ident := i\<rparr>) = public_in n m"
  by (simp_all add: public_in_def)

lemma public_map:
  "public_in n (map_functions g m) \<longleftrightarrow>
    (\<exists>f \<in> set (lm_functions m). lf_name (g f) = n \<and> lf_linkage (g f) = ExternalLinkage \<and> lf_visibility (g f) = DefaultVisibility)"
  by (simp add: public_in_def)

lemma public_publish: "n \<in> set (fn_names m) \<Longrightarrow> public_in n (publish_query n m)"
  unfolding publish_query_def update_fn_def public_map by (force simp: fn_names_def)

lemma public_configureModule:
  assumes "public_in n m"
  shows "public_in n (configureModule dbg [k] m)"
proof -
  have "public_in n (map_functions (\<lambda>f. f\<lparr>lf_attrs := lf_attrs f @ [''nonlazybind''], lf_uwtable := False\<rparr>) m)"
    (is "public_in n ?m") using assms unfolding public_map by (simp add: public_in_def)
  moreover have "public_in n (update_fn k (\<lambda>f. f\<lparr>lf_visibility := DefaultVisibility, lf_linkage := ExternalLinkage, lf_uwtable := True\<rparr>) ?m)"
    using calculation unfolding update_fn_def public_map by (force simp: public_in_def)
  ultimately show ?thesis by (simp add: configureModule_def Let_def)
qed

lemma public_fixup: "public_in n m \<Longrightarrow> public_in n (fixupVisibility [n] m)"
  by (force simp: public_in_def fixupVisibility_def)

lemma public_configure_linker:
  assumes "backend_ok B" "configure_linker B triple t n m = Inr m1" "public_in k m"
  shows "public_in k m1"
proof (cases "tg_link_static t \<or> tg_link_embedded t")
  case True
  then show ?thesis using assms(2,3) by (auto simp: configure_linker_def intro: public_configureModule split: if_splits)
next
  case False
  then obtain configure where c: "bk_system_linker B triple = Some configure" "configure m = Some m1"
    using assms(2) by (auto simp: configure_linker_def check_Inr)
  then have "keeps_public configure" using assms(1) by (simp add: backend_ok_def)
  then show ?thesis using c(2) assms(3) by (rule keeps_publicD)
qed

lemma public_link_bitcode:
  assumes "backend_ok B" "link_bitcode B t v m = Inr m1" "public_in n m"
  shows "public_in n m1"
proof -
  let ?u = "\<lambda>d. if tg_link_ukernel t \<and> bk_has_ukernel B v
    then check UkernelLoadFailed (bk_ukernel B) (\<lambda>bitcode.
      case bitcode of None \<Rightarrow> Inr d | Some link \<Rightarrow> check UkernelLinkFailed (link d) Inr)
    else Inr d"
  obtain a b c d where s: "bk_link_cmdline B m = Some a" "bk_link_objects B (va_objects v) a = Some b" "bk_link_device B b = Some c"
    "(if tg_link_embedded t then bk_link_musl B c else Some c) = Some d" and u: "?u d = Inr m1"
    using assms(2) unfolding link_bitcode_def check_Inr by blast
  have k: "keeps_public (bk_link_cmdline B)" "keeps_public (bk_link_objects B (va_objects v))" "keeps_public (bk_link_device B)"
    "keeps_public (bk_link_musl B)"
    using assms(1) by (simp_all add: backend_ok_def)
  have "public_in n c"
    using keeps_publicD[OF k(3) s(3) keeps_publicD[OF k(2) s(2) keeps_publicD[OF k(1) s(1) assms(3)]]] .
  then have d: "public_in n d" using s(4) keeps_publicD[OF k(4)] by (auto split: if_splits)
  consider "d = m1" | link where "bk_ukernel B = Some (Some link)" "link d = Some m1"
    using u by (auto simp: serialize_simps split: if_splits option.splits)
  then show ?thesis
  proof cases
    case 2
    then have "keeps_public link" using assms(1) by (simp add: backend_ok_def)
    then show ?thesis using 2(2) d by (rule keeps_publicD)
  qed (use d in simp)
qed

section \<open>Properties\<close>

text \<open>
  The library's export table has one entry per export operation that has a
  function, in the order of the operations; those functions are internal to the
  binary and promise non-null, 16-aligned, unaliased state arguments, and every other
  function is as it was.
\<close>

theorem library_exports_spec:
  "lib_exports (snd (add_exports d es (m, new_library dbg))) =
      map (export_entry d) (filter (\<lambda>e. xo_name e \<in> set (fn_names m)) es) \<and>
    list_all2 (export_rel (xo_name ` set es)) (lm_functions m) (lm_functions (fst (add_exports d es (m, new_library dbg))))"
  using add_exports_exports[of d es m "new_library dbg"] add_exports_functions by (simp add: new_library_def)

text \<open>
  C24. In the module handed to code generation the query function is external with
  default visibility, and every other function defined in it (\<open>iree_dll_main\<close> apart)
  and every global is internal.
\<close>

theorem serialized_symbols:
  assumes "backend_ok B" "optimized_module B debugLevel t machine v = Inr m"
  shows "public_in (query_function_name t (va_library v)) m \<and>
    (\<forall>f \<in> set (lm_functions m). \<not> lf_declaration f \<longrightarrow>
      lf_name f \<notin> {query_function_name t (va_library v), ''iree_dll_main''} \<longrightarrow>
      lf_linkage f = InternalLinkage \<and> lf_dso_local f) \<and>
    (\<forall>g \<in> set (lm_globals m). lg_linkage g = InternalLinkage \<and> lg_dso_local g)"
proof -
  let ?n = "query_function_name t (va_library v)"
  obtain triple layout where mc: "machine = (triple, layout)" by (cases machine)
  obtain m0 m2 m3 m4 where s: "configure_linker B triple t ?n (fst (build_module B debugLevel t v m0)) = Inr m2"
    "link_bitcode B t v (m2\<lparr>lm_layout := layout, lm_triple := triple\<rparr>) = Inr m3"
    "bk_passes B t (m3\<lparr>lm_ident := map_option (\<lambda>_. []) (lm_ident m3)\<rparr>) = Some m4" and m: "m = fixupVisibility [?n] m4"
    using assms(2) by (auto simp: optimized_module_def mc serialize_simps Let_def)
  have "public_in ?n (fst (build_module B debugLevel t v m0))"
    using assms(1) by (auto simp: build_module_def Let_def split_beta backend_ok_def intro!: public_publish)
  from public_configure_linker[OF assms(1) s(1) this] have "public_in ?n m2" .
  then have "public_in ?n m3" using public_link_bitcode[OF assms(1) s(2)] by simp
  then have "public_in ?n m4" using assms(1) s(3) by (auto simp: backend_ok_def intro: keeps_publicD)
  then have "public_in ?n m" unfolding m by (rule public_fixup)
  then show ?thesis using fixupVisibility_functions fixupVisibility_globals by (fastforce simp: m)
qed

text \<open>
  An object file given with its data is linked without it: the file is created and
  left empty.
\<close>

lemma embedded_object_empty:
  assumes "object_files B first i [ob] fs = Inr (ps, fs1)" "ob_data ob = Some d"
  shows "\<exists>p. ps = [p] \<and> fs1 p = Some []"
  using assms by (auto simp: Let_def)

lemma serialize_embedded:
  assumes "serializeExecutable B E debugLevel v fs = Inr b" "bk_variant_target B v = Some t" "tg_link_embedded t"
  shows "bi_format b = va_format v \<and> \<not> tg_link_static t \<and>
    (\<exists>objs fs1 p fs2. linkDynamicLibrary E (tg_debug_symbols t) (va_library v) objs fs1 = Some (p, fs2) \<and> fs2 p = Some (bi_data b))"
  using assms by (auto simp: serializeExecutable_def serializeDynamicLibraryExecutable_def serialize_simps Let_def) blast

text \<open>A backend that adds the query function and leaves the module otherwise as it is.\<close>

definition plain_fn :: "string \<Rightarrow> llvm_fn" where
  "plain_fn n = \<lparr>lf_name = n, lf_declaration = False, lf_linkage = ExternalLinkage, lf_visibility = OtherVisibility,
     lf_dso_local = False, lf_dll_export = False, lf_uwtable = False, lf_attrs = [], lf_param_attrs = []\<rparr>"

definition plain_module :: llvm_module where
  "plain_module = \<lparr>lm_functions = [plain_fn ''main_dispatch_0''], lm_globals = [], lm_triple = '''', lm_layout = '''', lm_ident = None\<rparr>"

definition plain_backend :: backend where
  "plain_backend =
     \<lparr>bk_variant_target = (\<lambda>v. Some (default_target True False SanitizeNone False)), bk_machine = (\<lambda>t. Some (tg_triple t, ''e'')),
      bk_object_format = (\<lambda>t. ELF), bk_translate = (\<lambda>v n. Some plain_module),
      bk_build = (\<lambda>lib n m. m\<lparr>lm_functions := lm_functions m @ [plain_fn n]\<rparr>),
      bk_system_linker = (\<lambda>t. None), bk_system_link = (\<lambda>n objs fs. None),
      bk_link_cmdline = Some, bk_link_objects = (\<lambda>obs. Some), bk_link_device = Some, bk_link_musl = Some,
      bk_has_ukernel = (\<lambda>v. False), bk_ukernel = None, bk_passes = (\<lambda>t. Some), bk_emit = (\<lambda>m. Some [127, 69]),
      bk_filter_objects = (\<lambda>obs exts. []), bk_object_name = (\<lambda>first i ext. first),
      bk_static_output = (\<lambda>l q p fs. True), bk_align = (\<lambda>n k. (n + k - 1) div k * k)\<rparr>"

definition plain_variant :: variant where
  "plain_variant = \<lparr>va_name = ''embedded_elf_riscv_32'', va_library = ''main'', va_format = ''embedded-elf-riscv_32'', va_imports = None,
     va_exports = [\<lparr>xo_name = ''main_dispatch_0'', xo_local_memory = None, xo_layout = Some (0, 2), xo_workgroup_size = None,
       xo_loc = None, xo_stage_locs = None\<rparr>], va_sources = [], va_objects = []\<rparr>"

lemma keeps_public_Some [simp]: "keeps_public Some"
  by (simp add: keeps_public_def)

lemma plain_backend_ok: "backend_ok plain_backend"
  by (simp add: backend_ok_def plain_backend_def fn_names_def plain_fn_def)

lemma plain_optimized: "\<exists>m. optimized_module plain_backend 0 (default_target True False SanitizeNone False) (''riscv32'', ''e'') plain_variant = Inr m"
  by (simp add: optimized_module_def plain_backend_def check_def Let_def configure_linker_def link_bitcode_def default_target_def)

lemma serialized_symbols_witness:
  "\<exists>m. optimized_module plain_backend 0 (default_target True False SanitizeNone False) (''riscv32'', ''e'') plain_variant = Inr m \<and>
    public_in ''iree_hal_executable_library_query'' m"
proof -
  obtain m where m: "optimized_module plain_backend 0 (default_target True False SanitizeNone False) (''riscv32'', ''e'') plain_variant = Inr m"
    using plain_optimized by blast
  from serialized_symbols[OF plain_backend_ok m] m show ?thesis
    by (simp add: query_function_name_def default_target_def)
qed

end
