(* ===== verification/CompileRun.thy ===== *)
theory CompileRun
  imports TargetBackend Executables
begin

text \<open>
  The compiler and the runtime together: the executable the target backend makes of
  the default options is one the executable cache of the device prepares for the
  simulator, with the bytes the linker wrote.
\<close>

lemma default_format:
  "arch_name ''riscv32'' = ''riscv_32'' \<Longrightarrow>
    is_simulator_format (executable_format object_format_of arch_name (default_target True dbg san uk))"
  by (simp add: is_simulator_format_def executable_format_def default_target_def)

text \<open>
  C23. Every executable serialized for the default target, if it is not empty, is
  prepared by the cache as an executable of the simulator whose image is the file the
  linker wrote, whatever loaders the device has.
\<close>

theorem compiled_executable_prepared:
  assumes "bk_variant_target B v = Some (default_target True dbg san uk)"
    "va_format v = executable_format object_format_of arch_name (default_target True dbg san uk)"
    "arch_name ''riscv32'' = ''riscv_32''"
    "serializeExecutable B E debugLevel v fs = Inr b" "bi_data b \<noteq> []"
  shows "can_prepare_format ls (bi_format b) \<and>
    prepare_executable True ls (bi_format b) (Some (bi_data b)) =
      OkS (SimulatorExecutable \<lparr>dispatch_image = bi_data b, export_count = 1\<rparr>) \<and>
    (\<exists>objs fs1 p fs2. linkDynamicLibrary E dbg (va_library v) objs fs1 = Some (p, fs2) \<and> fs2 p = Some (bi_data b))"
proof -
  have t: "tg_link_embedded (default_target True dbg san uk)" "tg_debug_symbols (default_target True dbg san uk) = dbg"
    by (simp_all add: default_target_def)
  note s = serialize_embedded[OF assms(4,1) t(1), unfolded t(2)]
  have f: "is_simulator_format (bi_format b)" using s default_format[of arch_name, OF assms(3)] by (simp add: assms(2))
  then have "can_prepare_format ls (bi_format b)" by (simp add: can_prepare_format_def)
  moreover have "prepare_executable True ls (bi_format b) (Some (bi_data b)) =
      OkS (SimulatorExecutable \<lparr>dispatch_image = bi_data b, export_count = 1\<rparr>)"
    using f assms(5) by (simp add: prepare_executable_def simulator_executable_create_def)
  ultimately show ?thesis using s by blast
qed

definition plain_env :: link_env where
  "plain_env = \<lparr>embedded_linker_path = ''ld'', configured_linker = None, find_tool = (\<lambda>n. ''''), configured_script = Some ''s.ld'',
     path_exists = (\<lambda>p. True), path_is_relative = (\<lambda>p. True), main_executable = '''', remove_filename = (\<lambda>p. ''''),
     path_append = (\<lambda>d ps. d @ concat ps), remove_dots = (\<lambda>p. p), escape_component = (\<lambda>p. p),
     create_variant = (\<lambda>p ext. p @ ext), create_temporary = (\<lambda>p ext. p @ ext),
     run_link = (\<lambda>cmd fs. Some (\<lambda>p. Some [1, 2, 3]))\<rparr>"

definition plain_binary :: binary where
  "plain_binary = \<lparr>bi_name = va_name plain_variant, bi_format = va_format plain_variant, bi_data = [1, 2, 3],
     bi_mime = Some ''application/x-elf''\<rparr>"

lemma plain_target:
  "bk_variant_target plain_backend plain_variant = Some (default_target True False SanitizeNone False)"
  "bk_machine plain_backend (default_target True False SanitizeNone False) = Some (''riscv32'', ''e'')"
  by (simp_all add: plain_backend_def default_target_def)

lemma plain_serialized: "serializeExecutable plain_backend plain_env 0 plain_variant (\<lambda>p. None) = Inr plain_binary"
proof -
  obtain m where m: "optimized_module plain_backend 0 (default_target True False SanitizeNone False) (''riscv32'', ''e'') plain_variant = Inr m"
    using plain_optimized by blast
  have t: "bk_emit plain_backend m = Some [127, 69]" "bk_filter_objects plain_backend (va_objects plain_variant) l = []" for l
    by (simp_all add: plain_backend_def)
  show ?thesis
    by (simp add: serializeExecutable_def t plain_target m check_def guard_def Let_def serializeDynamicLibraryExecutable_def
        linkDynamicLibrary_def getLinkerPath_def getLinkerScriptPath_def plain_env_def)
      (simp add: default_target_def plain_binary_def)
qed

lemma compiled_executable_prepared_witness:
  "serializeExecutable plain_backend plain_env 0 plain_variant (\<lambda>p. None) = Inr plain_binary \<and>
    prepare_executable True ([] :: nat loader list) (bi_format plain_binary) (Some (bi_data plain_binary)) =
      OkS (SimulatorExecutable \<lparr>dispatch_image = [1, 2, 3], export_count = 1\<rparr>)"
proof -
  let ?arch = "\<lambda>t :: string. ''riscv_32''"
  have f: "va_format plain_variant = executable_format (\<lambda>_. ELF) ?arch (default_target True False SanitizeNone False)"
    by (simp add: plain_variant_def executable_format_def default_target_def)
  have d: "bi_data plain_binary \<noteq> []" "bi_data plain_binary = [1, 2, 3]" by (simp_all add: plain_binary_def)
  from compiled_executable_prepared[where ls = "[] :: nat loader list", OF plain_target(1) f refl plain_serialized d(1)] d(2)
  show ?thesis by (simp add: plain_serialized)
qed

end
