(* ===== verification/CompileDriver.thy ===== *)
theory CompileDriver
  imports Prelude
begin

text \<open>
  The compiler driver (\<open>compiler/tools/coralnpu_compile_lib.cc\<close>): one run over an
  input file, whole or split, with the stop at the stream phase in which the affinity
  profile is taken. IREE's compiler is the record \<open>compiler\<close> over sources and modules;
  the calls the driver makes on its objects are recorded as a trace of events. Option
  parsing, diagnostics and remarks are left out.
\<close>

section \<open>Model\<close>

datatype output_format = OutNone | VmAsm | VmBytecode | VmC | HalExecutable | Precompiled

datatype compile_mode = ModeStd | ModeVm | ModeHalExecutable | ModePrecompile | ModeUnknown

datatype pipeline = PipelineStd | PipelineHalExecutable | PipelinePrecompile

datatype emission = EmitIR | EmitIRBytecode int | EmitVMBytecode | EmitVMCSource | EmitHALExecutable

record driver_options =
  do_mode :: compile_mode
  do_format :: output_format
  do_from :: string
  do_to :: string
  do_mlir_bytecode :: bool
  do_bytecode_version :: "int option"
  do_split :: bool
  do_have_c :: bool

record ('s, 'm) compiler =
  co_parse :: "'s \<Rightarrow> 'm option"
  co_pipeline :: "pipeline \<Rightarrow> string \<Rightarrow> string \<Rightarrow> 'm \<Rightarrow> 'm option"
  co_profile :: "'m \<Rightarrow> 'm option"
  co_emit :: "emission \<Rightarrow> 'm \<Rightarrow> bool"
  co_open_source :: "'s option"
  co_open_output :: bool
  co_split :: "'s \<Rightarrow> 's list \<times> bool"

datatype event =
    InvocationCreate | SetCompileFrom string | SetCompileTo string | ParseSource bool
  | RunPipeline pipeline string string bool | StealModule | RunProfile bool | ImportModule
  | Emit emission bool | InvocationDestroy
  | SessionCreate | OpenSource bool | OpenOutput bool | SplitSource bool | OutputKeep
  | SplitSourceDestroy | OutputDestroy | SourceDestroy | SessionDestroy | Shutdown

text \<open>The standard pipeline: whole, or up to the stream phase, profiled, and on to the end.\<close>

definition compile_std :: "('s, 'm) compiler \<Rightarrow> driver_options \<Rightarrow> 'm \<Rightarrow> 'm option \<times> event list" where
  "compile_std C opts m =
     (if do_to opts = ''end'' then
       (case co_pipeline C PipelineStd (do_from opts) ''stream'' m of
          None \<Rightarrow> (None, [SetCompileTo ''stream'', RunPipeline PipelineStd (do_from opts) ''stream'' False])
        | Some m1 \<Rightarrow>
          (let stage1 = [SetCompileTo ''stream'', RunPipeline PipelineStd (do_from opts) ''stream'' True, StealModule] in
           case co_profile C m1 of
             None \<Rightarrow> (None, stage1 @ [RunProfile False, ImportModule])
           | Some m2 \<Rightarrow>
             (let stage2 = stage1 @ [RunProfile True, ImportModule, SetCompileFrom ''stream'', SetCompileTo ''end''] in
              case co_pipeline C PipelineStd ''stream'' ''end'' m2 of
                None \<Rightarrow> (None, stage2 @ [RunPipeline PipelineStd ''stream'' ''end'' False])
              | Some m3 \<Rightarrow> (Some m3, stage2 @ [RunPipeline PipelineStd ''stream'' ''end'' True]))))
      else
       (case co_pipeline C PipelineStd (do_from opts) (do_to opts) m of
          None \<Rightarrow> (None, [RunPipeline PipelineStd (do_from opts) (do_to opts) False])
        | Some m1 \<Rightarrow> (Some m1, [RunPipeline PipelineStd (do_from opts) (do_to opts) True])))"

definition compile_plain :: "('s, 'm) compiler \<Rightarrow> driver_options \<Rightarrow> pipeline \<Rightarrow> 'm \<Rightarrow> 'm option \<times> event list" where
  "compile_plain C opts p m =
     (let r = co_pipeline C p (do_from opts) (do_to opts) m
      in (r, [RunPipeline p (do_from opts) (do_to opts) (r \<noteq> None)]))"

text \<open>The switch on the mode; two modes set the output format for this and later buffers.\<close>

definition compile_module :: "('s, 'm) compiler \<Rightarrow> driver_options \<Rightarrow> output_format \<Rightarrow> 'm \<Rightarrow> 'm option \<times> event list \<times> output_format" where
  "compile_module C opts fmt m =
     (case do_mode opts of
        ModeStd \<Rightarrow> (case compile_std C opts m of (r, ev) \<Rightarrow> (r, ev, fmt))
      | ModeVm \<Rightarrow> (Some m, [], fmt)
      | ModeHalExecutable \<Rightarrow> (case compile_plain C opts PipelineHalExecutable m of (r, ev) \<Rightarrow> (r, ev, HalExecutable))
      | ModePrecompile \<Rightarrow> (case compile_plain C opts PipelinePrecompile m of (r, ev) \<Rightarrow> (r, ev, Precompiled))
      | ModeUnknown \<Rightarrow> (None, [], fmt))"

definition mlir_emission :: "driver_options \<Rightarrow> emission" where
  "mlir_emission opts =
     (if do_mlir_bytecode opts
      then EmitIRBytecode (case do_bytecode_version opts of Some w \<Rightarrow> w | None \<Rightarrow> - 1) else EmitIR)"

definition output_emission :: "driver_options \<Rightarrow> output_format \<Rightarrow> emission option" where
  "output_emission opts fmt =
     (if do_to opts \<noteq> ''end'' then Some (mlir_emission opts)
      else case fmt of
        VmAsm \<Rightarrow> Some (mlir_emission opts)
      | VmBytecode \<Rightarrow> Some EmitVMBytecode
      | VmC \<Rightarrow> if do_have_c opts then Some EmitVMCSource else None
      | HalExecutable \<Rightarrow> Some EmitHALExecutable
      | Precompiled \<Rightarrow> Some (mlir_emission opts)
      | OutNone \<Rightarrow> None)"

definition processBuffer :: "('s, 'm) compiler \<Rightarrow> driver_options \<Rightarrow> output_format \<Rightarrow> 's \<Rightarrow> bool \<times> event list \<times> output_format" where
  "processBuffer C opts fmt source =
     (let setup = [InvocationCreate, SetCompileFrom (do_from opts), SetCompileTo (do_to opts)] in
      case co_parse C source of
        None \<Rightarrow> (False, setup @ [ParseSource False, InvocationDestroy], fmt)
      | Some m \<Rightarrow>
        (case compile_module C opts fmt m of
           (None, ev, fmt1) \<Rightarrow> (False, setup @ [ParseSource True] @ ev @ [InvocationDestroy], fmt1)
         | (Some m1, ev, fmt1) \<Rightarrow>
           (case output_emission opts fmt1 of
              None \<Rightarrow> (False, setup @ [ParseSource True] @ ev @ [InvocationDestroy], fmt1)
            | Some e \<Rightarrow> (co_emit C e m1, setup @ [ParseSource True] @ ev @ [Emit e (co_emit C e m1), InvocationDestroy], fmt1))))"

text \<open>The loop over the split sources: every one is processed, whatever the ones before it gave.\<close>

fun processBuffers :: "('s, 'm) compiler \<Rightarrow> driver_options \<Rightarrow> output_format \<Rightarrow> 's list \<Rightarrow> bool \<Rightarrow> bool \<times> event list" where
  "processBuffers C opts fmt [] hadFailure = (hadFailure, [])"
| "processBuffers C opts fmt (s # ss) hadFailure =
     (case processBuffer C opts fmt s of (ok, ev, fmt1) \<Rightarrow>
        case processBuffers C opts fmt1 ss (if \<not> ok then True else hadFailure) of (r, ev1) \<Rightarrow> (r, ev @ ev1))"

text \<open>The destructor of the main state, for a number of split sources.\<close>

definition cleanup :: "nat \<Rightarrow> event list" where
  "cleanup n = replicate n SplitSourceDestroy @ [OutputDestroy, SourceDestroy, SessionDestroy, Shutdown]"

text \<open>The exit code and the trace of a run.\<close>

definition runCoralNpuCompileMain :: "('s, 'm) compiler \<Rightarrow> driver_options \<Rightarrow> nat \<times> event list" where
  "runCoralNpuCompileMain C opts =
     (case co_open_source C of
        None \<Rightarrow> (1, [SessionCreate, OpenSource False] @ cleanup 0)
      | Some source \<Rightarrow>
        if \<not> co_open_output C then (1, [SessionCreate, OpenSource True, OpenOutput False] @ cleanup 0)
        else
          (let opened = [SessionCreate, OpenSource True, OpenOutput True] in
           if do_split opts then
             (case co_split C source of (ss, split_ok) \<Rightarrow>
               if \<not> split_ok then (1, opened @ [SplitSource False] @ cleanup (length ss))
               else case processBuffers C opts (do_format opts) ss False of (hadFailure, ev) \<Rightarrow>
                 if hadFailure then (1, opened @ [SplitSource True] @ ev @ cleanup (length ss))
                 else (0, opened @ [SplitSource True] @ ev @ [OutputKeep] @ cleanup (length ss)))
           else
             (case processBuffer C opts (do_format opts) source of (ok, ev, _) \<Rightarrow>
               if \<not> ok then (1, opened @ ev @ cleanup 0)
               else (0, opened @ ev @ [OutputKeep] @ cleanup 0))))"

section \<open>Traces that respect the objects\<close>

text \<open>
  What IREE asks of its caller: pipelines and emissions on a live invocation that owns
  its module, one invocation at a time, a stolen module given back before anything else
  is done with the invocation.
\<close>

datatype phase = Idle | Live | Stolen

fun allowed :: "phase \<Rightarrow> event \<Rightarrow> phase option" where
  "allowed Idle InvocationCreate = Some Live"
| "allowed Live (SetCompileFrom a) = Some Live"
| "allowed Live (SetCompileTo a) = Some Live"
| "allowed Live (ParseSource ok) = Some Live"
| "allowed Live (RunPipeline p a b ok) = Some Live"
| "allowed Live (Emit e ok) = Some Live"
| "allowed Live StealModule = Some Stolen"
| "allowed Stolen (RunProfile ok) = Some Stolen"
| "allowed Stolen ImportModule = Some Live"
| "allowed Live InvocationDestroy = Some Idle"
| "allowed Idle SessionCreate = Some Idle"
| "allowed Idle (OpenSource ok) = Some Idle"
| "allowed Idle (OpenOutput ok) = Some Idle"
| "allowed Idle (SplitSource ok) = Some Idle"
| "allowed Idle OutputKeep = Some Idle"
| "allowed Idle SplitSourceDestroy = Some Idle"
| "allowed Idle OutputDestroy = Some Idle"
| "allowed Idle SourceDestroy = Some Idle"
| "allowed Idle SessionDestroy = Some Idle"
| "allowed Idle Shutdown = Some Idle"
| "allowed _ _ = None"

fun run_trace :: "phase \<Rightarrow> event list \<Rightarrow> phase option" where
  "run_trace p [] = Some p"
| "run_trace p (e # es) = Option.bind (allowed p e) (\<lambda>q. run_trace q es)"

lemma run_trace_append: "run_trace p (es @ fs) = Option.bind (run_trace p es) (\<lambda>q. run_trace q fs)"
  by (induction es arbitrary: p) (auto split: Option.bind_splits)

lemma compile_std_trace: "compile_std C opts m = (r, ev) \<Longrightarrow> run_trace Live ev = Some Live"
  by (auto simp: compile_std_def Let_def split: if_splits option.splits)

lemma compile_module_trace: "compile_module C opts fmt m = (r, ev, fmt1) \<Longrightarrow> run_trace Live ev = Some Live"
  by (auto simp: compile_module_def compile_plain_def Let_def compile_std_trace split: compile_mode.splits prod.splits)

lemma processBuffer_trace: "processBuffer C opts fmt s = (ok, ev, fmt1) \<Longrightarrow> run_trace Idle ev = Some Idle"
  by (auto simp: processBuffer_def Let_def run_trace_append compile_module_trace split: option.splits prod.splits)

lemma processBuffers_trace: "processBuffers C opts fmt ss h = (r, ev) \<Longrightarrow> run_trace Idle ev = Some Idle"
  by (induction C opts fmt ss h arbitrary: r ev rule: processBuffers.induct)
    (auto simp: run_trace_append dest!: processBuffer_trace split: prod.splits)

lemma cleanup_trace: "run_trace Idle (cleanup n) = Some Idle"
  by (induction n) (simp_all add: cleanup_def)

section \<open>Properties\<close>

text \<open>
  C28. On every path of a run the compiler's objects are used as IREE asks: one
  invocation at a time, destroyed before the next and before the session; a stolen
  module is given back, also when the profile pass fails, before the invocation is
  used or destroyed.
\<close>

theorem driver_trace_ok: "run_trace Idle (snd (runCoralNpuCompileMain C opts)) = Some Idle"
  by (auto simp: runCoralNpuCompileMain_def Let_def run_trace_append cleanup_trace
      split: option.splits prod.splits dest!: processBuffer_trace processBuffers_trace)

fun failure :: "event \<Rightarrow> bool" where
  "failure (ParseSource ok) = (\<not> ok)"
| "failure (RunPipeline p a b ok) = (\<not> ok)"
| "failure (RunProfile ok) = (\<not> ok)"
| "failure (Emit e ok) = (\<not> ok)"
| "failure (OpenSource ok) = (\<not> ok)"
| "failure (OpenOutput ok) = (\<not> ok)"
| "failure (SplitSource ok) = (\<not> ok)"
| "failure _ = False"

definition invocations :: "event list \<Rightarrow> nat" where
  "invocations ev = length (filter (\<lambda>e. e = InvocationCreate) ev)"

lemma invocations_simps [simp]:
  "invocations [] = 0" "invocations (e # ev) = (if e = InvocationCreate then Suc (invocations ev) else invocations ev)"
  "invocations (ev @ ev1) = invocations ev + invocations ev1"
  by (simp_all add: invocations_def)

text \<open>A step of the driver that succeeds has no failure in its trace.\<close>

lemma compile_std_events:
  "compile_std C opts m = (r, ev) \<Longrightarrow> invocations ev = 0 \<and> OutputKeep \<notin> set ev \<and> (r \<noteq> None \<longrightarrow> (\<forall>e \<in> set ev. \<not> failure e))"
  by (auto simp: compile_std_def Let_def split: if_splits option.splits)

lemma compile_module_events:
  "compile_module C opts fmt m = (r, ev, fmt1) \<Longrightarrow>
    invocations ev = 0 \<and> OutputKeep \<notin> set ev \<and> (r \<noteq> None \<longrightarrow> (\<forall>e \<in> set ev. \<not> failure e))"
  by (auto simp: compile_module_def compile_plain_def Let_def dest: compile_std_events split: compile_mode.splits prod.splits)

lemma processBuffer_events:
  assumes "processBuffer C opts fmt s = (ok, ev, fmt1)"
  shows "invocations ev = 1 \<and> OutputKeep \<notin> set ev \<and> (ok \<longrightarrow> (\<forall>e \<in> set ev. \<not> failure e))"
  using assms
  by (auto simp: processBuffer_def Let_def dest!: compile_module_events split: option.splits prod.splits)

lemma processBuffers_events:
  "processBuffers C opts fmt ss h = (r, ev) \<Longrightarrow>
    invocations ev = length ss \<and> OutputKeep \<notin> set ev \<and> (\<not> r \<longrightarrow> \<not> h \<and> (\<forall>e \<in> set ev. \<not> failure e))"
proof (induction C opts fmt ss h arbitrary: r ev rule: processBuffers.induct)
  case (2 C opts fmt s ss h)
  obtain ok ev0 fmt1 where b: "processBuffer C opts fmt s = (ok, ev0, fmt1)" by (metis prod_cases3)
  obtain r1 ev1 where bs: "processBuffers C opts fmt1 ss (if \<not> ok then True else h) = (r1, ev1)" by fastforce
  have "r = r1" "ev = ev0 @ ev1" using 2(2) b bs by auto
  then show ?case using processBuffer_events[OF b] 2(1)[OF b[symmetric] refl bs] by (auto split: if_splits)
qed simp

lemma cleanup_events: "invocations (cleanup n) = 0" "OutputKeep \<notin> set (cleanup n)" "e \<in> set (cleanup n) \<Longrightarrow> \<not> failure e"
  by (induction n) (auto simp: cleanup_def)

text \<open>
  The driver exits with 0 or 1; it keeps the output exactly when it exits with 0,
  and then nothing it did has failed; once the input is open, every one of its sources
  was given an invocation of its own, whatever became of the others.
\<close>

theorem driver_exit_code:
  assumes "runCoralNpuCompileMain C opts = (code, ev)"
  shows "(code = 0 \<or> code = 1) \<and> (code = 0 \<longleftrightarrow> OutputKeep \<in> set ev) \<and> (code = 0 \<longrightarrow> (\<forall>e \<in> set ev. \<not> failure e)) \<and>
    (\<forall>source. co_open_source C = Some source \<and> co_open_output C \<and> (do_split opts \<longrightarrow> snd (co_split C source)) \<longrightarrow>
      invocations ev = (if do_split opts then length (fst (co_split C source)) else 1))"
  using assms
  by (auto simp: runCoralNpuCompileMain_def Let_def cleanup_events split: option.splits prod.splits if_splits
      dest!: processBuffer_events processBuffers_events dest: cleanup_events(3))

text \<open>
  Stopping at the stream phase to take the profile does not change what is
  compiled: the module is the one of the pipeline run in one go, when phases compose
  and the profile pass leaves the module as it is.
\<close>

theorem profile_stop_transparent:
  assumes "\<And>m. Option.bind (co_pipeline C PipelineStd (do_from opts) ''stream'' m) (co_pipeline C PipelineStd ''stream'' ''end'') =
      co_pipeline C PipelineStd (do_from opts) ''end'' m"
    "\<And>m. co_profile C m = Some m"
  shows "fst (compile_std C opts m) = co_pipeline C PipelineStd (do_from opts) (do_to opts) m"
  using assms(1)[of m] assms(2) by (auto simp: compile_std_def Let_def split: option.splits)

text \<open>A start phase after the stream phase is not kept: the second run starts at the stream phase.\<close>

lemma restart_at_stream:
  assumes "do_to opts = ''end''" "co_pipeline C PipelineStd (do_from opts) ''stream'' m = Some m1" "co_profile C m1 = Some m2"
  shows "\<exists>ok. RunPipeline PipelineStd ''stream'' ''end'' ok \<in> set (snd (compile_std C opts m))"
  using assms by (auto simp: compile_std_def Let_def split: option.split)

text \<open>A compiler whose modules are the lists of phases they went through.\<close>

definition phase_number :: "string \<Rightarrow> nat" where
  "phase_number p = (if p = ''end'' then 2 else if p = ''stream'' then 1 else 0)"

definition counting_compiler :: "(nat, nat) compiler" where
  "counting_compiler = \<lparr>co_parse = (\<lambda>s. Some s), co_pipeline = (\<lambda>p a b m. Some (m + (phase_number b - phase_number a))),
     co_profile = Some, co_emit = (\<lambda>e m. m = 7), co_open_source = Some 5, co_open_output = True, co_split = (\<lambda>s. ([s, s], True))\<rparr>"

definition default_options :: driver_options where
  "default_options = \<lparr>do_mode = ModeStd, do_format = VmBytecode, do_from = ''start'', do_to = ''end'', do_mlir_bytecode = False,
     do_bytecode_version = None, do_split = True, do_have_c = False\<rparr>"

lemma driver_exit_code_witness: "invocations (snd (runCoralNpuCompileMain counting_compiler default_options)) = 2"
  using driver_exit_code[of counting_compiler default_options, OF surjective_pairing]
  by (simp add: counting_compiler_def default_options_def)

lemma profile_stop_transparent_witness: "fst (compile_std counting_compiler default_options 5) = Some 7"
  using profile_stop_transparent[of counting_compiler default_options 5]
  by (simp add: counting_compiler_def default_options_def phase_number_def)

end
