(* ===== verification/CompilerOptions.thy ===== *)
theory CompilerOptions
  imports TileWorkgroup AffinityAnnotation AffinityProfile CompileRun CompileDriver
begin

text \<open>
  The options of the compiler and what they reach: the options of the plugin and their
  flags (\<open>CoralNPUOptions\<close> in \<open>compiler/Target/CoralNPUTargetBackend.h\<close>), the device
  and the backend the plugin registers (\<open>compiler/Target/CoralNPUTarget.cpp\<close>), and the
  command line of the driver (\<open>compiler/tools/coralnpu_compile_lib.cc\<close>). LLVM's parsers
  of integers and booleans are the parameter \<open>cl_api\<close>; the tables of flags are the code's.
\<close>

section \<open>The options of the plugin\<close>

record plugin_options = coralnpu_options +
  opt_targetABI :: string
  opt_targetCPUFeatures :: string
  opt_linkEmbedded :: bool
  opt_debugSymbols :: bool
  opt_embeddedLinkerPath :: string

definition plugin_defaults :: plugin_options where
  "plugin_defaults = coralnpu_options.extend coralnpu_defaults
     (plugin_options.fields ''ilp32'' ''+m,+f,+zvl128b,+zve32f'' True False '''')"

datatype binding =
    BindInt "int \<Rightarrow> plugin_options \<Rightarrow> plugin_options"
  | BindString "string \<Rightarrow> plugin_options \<Rightarrow> plugin_options"
  | BindBool "bool \<Rightarrow> plugin_options \<Rightarrow> plugin_options"

definition bindOptions :: "(string \<times> binding) list" where
  "bindOptions = [
     (''coralnpu-target-abi'', BindString (\<lambda>v o1. o1\<lparr>opt_targetABI := v\<rparr>)),
     (''coralnpu-target-cpu-features'', BindString (\<lambda>v o1. o1\<lparr>opt_targetCPUFeatures := v\<rparr>)),
     (''coralnpu-link-embedded'', BindBool (\<lambda>v o1. o1\<lparr>opt_linkEmbedded := v\<rparr>)),
     (''coralnpu-embedded-linker-path'', BindString (\<lambda>v o1. o1\<lparr>opt_embeddedLinkerPath := v\<rparr>)),
     (''coralnpu-debug-symbols'', BindBool (\<lambda>v o1. o1\<lparr>opt_debugSymbols := v\<rparr>)),
     (''coralnpu-dtcm-size-kb'', BindInt (\<lambda>v o1. o1\<lparr>opt_dtcmSizeKb := v\<rparr>)),
     (''coralnpu-num-vector-registers'', BindInt (\<lambda>v o1. o1\<lparr>opt_numVectorRegisters := v\<rparr>)),
     (''coralnpu-tile-vector-alignment'', BindInt (\<lambda>v o1. o1\<lparr>opt_tileVectorAlignment := v\<rparr>)),
     (''coralnpu-tile-unroll-alignment'', BindInt (\<lambda>v o1. o1\<lparr>opt_tileUnrollAlignment := v\<rparr>)),
     (''coralnpu-tile-reduction-alignment'', BindInt (\<lambda>v o1. o1\<lparr>opt_tileReductionAlignment := v\<rparr>)),
     (''coralnpu-tile-parallel-alignment'', BindInt (\<lambda>v o1. o1\<lparr>opt_tileParallelAlignment := v\<rparr>))]"

text \<open>LLVM's parsers of option values, and its treatment of the flags of a command line one by one.\<close>

record cl_api =
  cl_int :: "string \<Rightarrow> int option"
  cl_bool :: "string \<Rightarrow> bool option"

definition set_binding :: "cl_api \<Rightarrow> binding \<Rightarrow> string \<Rightarrow> plugin_options \<Rightarrow> plugin_options option" where
  "set_binding P b v o1 =
     (case b of
        BindInt f \<Rightarrow> map_option (\<lambda>x. f x o1) (cl_int P v)
      | BindString f \<Rightarrow> Some (f v o1)
      | BindBool f \<Rightarrow> map_option (\<lambda>x. f x o1) (cl_bool P v))"

fun set_flags :: "cl_api \<Rightarrow> (string \<times> string) list \<Rightarrow> plugin_options \<Rightarrow> plugin_options option" where
  "set_flags P [] o1 = Some o1"
| "set_flags P ((name, v) # args) o1 =
     (case map_of bindOptions name of
        None \<Rightarrow> None
      | Some b \<Rightarrow> Option.bind (set_binding P b v o1) (set_flags P args))"

section \<open>The device and the backend of the plugin\<close>

record device_target =
  dt_name :: string
  dt_executables :: "(string \<times> string) list"

type_synonym registry = "(string \<rightharpoonup> plugin_options) \<times> (string \<rightharpoonup> plugin_options)"

text \<open>The factories of the devices and of the backends, each holding the options of the session.\<close>

definition register_plugin :: "plugin_options \<Rightarrow> registry \<Rightarrow> registry" where
  "register_plugin o1 reg = (case reg of (devices, backends) \<Rightarrow> (devices(''coralnpu'' \<mapsto> o1), backends(''coralnpu'' \<mapsto> o1)))"

definition target_of_options :: "sanitizer \<Rightarrow> bool \<Rightarrow> plugin_options \<Rightarrow> llvm_target" where
  "target_of_options san ukernel o1 = default_target (opt_linkEmbedded o1) (opt_debugSymbols o1) san ukernel"

definition default_executable_targets :: "(string \<Rightarrow> object_format) \<Rightarrow> (string \<Rightarrow> string) \<Rightarrow> sanitizer \<Rightarrow> bool \<Rightarrow>
    plugin_options \<Rightarrow> (string \<times> string) list" where
  "default_executable_targets object_format_of arch_name san ukernel o1 =
     [(''coralnpu'', executable_format object_format_of arch_name (target_of_options san ukernel o1))]"

text \<open>The device asks the registry for the backend; \<open>None\<close> when there is none.\<close>

definition default_device_target :: "(string \<Rightarrow> object_format) \<Rightarrow> (string \<Rightarrow> string) \<Rightarrow> sanitizer \<Rightarrow> bool \<Rightarrow> registry \<Rightarrow>
    device_target option" where
  "default_device_target object_format_of arch_name san ukernel reg =
     map_option (\<lambda>o1. \<lparr>dt_name = ''coralnpu'', dt_executables = default_executable_targets object_format_of arch_name san ukernel o1\<rparr>)
       (snd reg ''coralnpu'')"

section \<open>The command line of the driver\<close>

definition output_format_values :: "bool \<Rightarrow> (string \<times> output_format) list" where
  "output_format_values have_c =
     [(''vm-bytecode'', VmBytecode)] @ (if have_c then [(''vm-c'', VmC)] else []) @ [(''vm-asm'', VmAsm)]"

definition compile_mode_values :: "(string \<times> compile_mode) list" where
  "compile_mode_values = [(''std'', ModeStd), (''vm'', ModeVm), (''hal-executable'', ModeHalExecutable), (''precompile'', ModePrecompile)]"

definition profile_format_values :: "(string \<times> dump_format) list" where
  "profile_format_values = [(''none'', NoOutput), (''pretty'', Pretty), (''verbose'', Verbose), (''csv'', CSV), (''json'', JSON)]"

text \<open>\<open>BytecodeVersionParser\<close>: a signed decimal of 64 bits, or an error.\<close>

definition parse_bytecode_version :: "llvm_api \<Rightarrow> string \<Rightarrow> int option option" where
  "parse_bytecode_version L arg = map_option Some (getAsInteger10 L arg)"

text \<open>The phases as IREE enumerates them, index and name; an option's value is the index.\<close>

type_synonym phases = "(nat \<times> string) list"

definition phase_option :: "phases \<Rightarrow> string \<Rightarrow> nat option" where
  "phase_option ps name = map_of (map (\<lambda>(p, n). (n, p)) ps) name"

definition phase_name :: "phases \<Rightarrow> nat \<Rightarrow> string option" where
  "phase_name ps p = (if p < length ps then Some (snd (ps ! p)) else None)"

record cli =
  ci_input :: "string option"
  ci_output :: string
  ci_format :: output_format
  ci_mode :: compile_mode
  ci_verify :: bool
  ci_from :: nat
  ci_to :: nat
  ci_dump_to :: string
  ci_mlir_bytecode :: bool
  ci_bytecode_version :: "int option"
  ci_remarks_filter :: string
  ci_remarks_file :: string
  ci_split :: bool
  ci_profile_format :: dump_format
  ci_profile_file :: string

definition cli_defaults :: "nat \<Rightarrow> nat \<Rightarrow> cli" where
  "cli_defaults phase_start phase_end = \<lparr>ci_input = None, ci_output = ''-'', ci_format = VmBytecode, ci_mode = ModeStd,
     ci_verify = True, ci_from = phase_start, ci_to = phase_end, ci_dump_to = '''', ci_mlir_bytecode = False,
     ci_bytecode_version = None, ci_remarks_filter = '''', ci_remarks_file = ''mlir-remarks.yaml'', ci_split = False,
     ci_profile_format = NoOutput, ci_profile_file = ''''\<rparr>"

datatype cli_result = CliExit "string list" | CliError | CliRun cli

text \<open>The tables IREE's two enumerations print.\<close>

record listings =
  target_backends :: "string list"
  loaded_plugins :: "string list"

definition with_value :: "'a option \<Rightarrow> ('a \<Rightarrow> cli) \<Rightarrow> cli_result" where
  "with_value v f = (case v of None \<Rightarrow> CliError | Some x \<Rightarrow> CliRun (f x))"

text \<open>
  One argument as LLVM splits it: the name of the option, empty for the input, and its
  value, empty when none is given.
\<close>

definition set_cli :: "llvm_api \<Rightarrow> cl_api \<Rightarrow> bool \<Rightarrow> phases \<Rightarrow> listings \<Rightarrow> string \<Rightarrow> string \<Rightarrow> cli \<Rightarrow> cli_result" where
  "set_cli L P have_c ps ls name s c =
     (if name = ''iree-hal-list-target-backends'' \<and> s = ''''
      then CliExit (''Registered target backends:'' # map (\<lambda>b. ''  '' @ b) (target_backends ls))
      else if name = ''iree-list-plugins'' \<and> s = ''''
      then CliExit (''Loaded plugins:'' # map (\<lambda>b. ''  '' @ b) (loaded_plugins ls))
      else if name = '''' then CliRun (c\<lparr>ci_input := Some s\<rparr>)
      else if name = ''o'' then CliRun (c\<lparr>ci_output := s\<rparr>)
      else if name = ''output-format'' then with_value (map_of (output_format_values have_c) s) (\<lambda>x. c\<lparr>ci_format := x\<rparr>)
      else if name = ''compile-mode'' then with_value (map_of compile_mode_values s) (\<lambda>x. c\<lparr>ci_mode := x\<rparr>)
      else if name = ''verify'' then with_value (cl_bool P s) (\<lambda>x. c\<lparr>ci_verify := x\<rparr>)
      else if name = ''compile-from'' then with_value (phase_option ps s) (\<lambda>x. c\<lparr>ci_from := x\<rparr>)
      else if name = ''compile-to'' then with_value (phase_option ps s) (\<lambda>x. c\<lparr>ci_to := x\<rparr>)
      else if name = ''dump-compilation-phases-to'' then CliRun (c\<lparr>ci_dump_to := s\<rparr>)
      else if name = ''emit-mlir-bytecode'' then with_value (cl_bool P s) (\<lambda>x. c\<lparr>ci_mlir_bytecode := x\<rparr>)
      else if name = ''emit-mlir-bytecode-version''
        then with_value (parse_bytecode_version L s) (\<lambda>x. c\<lparr>ci_bytecode_version := x\<rparr>)
      else if name = ''remarks-filter'' then CliRun (c\<lparr>ci_remarks_filter := s\<rparr>)
      else if name = ''remarks-output-file'' then CliRun (c\<lparr>ci_remarks_file := s\<rparr>)
      else if name = ''split-input-file'' then with_value (cl_bool P s) (\<lambda>x. c\<lparr>ci_split := x\<rparr>)
      else if name = ''coralnpu-dump-affinity-profile-format''
        then with_value (map_of profile_format_values s) (\<lambda>x. c\<lparr>ci_profile_format := x\<rparr>)
      else if name = ''coralnpu-dump-affinity-profile-file'' then CliRun (c\<lparr>ci_profile_file := s\<rparr>)
      else CliError)"

fun set_args :: "llvm_api \<Rightarrow> cl_api \<Rightarrow> bool \<Rightarrow> phases \<Rightarrow> listings \<Rightarrow> (string \<times> string) list \<Rightarrow> cli \<Rightarrow> cli_result" where
  "set_args L P have_c ps ls [] c = CliRun c"
| "set_args L P have_c ps ls ((name, v) # args) c =
     (case set_cli L P have_c ps ls name v c of
        CliRun c1 \<Rightarrow> set_args L P have_c ps ls args c1
      | r \<Rightarrow> r)"

text \<open>What the run of the driver reads of it; \<open>None\<close> when a phase has no name.\<close>

definition driver_options_of :: "bool \<Rightarrow> phases \<Rightarrow> cli \<Rightarrow> driver_options option" where
  "driver_options_of have_c ps c =
     (case (phase_name ps (ci_from c), phase_name ps (ci_to c)) of
        (Some f, Some t) \<Rightarrow> Some \<lparr>do_mode = ci_mode c, do_format = ci_format c, do_from = f, do_to = t,
          do_mlir_bytecode = ci_mlir_bytecode c, do_bytecode_version = ci_bytecode_version c, do_split = ci_split c,
          do_have_c = have_c\<rparr>
      | _ \<Rightarrow> None)"

section \<open>Flags and the options they bind\<close>

text \<open>
  A flag of the table that sets one option and that no other flag touches: the option
  then has the value of its last occurrence, or the one it had.
\<close>

locale flag =
  fixes P :: cl_api
    and name :: string
    and parse :: "string \<Rightarrow> 'v option"
    and getter :: "plugin_options \<Rightarrow> 'v"
  assumes sets: "map_of bindOptions name = Some b \<Longrightarrow> set_binding P b v o1 = Some o2 \<Longrightarrow> parse v = Some (getter o2)"
    and keeps: "map_of bindOptions other = Some b \<Longrightarrow> other \<noteq> name \<Longrightarrow> set_binding P b v o1 = Some o2 \<Longrightarrow> getter o2 = getter o1"
begin

lemma flag_value:
  "set_flags P args o1 = Some o2 \<Longrightarrow>
    (case map_of (rev args) name of None \<Rightarrow> getter o2 = getter o1 | Some v \<Rightarrow> parse v = Some (getter o2))"
proof (induction args arbitrary: o1)
  case (Cons a args)
  obtain n v where a: "a = (n, v)" by (cases a)
  obtain b o3 where b: "map_of bindOptions n = Some b" and s: "set_binding P b v o1 = Some o3"
    and r: "set_flags P args o3 = Some o2"
    using Cons.prems by (auto simp: a bind_eq_Some_conv split: option.splits)
  note ih = Cons.IH[OF r]
  have m: "map_of (rev (a # args)) name = (case map_of (rev args) name of None \<Rightarrow> if n = name then Some v else None | Some x \<Rightarrow> Some x)"
    by (auto simp: a map_add_def split: option.split)
  show ?case
  proof (cases "map_of (rev args) name")
    case None
    then have e: "getter o2 = getter o3" using ih by simp
    show ?thesis
    proof (cases "n = name")
      case True
      then show ?thesis using sets[OF b[unfolded True] s] None e unfolding m by simp
    next
      case False
      then show ?thesis using keeps[OF b False s] None e unfolding m by simp
    qed
  next
    case (Some x)
    then show ?thesis using ih unfolding m by simp
  qed
qed simp

end

lemmas flag_laws = set_binding_def bindOptions_def

interpretation abi: flag P "''coralnpu-target-abi''" Some opt_targetABI for P
  by unfold_locales (auto simp: flag_laws split: if_splits)

interpretation features: flag P "''coralnpu-target-cpu-features''" Some opt_targetCPUFeatures for P
  by unfold_locales (auto simp: flag_laws split: if_splits)

interpretation embedded: flag P "''coralnpu-link-embedded''" "cl_bool P" opt_linkEmbedded for P
  by unfold_locales (auto simp: flag_laws split: if_splits)

interpretation linker_path: flag P "''coralnpu-embedded-linker-path''" Some opt_embeddedLinkerPath for P
  by unfold_locales (auto simp: flag_laws split: if_splits)

interpretation symbols: flag P "''coralnpu-debug-symbols''" "cl_bool P" opt_debugSymbols for P
  by unfold_locales (auto simp: flag_laws split: if_splits)

interpretation dtcm_kb: flag P "''coralnpu-dtcm-size-kb''" "cl_int P" opt_dtcmSizeKb for P
  by unfold_locales (auto simp: flag_laws split: if_splits)

interpretation registers: flag P "''coralnpu-num-vector-registers''" "cl_int P" opt_numVectorRegisters for P
  by unfold_locales (auto simp: flag_laws split: if_splits)

interpretation vector_al: flag P "''coralnpu-tile-vector-alignment''" "cl_int P" opt_tileVectorAlignment for P
  by unfold_locales (auto simp: flag_laws split: if_splits)

interpretation unroll_al: flag P "''coralnpu-tile-unroll-alignment''" "cl_int P" opt_tileUnrollAlignment for P
  by unfold_locales (auto simp: flag_laws split: if_splits)

interpretation reduction_al: flag P "''coralnpu-tile-reduction-alignment''" "cl_int P" opt_tileReductionAlignment for P
  by unfold_locales (auto simp: flag_laws split: if_splits)

interpretation parallel_al: flag P "''coralnpu-tile-parallel-alignment''" "cl_int P" opt_tileParallelAlignment for P
  by unfold_locales (auto simp: flag_laws split: if_splits)

text \<open>The value a flag leaves: its last occurrence, parsed, or the default.\<close>

definition flag_left :: "(string \<times> string) list \<Rightarrow> string \<Rightarrow> (string \<Rightarrow> 'v option) \<Rightarrow> 'v \<Rightarrow> 'v \<Rightarrow> bool" where
  "flag_left args name parse initial v \<longleftrightarrow>
     (case map_of (rev args) name of None \<Rightarrow> v = initial | Some s \<Rightarrow> parse s = Some v)"

definition int_flags :: "(string \<times> (plugin_options \<Rightarrow> int)) list" where
  "int_flags = [(''coralnpu-dtcm-size-kb'', opt_dtcmSizeKb), (''coralnpu-num-vector-registers'', opt_numVectorRegisters),
     (''coralnpu-tile-vector-alignment'', opt_tileVectorAlignment), (''coralnpu-tile-unroll-alignment'', opt_tileUnrollAlignment),
     (''coralnpu-tile-reduction-alignment'', opt_tileReductionAlignment),
     (''coralnpu-tile-parallel-alignment'', opt_tileParallelAlignment)]"

definition bool_flags :: "(string \<times> (plugin_options \<Rightarrow> bool)) list" where
  "bool_flags = [(''coralnpu-link-embedded'', opt_linkEmbedded), (''coralnpu-debug-symbols'', opt_debugSymbols)]"

definition string_flags :: "(string \<times> (plugin_options \<Rightarrow> string)) list" where
  "string_flags = [(''coralnpu-target-abi'', opt_targetABI), (''coralnpu-target-cpu-features'', opt_targetCPUFeatures),
     (''coralnpu-embedded-linker-path'', opt_embeddedLinkerPath)]"

lemma embedded_format:
  "arch_name ''riscv32'' = ''riscv_32'' \<Longrightarrow>
    is_simulator_format (executable_format object_format_of arch_name (target_of_options san ukernel o1)) \<longleftrightarrow> opt_linkEmbedded o1"
  by (simp add: is_simulator_format_def executable_format_def target_of_options_def default_target_def split: object_format.split)

text \<open>
  C26. The flags of the plugin: every option ends as the value of the last occurrence of
  its own flag, or as its default, and no flag touches another option. The device the
  plugin registers then has one executable target, for the backend \<open>coralnpu\<close>, and
  its format is the one the runtime runs on the simulator exactly when the executable
  is linked embedded.
\<close>

theorem plugin_flags_reach_target:
  assumes "set_flags P args plugin_defaults = Some o1" "arch_name ''riscv32'' = ''riscv_32''"
  shows "(\<forall>(n, g) \<in> set int_flags. flag_left args n (cl_int P) (g plugin_defaults) (g o1)) \<and>
    (\<forall>(n, g) \<in> set bool_flags. flag_left args n (cl_bool P) (g plugin_defaults) (g o1)) \<and>
    (\<forall>(n, g) \<in> set string_flags. flag_left args n Some (g plugin_defaults) (g o1)) \<and>
    set (map fst bindOptions) = set (map fst int_flags) \<union> set (map fst bool_flags) \<union> set (map fst string_flags) \<and>
    (\<exists>fmt. default_device_target object_format_of arch_name san ukernel (register_plugin o1 reg) =
        Some \<lparr>dt_name = ''coralnpu'', dt_executables = [(''coralnpu'', fmt)]\<rparr> \<and>
      (is_simulator_format fmt \<longleftrightarrow> opt_linkEmbedded o1))"
proof (intro conjI)
  note vals = abi.flag_value[OF assms(1)] features.flag_value[OF assms(1)] embedded.flag_value[OF assms(1)]
    linker_path.flag_value[OF assms(1)] symbols.flag_value[OF assms(1)] dtcm_kb.flag_value[OF assms(1)]
    registers.flag_value[OF assms(1)] vector_al.flag_value[OF assms(1)] unroll_al.flag_value[OF assms(1)]
    reduction_al.flag_value[OF assms(1)] parallel_al.flag_value[OF assms(1)]
  show "\<forall>(n, g) \<in> set int_flags. flag_left args n (cl_int P) (g plugin_defaults) (g o1)"
    using vals by (simp add: int_flags_def flag_left_def)
  show "\<forall>(n, g) \<in> set bool_flags. flag_left args n (cl_bool P) (g plugin_defaults) (g o1)"
    using vals by (simp add: bool_flags_def flag_left_def)
  show "\<forall>(n, g) \<in> set string_flags. flag_left args n Some (g plugin_defaults) (g o1)"
    using vals by (simp add: string_flags_def flag_left_def)
  show "set (map fst bindOptions) = set (map fst int_flags) \<union> set (map fst bool_flags) \<union> set (map fst string_flags)"
    by (simp add: bindOptions_def int_flags_def bool_flags_def string_flags_def insert_commute)
  show "\<exists>fmt. default_device_target object_format_of arch_name san ukernel (register_plugin o1 reg) =
        Some \<lparr>dt_name = ''coralnpu'', dt_executables = [(''coralnpu'', fmt)]\<rparr> \<and>
      (is_simulator_format fmt \<longleftrightarrow> opt_linkEmbedded o1)"
    using embedded_format[of arch_name, OF assms(2)]
    by (simp add: default_device_target_def register_plugin_def default_executable_targets_def split: prod.split)
qed

text \<open>The tiling passes see the options the flags left.\<close>

definition configure_tiling :: "llvm_api \<Rightarrow> mlir_api \<Rightarrow> iree_api \<Rightarrow> plugin_options \<Rightarrow> func_op \<Rightarrow> func_op pass_result option" where
  "configure_tiling L M I o1 f = runConfigurationPipeline L M I (coralnpu_options.truncate o1) f"

lemma configure_tiling_options:
  "register_options_of (coralnpu_options.truncate o1) = register_defaults
     \<lparr>numVectorRegisters := opt_numVectorRegisters o1, vectorAlignment := opt_tileVectorAlignment o1,
      unrollAlignment := opt_tileUnrollAlignment o1, reductionAlignment := opt_tileReductionAlignment o1,
      parallelAlignment := opt_tileParallelAlignment o1\<rparr>"
  "opt_dtcmSizeKb (coralnpu_options.truncate o1) = opt_dtcmSizeKb o1"
  by (simp_all add: register_options_of_def coralnpu_options.defs)

text \<open>
  The affinity pass the plugin adds to the preprocessing pipeline, with the threshold of
  its own flag (last value given, 0 without one); \<open>None\<close> when the value does not parse.
\<close>

definition affinity_io_min_threshold :: "cl_api \<Rightarrow> string option \<Rightarrow> int option" where
  "affinity_io_min_threshold P arg = (case arg of None \<Rightarrow> Some 0 | Some v \<Rightarrow> cl_int P v)"

definition extend_preprocessing :: "mlir_api \<Rightarrow> cl_api \<Rightarrow> string option \<Rightarrow> device_analysis \<Rightarrow> module_op list \<Rightarrow>
    module_op list option" where
  "extend_preprocessing M P arg da ops =
     Option.bind (affinity_io_min_threshold P arg) (\<lambda>thr. runAffinityAnnotation M da thr ops)"

lemma preprocessing_places_all:
  assumes "mlir_ok M" "getCoralNPUDeviceAffinityAttr da = Some a"
  shows "extend_preprocessing M P None da ops = Some (map (place M 0 a) ops)"
  using annotate_walk_spec[OF assms(1)] assms(2)
  by (simp add: extend_preprocessing_def affinity_io_min_threshold_def runAffinityAnnotation_def)

section \<open>The command line\<close>

text \<open>A bytecode version that was printed is parsed back, and anything but digits and a sign is an error.\<close>

lemma bytecode_version_roundtrip:
  "llvm_ok L \<Longrightarrow> n < 2 ^ 63 \<Longrightarrow> parse_bytecode_version L (show_nat n) = Some (Some (int n))"
  using show_nat_digits[of n] string_ref_laws(2)[of L "show_nat n"] by (simp add: parse_bytecode_version_def)

lemma bytecode_version_error:
  "llvm_ok L \<Longrightarrow> c \<in> set s \<Longrightarrow> \<not> is_digit c \<Longrightarrow> c \<noteq> CHR ''-'' \<Longrightarrow> parse_bytecode_version L s = None"
  by (simp add: parse_bytecode_version_def string_ref_laws(3))

text \<open>
  IREE enumerates the phases in the order of their values, so the name the driver
  looks up by the value of the option is the name that was given.
\<close>

lemma phase_names:
  assumes "map fst ps = [0..<length ps]" "phase_option ps name = Some p"
  shows "phase_name ps p = Some name"
proof -
  have "(name, p) \<in> set (map (\<lambda>(p, n). (n, p)) ps)" using assms(2) unfolding phase_option_def by (rule map_of_SomeD)
  then obtain i where i: "i < length ps" "ps ! i = (p, name)" by (auto simp: in_set_conv_nth)
  have "fst (ps ! i) = [0..<length ps] ! i" using assms(1) i(1) by (metis nth_map)
  then have "p = i" using i by simp
  then show ?thesis using i by (simp add: phase_name_def)
qed

text \<open>The enumerations of the driver's options have one name for every value.\<close>

lemma option_values_distinct:
  "distinct (map fst (output_format_values have_c))" "distinct (map snd (output_format_values have_c))"
  "distinct (map fst compile_mode_values)" "distinct (map snd compile_mode_values)"
  "distinct (map fst profile_format_values)" "distinct (map snd profile_format_values)"
  by (simp_all add: output_format_values_def compile_mode_values_def profile_format_values_def)

definition plain_cl :: cl_api where
  "plain_cl = \<lparr>cl_int = parse_dec,
     cl_bool = (\<lambda>s. if s = ''true'' \<or> s = '''' then Some True else if s = ''false'' then Some False else None)\<rparr>"

lemma plugin_flags_reach_target_witness:
  "\<exists>o1. set_flags plain_cl [(''coralnpu-dtcm-size-kb'', ''16''), (''coralnpu-link-embedded'', ''false''),
       (''coralnpu-dtcm-size-kb'', ''32'')] plugin_defaults = Some o1 \<and>
     flag_left [(''coralnpu-dtcm-size-kb'', ''16''), (''coralnpu-link-embedded'', ''false''), (''coralnpu-dtcm-size-kb'', ''32'')]
       ''coralnpu-dtcm-size-kb'' parse_dec 8 (opt_dtcmSizeKb o1) \<and> opt_dtcmSizeKb o1 = 32"
proof -
  let ?args = "[(''coralnpu-dtcm-size-kb'', ''16''), (''coralnpu-link-embedded'', ''false''), (''coralnpu-dtcm-size-kb'', ''32'')]"
  have p: "parse_dec ''16'' = Some 16" "parse_dec ''32'' = Some 32" by code_simp+
  obtain o1 where o1: "set_flags plain_cl ?args plugin_defaults = Some o1"
    by (simp add: bindOptions_def set_binding_def plain_cl_def p)
  have c: "cl_int plain_cl = parse_dec" by (simp add: plain_cl_def)
  have d: "opt_dtcmSizeKb plugin_defaults = 8"
    by (simp add: plugin_defaults_def coralnpu_options.defs coralnpu_defaults_def)
  have "flag_left ?args ''coralnpu-dtcm-size-kb'' parse_dec 8 (opt_dtcmSizeKb o1)"
    using plugin_flags_reach_target[where arch_name = "\<lambda>_. ''riscv_32''", OF o1] by (simp add: int_flags_def c d)
  then show ?thesis using o1 p by (intro exI[of _ o1]) (simp add: flag_left_def)
qed

end
