(* ===== verification/SerializeDumps.thy ===== *)
theory SerializeDumps
  imports CompileRun "HOL-Library.Sublist"
begin

text \<open>
  Serialization with the dumps of intermediate files and binaries
  (\<open>compiler/Target/CoralNPUTargetBackend.cpp\<close>): which files are written, in which
  order, up to the step that fails. LLVM's printers and its assembly emission are the
  record \<open>dumper\<close>; a path that is empty turns its dumps off.
\<close>

section \<open>Dumps\<close>

record dumper =
  dp_text :: "llvm_module \<Rightarrow> 8 word list"
  dp_bitcode :: "llvm_module \<Rightarrow> 8 word list"
  dp_assembly :: "llvm_module \<Rightarrow> 8 word list option"
  dp_intermediates :: string
  dp_binaries :: string
  dp_base :: string

record dump =
  du_path :: string
  du_base :: string
  du_suffix :: string
  du_extension :: string
  du_data :: "8 word list"

definition dumpLLVMModuleToPath :: "dumper \<Rightarrow> string \<Rightarrow> string \<Rightarrow> string \<Rightarrow> string \<Rightarrow> llvm_module \<Rightarrow> dump list" where
  "dumpLLVMModuleToPath D path baseName name extPrefix m =
     [\<lparr>du_path = path, du_base = baseName, du_suffix = name, du_extension = extPrefix @ ''.ll'', du_data = dp_text D m\<rparr>,
      \<lparr>du_path = path, du_base = baseName, du_suffix = name, du_extension = extPrefix @ ''.bc'', du_data = dp_bitcode D m\<rparr>]"

definition dump_module :: "dumper \<Rightarrow> variant \<Rightarrow> string \<Rightarrow> llvm_module \<Rightarrow> dump list" where
  "dump_module D v extPrefix m =
     (if dp_intermediates D \<noteq> '''' then dumpLLVMModuleToPath D (dp_intermediates D) (dp_base D) (va_name v) extPrefix m else [])"

definition dump_data :: "dumper \<Rightarrow> variant \<Rightarrow> string \<Rightarrow> 8 word list \<Rightarrow> dump list" where
  "dump_data D v ext bytes =
     (if dp_intermediates D \<noteq> ''''
      then [\<lparr>du_path = dp_intermediates D, du_base = dp_base D, du_suffix = va_name v, du_extension = ext, du_data = bytes\<rparr>] else [])"

text \<open>The extension of a dumped library, \<open>.so\<close> for every embedded one.\<close>

definition library_extension :: "backend \<Rightarrow> llvm_target \<Rightarrow> string \<Rightarrow> string" where
  "library_extension B t triple =
     (if tg_link_embedded t then ''.so''
      else case bk_object_format B triple of
        COFF \<Rightarrow> ''.dll'' | ELF \<Rightarrow> ''.so'' | MachO \<Rightarrow> ''.dylib'' | Wasm \<Rightarrow> ''.wasm'' | OtherFormat \<Rightarrow> '''')"

definition dump_binary :: "dumper \<Rightarrow> backend \<Rightarrow> llvm_target \<Rightarrow> string \<Rightarrow> variant \<Rightarrow> binary \<Rightarrow> dump list" where
  "dump_binary D B t triple v b =
     (if dp_binaries D \<noteq> ''''
      then [\<lparr>du_path = dp_binaries D, du_base = dp_base D, du_suffix = va_name v,
             du_extension = library_extension B t triple, du_data = bi_data b\<rparr>] else [])"

section \<open>The stages of the module\<close>

definition codegen_module :: "backend \<Rightarrow> nat \<Rightarrow> llvm_target \<Rightarrow> string \<times> string \<Rightarrow> variant \<Rightarrow> error + llvm_module" where
  "codegen_module B debugLevel t machine v =
     (case machine of (triple, layout) \<Rightarrow>
       check TranslationFailed (bk_translate B v (va_library v)) (\<lambda>m0.
         case configure_linker B triple t (query_function_name t (va_library v)) (fst (build_module B debugLevel t v m0)) of
           Inl e \<Rightarrow> Inl e
         | Inr m2 \<Rightarrow> Inr (m2\<lparr>lm_layout := layout, lm_triple := triple\<rparr>)))"

definition linked_module :: "backend \<Rightarrow> llvm_target \<Rightarrow> variant \<Rightarrow> llvm_module \<Rightarrow> error + llvm_module" where
  "linked_module B t v m =
     (case link_bitcode B t v m of Inl e \<Rightarrow> Inl e | Inr m3 \<Rightarrow> Inr (m3\<lparr>lm_ident := map_option (\<lambda>_. []) (lm_ident m3)\<rparr>))"

definition visible_module :: "backend \<Rightarrow> llvm_target \<Rightarrow> variant \<Rightarrow> llvm_module \<Rightarrow> error + llvm_module" where
  "visible_module B t v m =
     check PassesFailed (bk_passes B t m) (\<lambda>m4. Inr (fixupVisibility [query_function_name t (va_library v)] m4))"

section \<open>Serialization\<close>

datatype dump_error = Serialization error | AssemblyEmitFailed

type_synonym 'a dumped = "(dump_error + 'a) \<times> dump list"

definition then_dump :: "error + 'a \<Rightarrow> ('a \<Rightarrow> dump list) \<Rightarrow> ('a \<Rightarrow> 'b dumped) \<Rightarrow> 'b dumped" where
  "then_dump r d f =
     (case r of Inl e \<Rightarrow> (Inl (Serialization e), []) | Inr x \<Rightarrow> (case f x of (r1, ds) \<Rightarrow> (r1, d x @ ds)))"

definition serialize_target :: "backend \<Rightarrow> variant \<Rightarrow> error + (llvm_target \<times> string \<times> string)" where
  "serialize_target B v =
     check NoTarget (bk_variant_target B v) (\<lambda>t.
     guard StaticAndEmbedded (\<not> (tg_link_embedded t \<and> tg_link_static t))
     (check NoTargetMachine (bk_machine B t) (\<lambda>machine. Inr (t, machine))))"

text \<open>From the object file to the binary.\<close>

definition serialize_objects :: "backend \<Rightarrow> link_env \<Rightarrow> llvm_target \<Rightarrow> string \<Rightarrow> variant \<Rightarrow> 8 word list \<Rightarrow> files \<Rightarrow> error + binary" where
  "serialize_objects B E t triple v objectData fs =
     (let first = create_temporary E (va_library v) ''o''; fs1 = fs(first \<mapsto> objectData) in
      case object_files B first 0 (bk_filter_objects B (va_objects v) [''.o'', ''.obj'', ''.a'', ''.lib'']) fs1 of
        Inl e \<Rightarrow> Inl e
      | Inr (others, fs2) \<Rightarrow>
          if tg_link_static t
          then serializeStaticLibraryExecutable B v (query_function_name t (va_library v)) (first # others) fs2
          else serializeDynamicLibraryExecutable B E t v triple (first # others) fs2)"

text \<open>The object file exists before the assembly is emitted, and the assembly only for its dump.\<close>

definition dump_assembly :: "dumper \<Rightarrow> variant \<Rightarrow> llvm_module \<Rightarrow> 'b dumped \<Rightarrow> 'b dumped" where
  "dump_assembly D v m k =
     (if dp_intermediates D = '''' then k
      else case dp_assembly D m of
        None \<Rightarrow> (Inl AssemblyEmitFailed, [])
      | Some asmData \<Rightarrow> (case k of (r1, ds) \<Rightarrow> (r1, dump_data D v ''.s'' asmData @ ds)))"

definition serializeExecutable_dumping :: "dumper \<Rightarrow> backend \<Rightarrow> link_env \<Rightarrow> nat \<Rightarrow> variant \<Rightarrow> files \<Rightarrow> binary dumped" where
  "serializeExecutable_dumping D B E debugLevel v fs =
     then_dump (serialize_target B v) (\<lambda>_. []) (\<lambda>(t, machine).
     then_dump (codegen_module B debugLevel t machine v) (dump_module D v ''.codegen'') (\<lambda>m1.
     then_dump (linked_module B t v m1) (dump_module D v ''.linked'') (\<lambda>m2.
     then_dump (visible_module B t v m2) (dump_module D v ''.optimized'') (\<lambda>m.
     then_dump (check ObjectEmitFailed (bk_emit B m) Inr) (dump_data D v ''.o'') (\<lambda>objectData.
       dump_assembly D v m
         (then_dump (serialize_objects B E t (fst machine) v objectData fs)
           (\<lambda>b. if tg_link_static t then [] else dump_binary D B t (fst machine) v b) (\<lambda>b. (Inr b, []))))))))"

section \<open>Lemmas\<close>

text \<open>The stages compose to the module of the serialization without dumps.\<close>

lemma optimized_stages:
  "optimized_module B debugLevel t machine v =
     (case codegen_module B debugLevel t machine v of Inl e \<Rightarrow> Inl e
      | Inr m1 \<Rightarrow> case linked_module B t v m1 of Inl e \<Rightarrow> Inl e
      | Inr m2 \<Rightarrow> visible_module B t v m2)"
  by (simp add: optimized_module_def codegen_module_def linked_module_def visible_module_def check_def Let_def
      split: prod.split option.split sum.split)

lemma serialize_stages:
  "serializeExecutable B E debugLevel v fs =
     (case serialize_target B v of Inl e \<Rightarrow> Inl e
      | Inr (t, machine) \<Rightarrow> case optimized_module B debugLevel t machine v of Inl e \<Rightarrow> Inl e
      | Inr m \<Rightarrow> check ObjectEmitFailed (bk_emit B m) (\<lambda>objectData. serialize_objects B E t (fst machine) v objectData fs))"
  by (simp add: serializeExecutable_def serialize_target_def serialize_objects_def check_def guard_def Let_def split: option.split sum.split)

definition dump_order :: "string list" where
  "dump_order = [''.codegen.ll'', ''.codegen.bc'', ''.linked.ll'', ''.linked.bc'', ''.optimized.ll'', ''.optimized.bc'', ''.o'', ''.s'']"

text \<open>The dumps of the intermediate files of a whole run, with what is in them.\<close>

definition run_dumps :: "dumper \<Rightarrow> variant \<Rightarrow> llvm_module \<Rightarrow> llvm_module \<Rightarrow> llvm_module \<Rightarrow> 8 word list \<Rightarrow> dump list" where
  "run_dumps D v m1 m2 m objectData =
     dump_module D v ''.codegen'' m1 @ dump_module D v ''.linked'' m2 @ dump_module D v ''.optimized'' m @
     dump_data D v ''.o'' objectData @ (case dp_assembly D m of None \<Rightarrow> [] | Some a \<Rightarrow> dump_data D v ''.s'' a)"

lemma dump_extensions:
  "map du_extension (dump_module D v p m) = (if dp_intermediates D = '''' then [] else [p @ ''.ll'', p @ ''.bc''])"
  "map du_extension (dump_data D v p x) = (if dp_intermediates D = '''' then [] else [p])"
  by (simp_all add: dump_module_def dumpLLVMModuleToPath_def dump_data_def)

text \<open>One stage: its result, its dumps in order, and a success.\<close>

lemma then_dump_fst: "fst (then_dump r d f) = (case r of Inl e \<Rightarrow> Inl (Serialization e) | Inr x \<Rightarrow> fst (f x))"
  by (simp add: then_dump_def split: sum.split prod.split)

lemma then_dump_order:
  assumes "\<And>x. r = Inr x \<Longrightarrow> map du_extension (d x) = es" "\<And>x. r = Inr x \<Longrightarrow> prefix (map du_extension (snd (f x))) fs"
  shows "prefix (map du_extension (snd (then_dump r d f))) (es @ fs)"
  using assms by (cases r) (auto simp: then_dump_def split: prod.split)

lemma then_dump_ok: "then_dump r d f = (Inr y, ds) \<longleftrightarrow> (\<exists>x ds1. r = Inr x \<and> f x = (Inr y, ds1) \<and> ds = d x @ ds1)"
  by (auto simp: then_dump_def split: sum.split prod.split)

lemma dump_assembly_ok:
  "dump_assembly D v m k = (Inr y, ds) \<longleftrightarrow> (dp_intermediates D = '''' \<or> dp_assembly D m \<noteq> None) \<and>
     (\<exists>ds1. k = (Inr y, ds1) \<and> ds = (case dp_assembly D m of None \<Rightarrow> [] | Some a \<Rightarrow> dump_data D v ''.s'' a) @ ds1)"
  by (auto simp: dump_assembly_def dump_data_def split: option.split prod.split)

lemma dump_assembly_order:
  "dp_intermediates D \<noteq> '''' \<Longrightarrow> prefix (map du_extension (snd k)) es \<Longrightarrow>
    prefix (map du_extension (snd (dump_assembly D v m k))) ([''.s''] @ es)"
  by (auto simp: dump_assembly_def dump_data_def split: option.split prod.split)

lemma dumping_result:
  assumes "dp_intermediates D = '''' \<or> (\<forall>m. dp_assembly D m \<noteq> None)"
  shows "fst (serializeExecutable_dumping D B E debugLevel v fs) = map_sum Serialization id (serializeExecutable B E debugLevel v fs)"
proof -
  have a: "fst (dump_assembly D v m k) = fst k" for m and k :: "binary dumped"
  proof -
    have "dp_intermediates D = [] \<or> dp_assembly D m \<noteq> None" using assms by blast
    then show ?thesis by (auto simp: dump_assembly_def split: prod.split)
  qed
  show ?thesis
    by (simp add: serializeExecutable_dumping_def then_dump_fst a serialize_stages optimized_stages check_def
        split: sum.split prod.split option.split)
qed

lemma dumping_order:
  assumes "dp_intermediates D \<noteq> []" "serialize_target B v = Inr (t, machine)"
  shows "prefix (map du_extension (snd (serializeExecutable_dumping D B E debugLevel v fs)))
    (dump_order @ [library_extension B t (fst machine)])"
proof -
  have order: "dump_order @ [x] = [] @ [''.codegen'' @ ''.ll'', ''.codegen'' @ ''.bc''] @ [''.linked'' @ ''.ll'', ''.linked'' @ ''.bc''] @
      [''.optimized'' @ ''.ll'', ''.optimized'' @ ''.bc''] @ [''.o''] @ [''.s''] @ [x]" for x
    by (simp add: dump_order_def)
  have tail: "prefix (map du_extension (snd (then_dump r (\<lambda>b. if tg_link_static t then [] else dump_binary D B t (fst machine) v b)
      (\<lambda>b. (Inr b, []))))) [library_extension B t (fst machine)]" for r :: "error + binary"
    by (simp add: then_dump_def dump_binary_def split: sum.split)
  note ext = dump_extensions[of D v, unfolded if_not_P[OF assms(1)]]
  show ?thesis unfolding serializeExecutable_dumping_def order assms(2)
    by (intro then_dump_order)
      (auto simp: ext intro!: then_dump_order dump_assembly_order[OF assms(1)] tail simp del: append.simps)
qed

lemma dumping_ok:
  assumes "serializeExecutable_dumping D B E debugLevel v fs = (Inr b, ds)"
  obtains t machine m1 m2 m objectData where "serialize_target B v = Inr (t, machine)"
    "codegen_module B debugLevel t machine v = Inr m1" "linked_module B t v m1 = Inr m2" "visible_module B t v m2 = Inr m"
    "bk_emit B m = Some objectData" "serialize_objects B E t (fst machine) v objectData fs = Inr b"
    "ds = run_dumps D v m1 m2 m objectData @ (if tg_link_static t then [] else dump_binary D B t (fst machine) v b)"
  using assms by (auto simp: serializeExecutable_dumping_def then_dump_ok dump_assembly_ok check_Inr run_dumps_def)

section \<open>Properties\<close>


definition small_dumper :: dumper where
  "small_dumper = \<lparr>dp_text = (\<lambda>m. [1]), dp_bitcode = (\<lambda>m. [2]), dp_assembly = (\<lambda>m. Some [3]), dp_intermediates = ''out'',
     dp_binaries = ''out'', dp_base = ''module''\<rparr>"


end
