(* ===== verification/PjrtClient.thy ===== *)
theory PjrtClient
  imports CompilerOptions DeviceOps
begin

text \<open>
  The client of the PJRT plugin (\<open>pjrt_plugin/client.cc\<close>): the objects it creates for
  a driver, with the reference counts of \<open>DriverObjects\<close>, their release by its
  destructor, and the flags it gives to the compiler. What IREE creates is an argument,
  \<open>None\<close> for a step that fails.
\<close>

section \<open>The client\<close>

record client =
  pc_plugin_manager :: "obj option"
  pc_loader :: "obj option"
  pc_allocator :: "obj option"

definition client_new :: client where
  "client_new = \<lparr>pc_plugin_manager = None, pc_loader = None, pc_allocator = None\<rparr>"

definition client_destroy :: "client \<Rightarrow> counts \<Rightarrow> counts option" where
  "client_destroy cl c =
     Option.bind (release_opt (pc_allocator cl) c) (\<lambda>c1.
     Option.bind (release_opt (pc_loader cl) c1) (release_opt (pc_plugin_manager cl)))"

text \<open>A creation that fails leaves \<open>NULL\<close> in its field.\<close>

definition initialize_deps :: "obj option \<Rightarrow> obj option \<Rightarrow> obj option \<Rightarrow> status_code \<Rightarrow> client \<Rightarrow> counts \<Rightarrow>
    unit status \<times> client \<times> counts" where
  "initialize_deps plugin_manager loader heap_allocator iree_error cl c =
     (let cl1 = cl\<lparr>pc_plugin_manager := plugin_manager\<rparr>; c1 = retain_opt plugin_manager c in
      if plugin_manager = None then (ErrS iree_error, cl1, c1)
      else let cl2 = cl1\<lparr>pc_loader := loader\<rparr>; c2 = retain_opt loader c1 in
      if loader = None then (ErrS iree_error, cl2, c2)
      else let cl3 = cl2\<lparr>pc_allocator := heap_allocator\<rparr>; c3 = retain_opt heap_allocator c2 in
      if heap_allocator = None then (ErrS iree_error, cl3, c3) else (OkS (), cl3, c3))"

definition create_driver :: "obj option \<Rightarrow> obj option \<Rightarrow> obj option \<Rightarrow> status_code \<Rightarrow> bool \<Rightarrow> client \<Rightarrow> counts \<Rightarrow>
    driver status \<times> client \<times> counts" where
  "create_driver plugin_manager loader heap_allocator iree_error alloc_ok cl c =
     (case initialize_deps plugin_manager loader heap_allocator iree_error cl c of
        (OkS _, cl1, c1) \<Rightarrow>
          (case (pc_loader cl1, pc_allocator cl1) of
             (Some l, Some a) \<Rightarrow>
               (case driver_create alloc_ok ''coralnpu'' (arena_block_size device_params_initialize) [l] a c1 of
                  (r, c2) \<Rightarrow> (r, cl1, c2))
           | _ \<Rightarrow> (TrapS, cl1, c1))
      | (ErrS e, cl1, c1) \<Rightarrow> (ErrS e, cl1, c1)
      | (TrapS, cl1, c1) \<Rightarrow> (TrapS, cl1, c1))"

section \<open>The flags of a compilation\<close>

text \<open>Flags are set until one is refused.\<close>

fun set_job_flags :: "(string \<Rightarrow> 'j \<Rightarrow> bool \<times> 'j) \<Rightarrow> string list \<Rightarrow> 'j \<Rightarrow> bool \<times> 'j" where
  "set_job_flags set_flag [] job = (True, job)"
| "set_job_flags set_flag (f # fs) job =
     (case set_flag f job of (ok, job1) \<Rightarrow> if ok then set_job_flags set_flag fs job1 else (False, job1))"

definition pjrt_features :: string where
  "pjrt_features = ''+m,+a,+f,+d,+v,+zve32f,+zvl128b,+zvtbase,+zvt8e,+zvt16e,+zvti8i32mm,+zvtf16f32mm,+zvtf32f32mm''"

definition set_default_compiler_flags :: "(string \<Rightarrow> 'j \<Rightarrow> bool \<times> 'j) \<Rightarrow> 'j \<Rightarrow> bool \<times> 'j" where
  "set_default_compiler_flags set_flag job =
     set_job_flags set_flag [''--iree-hal-target-device=coralnpu'', ''--coralnpu-target-abi=ilp32'',
       ''--coralnpu-target-cpu-features='' @ pjrt_features] job"

section \<open>Lemmas\<close>

definition opt_list :: "obj option \<Rightarrow> obj list" where
  "opt_list r = (case r of None \<Rightarrow> [] | Some x \<Rightarrow> [x])"

definition client_parts :: "client \<Rightarrow> obj list" where
  "client_parts cl = opt_list (pc_allocator cl) @ opt_list (pc_loader cl) @ opt_list (pc_plugin_manager cl)"

lemma release_opt_list: "release_opt r = release_all (opt_list r)"
  by (rule ext) (auto simp: release_opt_def opt_list_def split: option.split Option.bind_splits)

lemma retain_opt_list: "retain_opt r c = add_refs (opt_list r) c"
  by (simp add: opt_list_def retain_opt_add)

lemma opt_list_None: "opt_list None = []"
  by (simp add: opt_list_def)

lemma client_destroy_parts: "client_destroy cl (add_refs (client_parts cl) c) = Some c"
proof -
  have "release_all (xs @ ys) = (\<lambda>c. Option.bind (release_all xs c) (release_all ys))" for xs ys
    by (rule ext) (rule release_all_append)
  then have "client_destroy cl c1 = release_all (client_parts cl) c1" for c1
    by (simp add: client_destroy_def client_parts_def release_opt_list)
  then show ?thesis by (simp add: release_all_add)
qed

text \<open>On any outcome the client owns what it created, beside what its fields held before.\<close>

lemma initialize_deps_parts:
  assumes "initialize_deps pm ld al e client_new c = (r, cl1, c1)"
  shows "c1 = add_refs (client_parts cl1) c" "r \<noteq> TrapS" "r = OkS u \<Longrightarrow> pc_loader cl1 = ld \<and> pc_allocator cl1 = al \<and> ld \<noteq> None \<and> al \<noteq> None"
proof -
  have "c1 = add_refs (client_parts cl1) c \<and> r \<noteq> TrapS \<and>
      (r = OkS u \<longrightarrow> pc_loader cl1 = ld \<and> pc_allocator cl1 = al \<and> ld \<noteq> None \<and> al \<noteq> None)"
    using assms
    by (cases "pm = None"; cases "ld = None"; cases "al = None")
      (auto simp: initialize_deps_def Let_def client_new_def client_parts_def retain_opt_list opt_list_None
        add_refs_append add_refs_def add.assoc add.commute add.left_commute intro!: ext)
  then show "c1 = add_refs (client_parts cl1) c" "r \<noteq> TrapS"
    "r = OkS u \<Longrightarrow> pc_loader cl1 = ld \<and> pc_allocator cl1 = al \<and> ld \<noteq> None \<and> al \<noteq> None" by simp_all
qed

section \<open>Properties\<close>

text \<open>
  A client that creates its driver once leaks nothing: whatever step fails, the
  destructor of the client, and of the driver when there is one, in either order,
  release every reference they hold and leave all counts as they were. The driver has
  the default arena block size, so its device can be created.
\<close>

theorem client_references_balanced:
  assumes "create_driver pm ld al e alloc_ok client_new c = (r, cl1, c1)"
  shows "(\<exists>e1. r = ErrS e1 \<and> client_destroy cl1 c1 = Some c) \<or>
    (\<exists>d c2 c3. r = OkS d \<and> client_destroy cl1 c1 = Some c2 \<and> driver_destroy d c2 = Some c \<and>
       driver_destroy d c1 = Some c3 \<and> client_destroy cl1 c3 = Some c \<and>
       device_check_params (dr_arena_block_size d) = OkS ())"
proof -
  obtain s cl2 c2 where i: "initialize_deps pm ld al e client_new c = (s, cl2, c2)" by (metis prod_cases3)
  note p = initialize_deps_parts[OF i]
  show ?thesis
  proof (cases s)
    case (OkS u)
    obtain l a where la: "pc_loader cl2 = Some l" "pc_allocator cl2 = Some a" using p(3)[OF OkS] by auto
    obtain r2 c3 where d: "driver_create alloc_ok ''coralnpu'' (arena_block_size device_params_initialize) [l] a c2 = (r2, c3)"
      by fastforce
    have eq: "r = r2" "cl1 = cl2" "c1 = c3" using assms by (simp_all add: create_driver_def i OkS la d)
    from driver.outcome[OF d] show ?thesis
    proof (elim disjE exE conjE)
      fix d1 assume r2: "r2 = OkS d1" and c3: "c3 = add_refs (driver_parts d1) c2"
      have "dr_arena_block_size d1 = 32 * 1024"
        using d by (auto simp: driver_create_def r2 device_params_initialize_def split: if_splits)
      then show ?thesis
        using client_destroy_parts[of cl2 c] client_destroy_parts[of cl2 "add_refs (driver_parts d1) c"]
          driver.destroy_parts[of d1 c] driver.destroy_parts[of d1 "add_refs (client_parts cl2) c"]
          add_refs_commute[of "driver_parts d1" "client_parts cl2" c]
        by (simp add: eq r2 c3 p(1) device_check_params_def)
    next
      fix e1 assume "r2 = ErrS e1" "c3 = c2"
      then show ?thesis using client_destroy_parts[of cl2 c] by (simp add: eq p(1))
    qed
  next
    case (ErrS e1)
    then have "r = ErrS e1" "cl1 = cl2" "c1 = c2" using assms by (simp_all add: create_driver_def i)
    then show ?thesis using client_destroy_parts[of cl2 c] p(1) by simp
  next
    case TrapS
    then show ?thesis using p(2) by simp
  qed
qed

text \<open>
  A second call on the same client overwrites the fields of the first: the
  references of the first call are never released.
\<close>

lemma second_call_leaks:
  assumes "initialize_deps (Some p) (Some l) (Some a) e client_new c = (OkS (), cl1, c1)"
    "initialize_deps (Some p2) (Some l2) (Some a2) e cl1 c1 = (OkS (), cl2, c2)"
  shows "client_destroy cl2 c2 = Some (add_refs (client_parts cl1) c)"
proof -
  have "c2 = add_refs (client_parts cl2) c1" "c1 = add_refs (client_parts cl1) c"
    using assms by (auto simp: initialize_deps_def Let_def client_new_def client_parts_def retain_opt_list add_refs_append
        add_refs_def add.assoc intro!: ext)
  then show ?thesis by (simp add: client_destroy_parts)
qed

text \<open>
  The two flags of the plugin among those of a job are flags of its table; they leave
  every option but the features as it is by default.
\<close>

lemma pjrt_flags_set:
  "set_flags P [(''coralnpu-target-abi'', ''ilp32''), (''coralnpu-target-cpu-features'', pjrt_features)] plugin_defaults =
     Some (plugin_defaults\<lparr>opt_targetCPUFeatures := pjrt_features\<rparr>)"
  by (simp add: bindOptions_def set_binding_def plugin_defaults_def coralnpu_options.defs plugin_options.defs coralnpu_defaults_def)

text \<open>With these features, as with the default ones, the tiling passes compute vectors of 128 bits.\<close>

lemma pjrt_vlen:
  assumes "llvm_ok L" "fn_target f = Some t" "tgt_config t = Some c" "cfg_cpu_features c = Some pjrt_features"
  shows "getVlenFromTargetFeatures L f = Some 128"
proof -
  have s: "pjrt_features = ''+m,+a,+f,+d,+v,+zve32f,'' @ ''+zvl'' @ ''128'' @ ''b'' @
      '',+zvtbase,+zvt8e,+zvt16e,+zvti8i32mm,+zvtf16f32mm,+zvtf32f32mm''" by (simp add: pjrt_features_def)
  have "find_sub pjrt_features ''+zvl'' = Some (length ''+m,+a,+f,+d,+v,+zve32f,'')" by code_simp
  moreover have "list_all is_digit ''128''" "dec_value 0 ''128'' = 128" by code_simp+
  ultimately show ?thesis
    using getVlen_first_zvl[OF assms(1-3), of "''+m,+a,+f,+d,+v,+zve32f,''" "''128''"
        "'',+zvtbase,+zvt8e,+zvt16e,+zvti8i32mm,+zvtf16f32mm,+zvtf32f32mm''"] assms(4)
    by (simp add: s)
qed

text \<open>The job gets the flags in order, and none after one it refuses.\<close>

lemma set_job_flags_all:
  "set_job_flags set_flag fs job = (True, job1) \<Longrightarrow> job1 = fold (\<lambda>f j. snd (set_flag f j)) fs job"
  by (induction fs arbitrary: job) (auto split: prod.splits if_splits)

lemma client_references_balanced_witness:
  "\<exists>cl1 c1 d c2. create_driver (Some 1) (Some 2) (Some 3) INTERNAL True client_new (\<lambda>x. 0) = (OkS d, cl1, c1) \<and>
    client_destroy cl1 c1 = Some c2 \<and> driver_destroy d c2 = Some (\<lambda>x. 0)"
proof -
  obtain d cl1 c1 where r: "create_driver (Some 1) (Some 2) (Some 3) INTERNAL True client_new (\<lambda>x. 0) = (OkS d, cl1, c1)"
    by (simp add: create_driver_def initialize_deps_def Let_def client_new_def driver_create_def)
  from client_references_balanced[OF r] r show ?thesis by auto
qed

end
