(* ===== verification/CheckSession.thy ===== *)
theory CheckSession
  imports CheckGen
begin

text \<open>
  The compiler session of the test generator (\<open>initCompiler\<close> and its helpers in
  \<open>tools/check_gen/CompileUtils.cpp\<close>, \<open>tools/check_gen/main.cpp\<close>): a run of \<open>main\<close> as
  the trace of its calls on IREE's compiler, with the states that allow them. The
  generator's objects live inside the session that made their context.
\<close>

section \<open>Calls\<close>

datatype session_call =
    GlobalInitialize
  | SetupGlobalCL
  | SessionCreate
  | SessionSetFlags "string list"
  | ErrorDestroy
  | BorrowContext
  | LoadDialect string
  | SessionDestroy
  | GeneratorScope
  | GeneratorRun
  | GeneratorEnd
  | GlobalShutdown

text \<open>\<open>checkError\<close>: an error is printed and destroyed.\<close>

definition checkError :: "string option \<Rightarrow> bool \<times> session_call list" where
  "checkError error = (case error of None \<Rightarrow> (False, []) | Some msg \<Rightarrow> (True, [ErrorDestroy]))"

definition compiler_flags :: "string list" where
  "compiler_flags = [''--iree-hal-target-backends=vmvx'']"

text \<open>\<open>initCompiler\<close>: whether there is a session, from the error of its flags and from its context.\<close>

definition initCompiler :: "string option \<Rightarrow> bool \<Rightarrow> bool \<times> session_call list" where
  "initCompiler flags_error has_context =
     (case checkError flags_error of
        (True, cs) \<Rightarrow> (False, [SessionCreate, SessionSetFlags compiler_flags] @ cs @ [SessionDestroy])
      | (False, cs) \<Rightarrow>
          if \<not> has_context then (False, [SessionCreate, SessionSetFlags compiler_flags] @ cs @ [BorrowContext, SessionDestroy])
          else (True, [SessionCreate, SessionSetFlags compiler_flags] @ cs @
            [BorrowContext, LoadDialect ''func'', LoadDialect ''tensor'', LoadDialect ''linalg'']))"

text \<open>\<open>writeModuleToFile\<close>: a file that opens is printed to and kept.\<close>

definition writeModuleToFile :: "(string \<Rightarrow> bool) \<Rightarrow> 'm \<Rightarrow> string \<Rightarrow> (string \<times> 'm) list \<Rightarrow> bool \<times> (string \<times> 'm) list" where
  "writeModuleToFile openOutputFile m path files =
     (if \<not> openOutputFile path then (False, files) else (True, files @ [(path, m)]))"

definition check_gen_calls :: "'b check_api \<Rightarrow> bool \<Rightarrow> string option \<Rightarrow> bool \<Rightarrow> check_args \<Rightarrow> (int \<times> session_call list) option" where
  "check_gen_calls A mkdirs flags_error has_context args =
     (if \<not> mkdirs then Some (1, [GlobalInitialize, SetupGlobalCL, GlobalShutdown])
      else case parseAllInstances (ck_text A) (ca_instancesRaw args) of
        None \<Rightarrow> None
      | Some instances \<Rightarrow>
          if instances = [] then Some (2, [GlobalInitialize, SetupGlobalCL, GlobalShutdown])
          else if ca_inputFilenames args = [] then Some (2, [GlobalInitialize, SetupGlobalCL, GlobalShutdown])
          else case initCompiler flags_error has_context of
            (False, cs) \<Rightarrow> Some (1, [GlobalInitialize, SetupGlobalCL] @ cs @ [GlobalShutdown])
          | (True, cs) \<Rightarrow>
              (case run A \<lparr>cc_instances = instances, cc_inputFiles = ca_inputFilenames args, cc_outputDir = ca_outputDir args,
                          cc_defaultGenPath = ca_defaultGen args\<rparr> empty_state of
                 (success, st) \<Rightarrow> Some (if success then 0 else 1,
                   [GlobalInitialize, SetupGlobalCL] @ cs @ [GeneratorScope, GeneratorRun, GeneratorEnd, SessionDestroy, GlobalShutdown])))"

section \<open>What the calls require\<close>

datatype session_state = Outside | Initialized | Live bool | Ready | Generating | Shut

text \<open>\<open>Live\<close> holds whether the context was borrowed.\<close>

fun session_step :: "session_call \<Rightarrow> session_state \<Rightarrow> session_state option" where
  "session_step GlobalInitialize Outside = Some Initialized"
| "session_step SetupGlobalCL Initialized = Some Initialized"
| "session_step SessionCreate Initialized = Some (Live False)"
| "session_step (SessionSetFlags fs) (Live False) = Some (Live False)"
| "session_step ErrorDestroy (Live False) = Some (Live False)"
| "session_step BorrowContext (Live False) = Some (Live True)"
| "session_step (LoadDialect d) (Live True) = Some (Live True)"
| "session_step SessionDestroy (Live b) = Some Initialized"
| "session_step GeneratorScope (Live True) = Some Ready"
| "session_step GeneratorRun Ready = Some Generating"
| "session_step GeneratorEnd Generating = Some (Live True)"
| "session_step GlobalShutdown Initialized = Some Shut"
| "session_step c s = None"

fun session_steps :: "session_call list \<Rightarrow> session_state \<Rightarrow> session_state option" where
  "session_steps [] s = Some s"
| "session_steps (c # cs) s = Option.bind (session_step c s) (session_steps cs)"

text \<open>
  On every path of \<open>main\<close> the calls are allowed, the session is destroyed before the
  global state is shut down, and the generator has ended before that; and the exit
  code is the one of the model of \<open>main\<close> whose session is there exactly when
  \<open>initCompiler\<close> returns one.
\<close>

theorem check_gen_session:
  "(case check_gen_calls A mkdirs flags_error has_context args of
      None \<Rightarrow> check_gen_main A mkdirs (fst (initCompiler flags_error has_context)) args = None
    | Some (code, cs) \<Rightarrow> session_steps cs Outside = Some Shut \<and>
        (\<exists>st. check_gen_main A mkdirs (fst (initCompiler flags_error has_context)) args = Some (code, st)))"
  by (cases flags_error)
    (auto simp: check_gen_calls_def check_gen_main_def initCompiler_def checkError_def split: option.split prod.split)

end
