(* ===== verification/ListOps.thy ===== *)
theory ListOps
  imports Prelude
begin

text \<open>
  The tool \<open>tools/list-mlir-ops/list-mlir-ops.cpp\<close>: the operations MLIR has registered, all
  of them or those of one dialect. MLIR's registry is a parameter.
\<close>

record op_registry =
  registered_operations :: "string list"
  operations_by_dialect :: "string \<Rightarrow> string list"

text \<open>What is written to the standard output and the error output.\<close>

datatype printed = Out string | Err string

definition newline :: string where
  "newline = [CHR 0x0A]"

text \<open>The exit code and the output; \<open>dialectFilter\<close> is \<open>None\<close> when the argument does not occur.\<close>

definition list_ops_main :: "op_registry \<Rightarrow> string option \<Rightarrow> int \<times> printed list" where
  "list_ops_main R dialectFilter =
     (case dialectFilter of
        Some dialectName \<Rightarrow>
          (let ops = operations_by_dialect R dialectName
           in if ops = [] then (1, [Err (''No operations found for dialect: '' @ dialectName @ newline)])
              else (0, map (\<lambda>op. Out (op @ newline)) ops))
      | None \<Rightarrow> (0, map (\<lambda>op. Out (op @ newline)) (registered_operations R)))"

text \<open>
  The tool fails exactly for a dialect without operations, and writes to the error output
  exactly when it fails; the listing is complete and in the registry's order.
\<close>

theorem list_ops_main_result:
  "(fst (list_ops_main R f) \<noteq> 0 \<longleftrightarrow> (\<exists>d. f = Some d \<and> operations_by_dialect R d = [])) \<and>
   (fst (list_ops_main R f) \<noteq> 0 \<longleftrightarrow> (\<exists>e. Err e \<in> set (snd (list_ops_main R f)))) \<and>
   (fst (list_ops_main R f) = 0 \<longrightarrow> snd (list_ops_main R f) =
      map (\<lambda>op. Out (op @ newline)) (case f of None \<Rightarrow> registered_operations R | Some d \<Rightarrow> operations_by_dialect R d))"
  by (auto simp: list_ops_main_def Let_def split: option.split)

end
