(* ===== verification/CxxRuntime.thy ===== *)
theory CxxRuntime
  imports "HOL-Library.Word" Prelude
begin

text \<open>
  The C++ runtime of the firmware (\<open>crt/cxx_guards.cc\<close>): the guards of static
  objects and the table of destructors with its eight entries. A destructor may itself
  register others, so it acts on the world and on the table.
\<close>

unbundle bit_operations_syntax

section \<open>Guards\<close>

text \<open>The first byte of the guard variable, the lowest in memory.\<close>

definition guard_acquire :: "64 word \<Rightarrow> int" where
  "guard_acquire g = (if (ucast g :: 8 word) = 0 then 1 else 0)"

definition guard_release :: "64 word \<Rightarrow> 64 word" where
  "guard_release g = (g AND NOT 0xFF) OR 1"

text \<open>The code a compiler emits around the initialization of a static object.\<close>

definition static_init :: "('w \<Rightarrow> 'w) \<Rightarrow> 64 word \<times> 'w \<Rightarrow> 64 word \<times> 'w" where
  "static_init init = (\<lambda>(g, w). if guard_acquire g = 1 then (guard_release g, init w) else (g, w))"

section \<open>Destructors\<close>

definition MAX_ATEXIT_ENTRIES :: nat where
  "MAX_ATEXIT_ENTRIES = 8"

record ('d, 'a) atexit =
  atexit_entries :: "('d option \<times> 'a) list"
  atexit_count :: nat

definition cxa_atexit :: "'d option \<Rightarrow> 'a \<Rightarrow> ('d, 'a) atexit \<Rightarrow> int \<times> ('d, 'a) atexit" where
  "cxa_atexit destructor arg t =
     (if MAX_ATEXIT_ENTRIES \<le> atexit_count t then (- 1, t)
      else (0, t\<lparr>atexit_entries := (atexit_entries t)[atexit_count t := (destructor, arg)], atexit_count := atexit_count t + 1\<rparr>))"

text \<open>The loop of \<open>__cxa_finalize\<close> from an index down.\<close>

fun finalize_from :: "('d \<Rightarrow> 'a \<Rightarrow> 'w \<times> ('d, 'a) atexit \<Rightarrow> 'w \<times> ('d, 'a) atexit) \<Rightarrow> nat \<Rightarrow> 'w \<times> ('d, 'a) atexit \<Rightarrow> 'w \<times> ('d, 'a) atexit" where
  "finalize_from run 0 s = s"
| "finalize_from run (Suc i) s =
     (case atexit_entries (snd s) ! i of
        (None, _) \<Rightarrow> finalize_from run i s
      | (Some destructor, arg) \<Rightarrow> finalize_from run i (run destructor arg s))"

definition cxa_finalize :: "('d \<Rightarrow> 'a \<Rightarrow> 'w \<times> ('d, 'a) atexit \<Rightarrow> 'w \<times> ('d, 'a) atexit) \<Rightarrow> 'w \<times> ('d, 'a) atexit \<Rightarrow> 'w \<times> ('d, 'a) atexit" where
  "cxa_finalize run s =
     (case finalize_from run (atexit_count (snd s)) s of (w, t) \<Rightarrow> (w, t\<lparr>atexit_count := 0\<rparr>))"

text \<open>Registrations in a row, with the results of the calls.\<close>

fun register_all :: "('d option \<times> 'a) list \<Rightarrow> ('d, 'a) atexit \<Rightarrow> int list \<times> ('d, 'a) atexit" where
  "register_all [] t = ([], t)"
| "register_all ((d, a) # es) t =
     (case cxa_atexit d a t of (r, t1) \<Rightarrow> case register_all es t1 of (rs, t2) \<Rightarrow> (r # rs, t2))"

section \<open>Lemmas\<close>

definition table_ok :: "('d, 'a) atexit \<Rightarrow> bool" where
  "table_ok t \<longleftrightarrow> length (atexit_entries t) = MAX_ATEXIT_ENTRIES \<and> atexit_count t \<le> MAX_ATEXIT_ENTRIES"

definition registered :: "('d, 'a) atexit \<Rightarrow> ('d option \<times> 'a) list" where
  "registered t = take (atexit_count t) (atexit_entries t)"

lemma cxa_atexit_registered:
  assumes "table_ok t" "cxa_atexit d a t = (r, t1)"
  shows "table_ok t1 \<and> (if length (registered t) < MAX_ATEXIT_ENTRIES then r = 0 \<and> registered t1 = registered t @ [(d, a)]
    else r = - 1 \<and> t1 = t)"
  using assms by (auto simp: cxa_atexit_def table_ok_def registered_def take_Suc_conv_app_nth split: if_splits)

lemma register_all_registered:
  assumes "table_ok t" "register_all es t = (rs, t1)"
  shows "table_ok t1 \<and> registered t1 = take MAX_ATEXIT_ENTRIES (registered t @ es) \<and>
    rs = map (\<lambda>i. if length (registered t) + i < MAX_ATEXIT_ENTRIES then 0 else - 1) [0..<length es]"
  using assms
proof (induction es arbitrary: t rs)
  case Nil
  then show ?case by (simp add: table_ok_def registered_def)
next
  case (Cons e es)
  obtain d a where e: "e = (d, a)" by (cases e)
  obtain r u where u: "cxa_atexit d a t = (r, u)" by fastforce
  obtain rs1 where r: "register_all es u = (rs1, t1)" "rs = r # rs1"
    using Cons.prems(2) u by (auto simp: e split: prod.splits)
  note step = cxa_atexit_registered[OF Cons.prems(1) u]
  then have ok: "table_ok u" by simp
  have upt: "map f [0..<length (e # es)] = f 0 # map (\<lambda>i. f (Suc i)) [0..<length es]" for f :: "nat \<Rightarrow> int"
    by (simp add: upt_conv_Cons map_Suc_upt[symmetric] del: upt_Suc)
  show ?case
  proof (cases "length (registered t) < MAX_ATEXIT_ENTRIES")
    case True
    with step have "r = 0" "registered u = registered t @ [e]" by (simp_all add: e)
    then show ?thesis using Cons.IH[OF ok r(1)] True by (simp only: upt r(2)) simp
  next
    case False
    with step have "r = - 1" "u = t" by simp_all
    moreover have "length (registered t) = MAX_ATEXIT_ENTRIES"
      using False Cons.prems(1) by (simp add: registered_def table_ok_def)
    ultimately show ?thesis using Cons.IH[OF ok r(1)] by (simp only: upt r(2)) simp
  qed
qed

text \<open>What running the destructors of a list does, when none registers another.\<close>

definition run_list :: "('d \<Rightarrow> 'a \<Rightarrow> 'w \<Rightarrow> 'w) \<Rightarrow> ('d option \<times> 'a) list \<Rightarrow> 'w \<Rightarrow> 'w" where
  "run_list effect es w = fold (\<lambda>(d, a) w. case d of None \<Rightarrow> w | Some d1 \<Rightarrow> effect d1 a w) es w"

lemma finalize_from_run_list:
  assumes "\<And>d a w t. run d a (w, t) = (effect d a w, t)" "n \<le> length (atexit_entries t)"
  shows "finalize_from run n (w, t) = (run_list effect (rev (take n (atexit_entries t))) w, t)"
  using assms(2)
proof (induction n arbitrary: w)
  case (Suc n)
  obtain d a where e: "atexit_entries t ! n = (d, a)" by fastforce
  have tk: "take (Suc n) (atexit_entries t) = take n (atexit_entries t) @ [(d, a)]"
    using Suc.prems e by (simp add: take_Suc_conv_app_nth)
  show ?case using Suc by (cases d) (simp_all add: e tk run_list_def assms(1))
qed (simp add: run_list_def)

section \<open>Properties\<close>

text \<open>
  C35. The destructors registered since the last finalization run in reverse order, the
  first eight of them; each later registration reports failure and its destructor does
  not run; afterwards the table is empty.
\<close>

theorem atexit_finalize_lifo:
  assumes "table_ok t" "atexit_count t = 0" "\<And>d a w t. run d a (w, t) = (effect d a w, t)"
    "register_all es t = (rs, t1)"
  shows "\<exists>t2. cxa_finalize run (w, t1) = (run_list effect (rev (take 8 es)) w, t2) \<and> atexit_count t2 = 0 \<and> table_ok t2 \<and>
    rs = map (\<lambda>i. if i < 8 then 0 else - 1) [0..<length es]"
proof -
  have "registered t = []" using assms(2) by (simp add: registered_def)
  then have r: "table_ok t1" "registered t1 = take 8 es" "rs = map (\<lambda>i. if i < 8 then 0 else - 1) [0..<length es]"
    using register_all_registered[OF assms(1,4)] by (simp_all add: MAX_ATEXIT_ENTRIES_def)
  have "finalize_from run (atexit_count t1) (w, t1) = (run_list effect (rev (registered t1)) w, t1)"
    using finalize_from_run_list[OF assms(3)] r(1) by (simp add: registered_def table_ok_def)
  then show ?thesis using r by (simp add: cxa_finalize_def table_ok_def)
qed

text \<open>A static object is initialized once, and a destructor registered by a destructor is lost.\<close>

lemma static_init_once: "static_init init (static_init init (g, w)) = static_init init (g, w)"
proof -
  have "(ucast (guard_release g) :: 8 word) = 1"
    unfolding guard_release_def by (rule bit_word_eqI) (auto simp: bit_simps numeral_eq_Suc less_Suc_eq)
  then show ?thesis by (simp add: static_init_def guard_acquire_def)
qed

lemma late_registration_lost:
  "cxa_finalize (\<lambda>d a (w, t). (d # w, snd (cxa_atexit (Some 9) () t)))
      ([], \<lparr>atexit_entries = (Some 3, ()) # replicate 7 (None, ()), atexit_count = 1\<rparr>) =
    ([3 :: nat], \<lparr>atexit_entries = (Some 3, ()) # (Some 9, ()) # replicate 6 (None, ()), atexit_count = 0\<rparr>)"
  by (simp add: cxa_finalize_def cxa_atexit_def MAX_ATEXIT_ENTRIES_def numeral_eq_Suc)

definition empty_table :: "(nat, unit) atexit" where
  "empty_table = \<lparr>atexit_entries = replicate 8 (None, ()), atexit_count = 0\<rparr>"

lemma atexit_finalize_lifo_witness:
  "fst (cxa_finalize (\<lambda>d a (w, t). (w @ [d], t)) ([], snd (register_all [(Some 3, ()), (None, ()), (Some 5, ())] empty_table))) =
    [5, 3]"
proof -
  have ok: "table_ok empty_table" "atexit_count empty_table = 0"
    by (simp_all add: table_ok_def empty_table_def MAX_ATEXIT_ENTRIES_def)
  let ?run = "\<lambda>d a (w, t :: (nat, unit) atexit). (w @ [d], t)"
  have run: "?run d a (w, t) = (w @ [d], t)" for d a w t by simp
  from atexit_finalize_lifo[where run = ?run and effect = "\<lambda>d a w. w @ [d]" and es = "[(Some 3, ()), (None, ()), (Some 5, ())]"
      and w = "[]", OF ok run surjective_pairing]
  show ?thesis by (auto simp: run_list_def)
qed

end
