(* ===== verification/Spec2Isabelle.thy ===== *)
theory Spec2Isabelle
  imports TileClassify TileRegister TileFootprint TileDTCM TileWorkgroup AffinityAnnotation AffinityProfile
    MatrixMemory CheckGen CommandReplay QueueProgress DeviceOps SimRun
    CompilerOptions SerializeDumps PjrtClient CheckSession ListOps CompileDriver CxxRuntime
begin

text \<open>
  A model of the Coral NPU compiler and runtime, and theorems on it.

  The program. The repository adds a target to the IREE compiler and a driver to its
  runtime, for a RISC-V core with an instruction memory (ITCM), a small data memory
  (DTCM) and external memory (DDR). At compile time a plugin puts device affinities
  on the operations of a module, chooses tile sizes for each dispatch function, turns
  contractions into operations of a matrix unit, and serializes each executable: an
  LLVM module, an object file, and a linked 32-bit ELF. A driver around IREE's
  compiler also reports which operations run where. At run time the HAL driver gives
  the compiled program a device with queues, semaphores, command buffers and an
  executable cache; a dispatch loads the ELF into a simulated core, writes a request,
  constants and bindings into its memories, runs the firmware in that ELF, and copies
  the results back. The tool check-gen writes test modules from generators.

  How to read the model. Each theory opens with the files it models. Functions of the
  code are functions here under the same name where Isabelle allows it, structs are
  records, enums are datatypes, early returns and failures are values of a sum, an
  option or the type status. C and C++ integers whose wrap-around matters are words
  of their width; compiler integers (int64_t of MLIR, far from their bounds) are int.
  Code that is not in the repository (IREE, MLIR, LLVM, the simulator, libc) is a
  record of functions the definitions take, and what the code relies on of it is a
  named hypothesis (llvm_ok, mlir_ok, iree_ok, core_ok, backend_ok and the like), each
  met by a concrete instance in the witnesses. Locales hold the interfaces between
  parts, each interpreted on the code's own definitions.

  Shared theories. Prelude: loops over index lists, first matches, stores of named
  values (locale named_store). LlvmSupport, MlirTypes, Decimal: strings, types and
  number printing as LLVM and MLIR document them. HalStatus: status values of the
  runtime. SimMemory: little-endian bytes and the memory of the core. DoubleCompare:
  the comparison of the DTCM pass in double precision, equal to one on integers in the
  range that occurs.

  Tile sizes (compiler/Transforms/CoralNPUTileSizeSelection.cpp). TileClassify:
  getLoopRanges, classifyLoops and its refinements; every loop lands in exactly one of
  four lists, for contractions in the one its indexing maps decide. TileRegister: VLEN,
  alignments within the register budget, the register pass. TileFootprint: the bytes a
  tile touches, per kind of operation; never below the elements really accessed for
  linalg operations, exact for projections, too low for unpack with a permutation.
  TileDTCM: the shrinking loop, with its measure (the sum of the tiles), and the pass;
  it ends, on success the tile fits, it fails exactly when a single iteration does not
  fit. ConfigItems, TileWorkgroup: the named attributes, the third pass, and the three
  passes in the order and with the options of CoralNPUTargetBackend.cpp.

  Matrix unit. VectorToMatrix and MatrixTiles (CoralNPUVectorToMatrix.cpp): analysis of
  accumulation chains, rewriting of the loop, tile registers, the configuration word;
  the emitted tile program computes what the vector code computes, tiles are distinct.
  MatrixToLLVM (CoralNPUMatrixToLLVM.cpp): the lowering of placeholder calls.
  MatrixMemory: both passes together, with MLIR's conversion between them as a hypothesis;
  the rows of a tile are at the elements of the memref the vector code transfers.

  Affinities. AffinityAnnotation and AffinityProfile (CoralNPUAffinityAnnotation.cpp,
  CoralNPUDumpAffinityExecutionProfile.cpp): which operations are annotated, and the
  statistics and the three formats of the report.

  Serialization. LinkerTool (CoralNPULinkerTool.cpp), DebugDatabase and TargetBackend
  (CoralNPUTargetBackend.cpp): formats, the module made ready, its visible symbols, the
  two kinds of binaries, every error; the footer of a debug database is read back.
  SerializeDumps: the files dumped on the way, which change nothing but one failure.
  CompileDriver (compiler/tools/coralnpu_compile_lib.cc): a run as a trace of calls,
  which respects the states of the compiler's objects on every path. CompilerOptions: the
  flags of the plugin and of the driver, the device and backend the plugin registers
  (CoralNPUTargetBackend.h, CoralNPUTarget.cpp, coralnpu_compile_lib.cc); each flag sets
  its own option and nothing else, and the options reach the target and the passes.

  Runtime. ElfLoader (runtime/sim/simulator_elf_loader.c): safe on every image, and what
  a successful load leaves in memory. Firmware (crt/coralnpu_main.c,
  crt/coralnpu_dispatch.h): the request's bytes, and main with its three loops over
  memory; the kernels are a parameter. CxxRuntime (crt/cxx_guards.cc): guards and
  destructors. SimDispatch (runtime/sim/simulator_inline.c, simulator_mpact.cpp):
  allocation, preparation, run and read back; composed with the loader and the firmware,
  a dispatch that succeeds has run the kernel once per workgroup. SimRun (the same
  simulator_mpact.cpp, crt/coralnpu_exceptions.cc): the polling loop of a run, its step
  count, its progress output and the exception report; a dispatch blocks exactly when the
  core never halts. Semaphore
  (runtime/driver/coralnpu_semaphore.c): the threads as a step relation, one step per
  lock held, with its invariant by rule induction; results of waits and no lost
  wake-up. Executables (coralnpu_executable.c, coralnpu_executable_cache.c,
  runtime/sim/simulator_executable.c), CommandBuffer (coralnpu_command_buffer.c) and
  DeviceQueue (coralnpu_device.c): preparation, one recorded dispatch, one submission.
  CommandReplay: every command of the command buffer and the state it leaves, and the
  replay of a deferred command buffer when it is submitted; the replay has the effect of
  the inline commands, a submission that succeeds ran every dispatch on the core, one
  that fails stopped at its first error. QueueOrder: submissions of several threads as a
  step relation over one store of semaphores; what a semaphore orders happens in that
  order, and submissions that do not wait in a circle all complete. QueueThreads: the same
  submissions over the threads of Semaphore, one step per lock, with the host failing
  semaphores; the order holds there too. QueueProgress: where nothing fails these steps
  refine those of QueueOrder by a mediator function on the reachable states, and end with
  every submission returned. DeviceOps
  (coralnpu_device.c, coralnpu_event.c): the rest of the device's interface, with the
  locale timeline_op for the operations that wait, work and signal.
  DriverObjects (coralnpu_driver.c, registration/driver_module.c) and PjrtClient
  (pjrt_plugin/client.cc): lifetimes by reference counts. CompileRun joins the two halves: what the backend serializes for
  the default target, the cache prepares for the simulator.

  Test generation. CheckParse and CheckGen (tools/check_gen): parsing of instances, the
  generator with its loading, evaluation, refinement and output; different instances go
  to different files, and nothing is leaked. CheckSession: the compiler session of a run
  (CompileUtils.cpp, main.cpp) as a trace of calls. ListOps (tools/list-mlir-ops): the
  listing of operations.

  Termination and fuel. Loops over lists are structural; the shrinking loop of the DTCM
  pass and the loops of the firmware are partial functions to an option (the firmware
  re-reads the request from memory, so kernels may keep it running) and the theorems
  say when they return: the first always, the second exactly when the pass over all
  workgroups does. The polling loop of the simulator is partial too, and returns exactly
  when some poll finds the core halted. A wait of a queue operation, and so a submission,
  is an option for the same reason.

  Abstractions. The simulated core is a function on memory. A blocking wait is a
  parameter of the queue operations with the locale blocking_wait as its contract.
  Notifications of semaphores are one flag per waiter. Times, deadlines and priorities
  are not modelled beyond the three kinds of timeout. The LLVM module of TargetBackend
  is its list of functions and globals with the attributes the code sets. Percentages
  of the affinity report are exact quotients. The clock of the progress output is a
  function of the number of its reading, in nanoseconds. Assertions that fail, and reads or writes
  outside an object, are values of their own, never defaults.

  Not modelled. Registration of passes, dialects and IREE's own pipelines, debug
  output, trace zones and the assembly start code: input and output or calls into IREE
  without logic of their own. IREE's emulated queue operations and streaming transfers, which the device's
  vtable names, are not in the repository.

  Limits. The refinement of QueueProgress is without failures of the host; with them a
  wait can pass although a failure came first, which the one step of QueueOrder cannot do.
  What the matrix instructions do with a row, and what MLIR's conversions do between the
  two matrix passes beyond the operands of the calls, stays a parameter.
\<close>

end
